theory Spec2Isabelle
  imports Complex_Main "HOL-Library.Multiset" "HOL-Library.Sublist"
    "HOL-Library.Char_ord" "HOL-Library.List_Lexorder" "HOL-Library.Log_Nat"
begin

section \<open>Package securities: the data model\<close>

text \<open>
  A \<^verbatim>\<open>time.Time\<close> is an instant; the code only compares instants (\<^verbatim>\<open>After\<close>),
  shifts them by whole days and truncates them to days, always in UTC. An instant is
  modelled as the number of seconds elapsed since Go's zero time
  (0001-01-01 00:00:00 UTC, the value of \<^verbatim>\<open>time.Time{}\<close>); instants before the zero time
  are negative. Every timestamp that the program parses from the provider or from the
  store has whole seconds.

  Prices are \<^verbatim>\<open>float64\<close> in the source; they are modelled as real numbers, so the
  arithmetic of the model is exact.
\<close>

type_synonym Time = int

definition zeroTime :: Time where
  "zeroTime = 0"

definition After :: "Time \<Rightarrow> Time \<Rightarrow> bool" where
  "After t u \<longleftrightarrow> u < t"

text \<open>\<^verbatim>\<open>time.Date(3000, 1, 1, 0, 0, 0, 0, time.UTC)\<close>: 1095362 days after the zero time.\<close>

definition year3000 :: Time where
  "year3000 = 1095362 * 86400"

type_synonym SecurityType = string

definition UnknownType :: SecurityType where "UnknownType = ''unknown''"
definition Share :: SecurityType where "Share = ''share''"
definition ETF :: SecurityType where "ETF = ''etf''"
definition Bond :: SecurityType where "Bond = ''bond''"
definition Currency :: SecurityType where "Currency = ''currency''"

type_synonym SecurityCurrency = string

definition UnknownCurrency :: SecurityCurrency where "UnknownCurrency = ''unknown''"
definition RUB :: SecurityCurrency where "RUB = ''RUB''"
definition USD :: SecurityCurrency where "USD = ''USD''"
definition EUR :: SecurityCurrency where "EUR = ''EUR''"
definition CNY :: SecurityCurrency where "CNY = ''CNY''"

type_synonym QuotesInterval = int

definition IntervalUnknown :: QuotesInterval where "IntervalUnknown = 0"
definition IntervalDay :: QuotesInterval where "IntervalDay = 24"

record SecurityQuotes =
  Interval :: QuotesInterval
  Begin :: Time
  End :: Time
  Open :: real
  Close :: real
  High :: real
  Low :: real

text \<open>
  The field \<^verbatim>\<open>id\<close> of the source is called \<open>secId\<close> here. The source holds the quotes
  behind a pointer to a slice; no two securities of the program share one, so the
  record holds the list itself.
\<close>

record Security =
  secId :: string
  name :: string
  sType :: SecurityType
  currency :: SecurityCurrency
  quotes :: "SecurityQuotes list"

text \<open>The zero value of the struct, \<^verbatim>\<open>var quotes SecurityQuotes\<close>.\<close>

definition zeroQuotes :: SecurityQuotes where
  "zeroQuotes = \<lparr>Interval = 0, Begin = zeroTime, End = zeroTime,
     Open = 0, Close = 0, High = 0, Low = 0\<rparr>"

definition SetName :: "Security \<Rightarrow> string \<Rightarrow> Security" where
  "SetName s n = s\<lparr>name := n\<rparr>"

definition SetCurrency :: "Security \<Rightarrow> SecurityCurrency \<Rightarrow> Security" where
  "SetCurrency s c = s\<lparr>currency := c\<rparr>"

definition SetQuotes :: "Security \<Rightarrow> SecurityQuotes \<Rightarrow> Security" where
  "SetQuotes s q = s\<lparr>quotes := quotes s @ [q]\<rparr>"

definition SetQuotesList :: "Security \<Rightarrow> SecurityQuotes list \<Rightarrow> Security" where
  "SetQuotesList s qs = s\<lparr>quotes := quotes s @ qs\<rparr>"

definition ClearAndSetQuotesList :: "Security \<Rightarrow> SecurityQuotes list \<Rightarrow> Security" where
  "ClearAndSetQuotesList s qs = SetQuotesList (s\<lparr>quotes := []\<rparr>) qs"

definition QuotesOfInterval :: "Security \<Rightarrow> QuotesInterval \<Rightarrow> SecurityQuotes list" where
  "QuotesOfInterval s interval = filter (\<lambda>q. Interval q = interval) (quotes s)"

text \<open>
  The loop of \<^verbatim>\<open>QuotesForDate\<close>; the third argument is the local variable
  \<^verbatim>\<open>quotes\<close>, which starts as the zero value.
\<close>

fun QuotesForDate_loop ::
  "QuotesInterval \<Rightarrow> Time \<Rightarrow> SecurityQuotes \<Rightarrow> SecurityQuotes list \<Rightarrow> SecurityQuotes" where
  "QuotesForDate_loop interval date res [] = res"
| "QuotesForDate_loop interval date res (q # qs) =
     (if Interval q \<noteq> interval \<or> After (End q) date \<or> After (End res) (End q)
      then QuotesForDate_loop interval date res qs
      else QuotesForDate_loop interval date q qs)"

definition QuotesForDate :: "Security \<Rightarrow> QuotesInterval \<Rightarrow> Time \<Rightarrow> SecurityQuotes" where
  "QuotesForDate s interval date = QuotesForDate_loop interval date zeroQuotes (quotes s)"

definition LastQuotes :: "Security \<Rightarrow> QuotesInterval \<Rightarrow> SecurityQuotes" where
  "LastQuotes s interval = QuotesForDate s interval year3000"

text \<open>
  \<^verbatim>\<open>strings.ToUpper\<close> and \<^verbatim>\<open>strings.ToLower\<close>, on ASCII letters (security ids, type and
  currency names are ASCII).
\<close>

definition toUpper_char :: "char \<Rightarrow> char" where
  "toUpper_char c =
     (if 97 \<le> (of_char c :: nat) \<and> (of_char c :: nat) \<le> 122
      then char_of ((of_char c :: nat) - 32) else c)"

definition toLower_char :: "char \<Rightarrow> char" where
  "toLower_char c =
     (if 65 \<le> (of_char c :: nat) \<and> (of_char c :: nat) \<le> 90
      then char_of ((of_char c :: nat) + 32) else c)"

definition ToUpper :: "string \<Rightarrow> string" where
  "ToUpper s = map toUpper_char s"

definition ToLower :: "string \<Rightarrow> string" where
  "ToLower s = map toLower_char s"

definition GetSecurity ::
  "string \<Rightarrow> string \<Rightarrow> SecurityType \<Rightarrow> SecurityCurrency \<Rightarrow> Security" where
  "GetSecurity i n t c =
     \<lparr>secId = ToUpper i, name = n, sType = t, currency = c, quotes = []\<rparr>"

definition GetQuickSecurity :: "string \<Rightarrow> SecurityType \<Rightarrow> Security" where
  "GetQuickSecurity i t = GetSecurity i [] t UnknownCurrency"

definition GetSecurityTypeFromString :: "string \<Rightarrow> SecurityType" where
  "GetSecurityTypeFromString typeName =
     (if ToLower typeName = ''share'' then Share
      else if ToLower typeName = ''etf'' then ETF
      else if ToLower typeName = ''bond'' then Bond
      else if ToLower typeName = ''currency'' then Currency
      else UnknownType)"

definition GetSecurityCurrencyFromString :: "string \<Rightarrow> SecurityCurrency" where
  "GetSecurityCurrencyFromString currencyName =
     (if ToUpper currencyName = ''RUB'' then RUB
      else if ToUpper currencyName = ''USD'' then USD
      else if ToUpper currencyName = ''EUR'' then EUR
      else if ToUpper currencyName = ''CNY'' then CNY
      else UnknownCurrency)"

text \<open>
  Days: \<^verbatim>\<open>t.Truncate(24 * time.Hour)\<close> rounds an instant down to a multiple of a day
  counted from the zero time, \<^verbatim>\<open>t.AddDate(0, 0, n)\<close> moves a UTC instant by \<open>n\<close>
  days, and \<^verbatim>\<open>t.Format("2006-01-02")\<close> names the calendar day of a UTC instant, which
  is modelled as the number of that day.
\<close>

definition Truncate_day :: "Time \<Rightarrow> Time" where
  "Truncate_day t = t - t mod 86400"

definition AddDate_days :: "Time \<Rightarrow> int \<Rightarrow> Time" where
  "AddDate_days t n = t + n * 86400"

definition Format_day :: "Time \<Rightarrow> int" where
  "Format_day t = t div 86400"

section \<open>Sorting and scheduling\<close>

text \<open>
  \<^verbatim>\<open>sort.Slice(xs, less)\<close>, as an insertion sort. Go leaves the order of elements that
  \<open>lt\<close> (its \<^verbatim>\<open>less\<close>) does not separate open; the functions below sort lists that concurrent
  tasks appended to in an order of their own, which the model takes as a parameter
  (a schedule: it maps the items in program order to the order in which their tasks
  finished). The theorems hold for every schedule.
\<close>

fun insert_Slice :: "('a \<Rightarrow> 'a \<Rightarrow> bool) \<Rightarrow> 'a \<Rightarrow> 'a list \<Rightarrow> 'a list" where
  "insert_Slice lt x [] = [x]"
| "insert_Slice lt x (y # ys) =
     (if lt y x then y # insert_Slice lt x ys else x # y # ys)"

fun sort_Slice :: "('a \<Rightarrow> 'a \<Rightarrow> bool) \<Rightarrow> 'a list \<Rightarrow> 'a list" where
  "sort_Slice lt [] = []"
| "sort_Slice lt (x # xs) = insert_Slice lt x (sort_Slice lt xs)"

type_synonym 'a schedule = "'a list \<Rightarrow> 'a list"

definition fair :: "'a schedule \<Rightarrow> bool" where
  "fair sched \<longleftrightarrow> (\<forall>xs. mset (sched xs) = mset xs)"

text \<open>The \<open>less\<close> function of the two sorts of quotes: \<^verbatim>\<open>quotes[j].Begin.After(quotes[i].Begin)\<close>.\<close>

definition less_Begin :: "SecurityQuotes \<Rightarrow> SecurityQuotes \<Rightarrow> bool" where
  "less_Begin a b \<longleftrightarrow> After (Begin b) (Begin a)"

section \<open>Package securitiesSQL: the store\<close>

text \<open>
  The database holds the two tables of \<^verbatim>\<open>CreateDatabase\<close>. A table is the list of its
  rows; a \<^verbatim>\<open>DATETIME\<close> column holds an instant, a \<^verbatim>\<open>DECIMAL\<close> column a number. The store
  compares strings exactly (but for the comparison of the two implementations of
  \<^verbatim>\<open>SecurityExists\<close>, where the collation is a parameter), and a statement either takes
  effect as a whole or fails and changes nothing. The model has no failing
  connection: a statement fails only by breaking a key constraint of the tables, or
  because the store does not read its text, which can happen to the one query whose
  text the program writes from its input.

  An \<^verbatim>\<open>error\<close> is its message; \<^verbatim>\<open>nil\<close> is \<open>None\<close>.
\<close>

type_synonym error = string

record security_row =
  s_id :: string
  s_name :: string
  s_type :: string
  s_currency :: string

record quote_row =
  sq_security :: string
  sq_begin :: Time
  sq_end :: Time
  sq_interv :: int
  sq_open :: real
  sq_close :: real
  sq_high :: real
  sq_low :: real

record DB =
  securities :: "security_row list"
  security_quotes :: "quote_row list"

text \<open>The primary key of \<^verbatim>\<open>security_quotes\<close>: \<^verbatim>\<open>(security, begin, interv)\<close>.\<close>

definition quote_key :: "quote_row \<Rightarrow> string \<times> Time \<times> int" where
  "quote_key r = (sq_security r, sq_begin r, sq_interv r)"

text \<open>
  \<^verbatim>\<open>INSERT INTO security_quotes ... VALUES (...), (...)\<close>: one statement. It fails on a
  duplicate primary key and on a row whose security is not in \<^verbatim>\<open>securities\<close>
  (the foreign key).
\<close>

definition insert_quotes :: "DB \<Rightarrow> quote_row list \<Rightarrow> error + DB" where
  "insert_quotes db rows =
     (if \<not> distinct (map quote_key rows) \<or>
         (\<exists>r\<in>set rows. quote_key r \<in> set (map quote_key (security_quotes db)))
      then Inl ''Error 1062: Duplicate entry for key security_quotes.PRIMARY''
      else if \<exists>r\<in>set rows. sq_security r \<notin> set (map s_id (securities db))
      then Inl ''Error 1452: Cannot add or update a child row: a foreign key constraint fails''
      else Inr (db\<lparr>security_quotes := security_quotes db @ rows\<rparr>))"

text \<open>\<^verbatim>\<open>INSERT INTO securities ... VALUES (...), (...)\<close>; the primary key is \<^verbatim>\<open>id\<close>.\<close>

definition insert_securities :: "DB \<Rightarrow> security_row list \<Rightarrow> error + DB" where
  "insert_securities db rows =
     (if \<not> distinct (map s_id rows) \<or>
         (\<exists>r\<in>set rows. s_id r \<in> set (map s_id (securities db)))
      then Inl ''Error 1062: Duplicate entry for key securities.PRIMARY''
      else Inr (db\<lparr>securities := securities db @ rows\<rparr>))"

text \<open>
  \<^verbatim>\<open>DELETE FROM security_quotes WHERE security = ? AND begin >= ? AND begin <= ? AND interv = ?\<close>
\<close>

definition delete_quotes_range :: "DB \<Rightarrow> string \<Rightarrow> Time \<Rightarrow> Time \<Rightarrow> int \<Rightarrow> DB" where
  "delete_quotes_range db i dateFrom dateTill interval =
     db\<lparr>security_quotes :=
        filter (\<lambda>r. \<not> (sq_security r = i \<and> dateFrom \<le> sq_begin r \<and>
                       sq_begin r \<le> dateTill \<and> sq_interv r = interval))
          (security_quotes db)\<rparr>"

subsection \<open>SecurityExists, earlier and later\<close>

text \<open>
  The later \<^verbatim>\<open>SecurityExists\<close> passes the id and the type to the store as parameters of
  the statement \<^verbatim>\<open>SELECT id FROM securities WHERE id = ? AND type = ?\<close>.
\<close>

definition SecurityExists :: "DB \<Rightarrow> string \<Rightarrow> SecurityType \<Rightarrow> error + bool" where
  "SecurityExists db i t =
     (if i = [] then Inl ''security has no id''
      else if t = [] \<or> t = UnknownType then Inl ''security has no type or type is unknown''
      else Inr (filter (\<lambda>r. s_id r = i \<and> s_type r = t) (securities db) \<noteq> []))"

text \<open>
  The earlier \<^verbatim>\<open>SecurityExists\<close> writes the type into the text of its query,
  \<^verbatim>\<open>fmt.Sprintf("SELECT id FROM securities WHERE type = \"%s\"", sType)\<close>, and compares the
  ids of the rows with the id in the program (the loop \<open>scan_ids\<close>). What the
  query selects is what the store reads in that text, so the model has the reading
  of the condition after \<^verbatim>\<open>WHERE\<close>: words (the names of the columns, \<^verbatim>\<open>AND\<close>, \<^verbatim>\<open>OR\<close>),
  \<^verbatim>\<open>=\<close>, and literals between double quotes, in which a doubled quote is a quote and a
  backslash takes the next character with it (the reading of the server in its
  default mode). A condition is a disjunction of conjunctions of comparisons; a text
  that is not read as one is refused with a syntax error.

  The store compares strings by the collation of the column, which the schema leaves
  to the server. To compare the two implementations the collation is a parameter
  \<open>coll\<close>; \<open>SecurityExists_later\<close> is the later implementation over it, and
  \<open>SecurityExists\<close> above is the case of the exact comparison, which is the one taken
  in the rest of this development.
\<close>

type_synonym collation = "string \<Rightarrow> string \<Rightarrow> bool"

definition dquote :: char where "dquote = CHR 0x22"
definition backslash :: char where "backslash = CHR 0x5C"

datatype sql_token = Word string | Lit string | Equals

text \<open>The state of the reading; a word or literal in progress is held latest character first.\<close>

datatype lex_state = Idle | InWord string | InLit string | InLitQuote string | InLitEscape string

definition is_word_char :: "char \<Rightarrow> bool" where
  "is_word_char c \<longleftrightarrow>
     (let n = (of_char c :: nat)
      in 97 \<le> n \<and> n \<le> 122 \<or> 65 \<le> n \<and> n \<le> 90 \<or> 48 \<le> n \<and> n \<le> 57 \<or> n = 95)"

text \<open>The character that a backslash and \<open>c\<close> stand for in a literal.\<close>

definition unescape :: "char \<Rightarrow> string" where
  "unescape c =
     (if c = CHR ''n'' then [CHR 0x0A]
      else if c = CHR ''t'' then [CHR 0x09]
      else if c = CHR ''r'' then [CHR 0x0D]
      else if c = CHR ''b'' then [CHR 0x08]
      else if c = CHR ''0'' then [CHR 0x00]
      else if c = CHR ''Z'' then [CHR 0x1A]
      else if c = CHR ''%'' \<or> c = CHR ''_'' then [c, backslash]
      else [c])"

function lex_sql :: "lex_state \<Rightarrow> string \<Rightarrow> sql_token list option" where
  "lex_sql Idle [] = Some []"
| "lex_sql (InWord w) [] = Some [Word (rev w)]"
| "lex_sql (InLit l) [] = None"
| "lex_sql (InLitEscape l) [] = None"
| "lex_sql (InLitQuote l) [] = Some [Lit (rev l)]"
| "lex_sql Idle (c # cs) =
     (if c = CHR '' '' then lex_sql Idle cs
      else if c = CHR ''='' then map_option (Cons Equals) (lex_sql Idle cs)
      else if c = dquote then lex_sql (InLit []) cs
      else if is_word_char c then lex_sql (InWord [c]) cs
      else None)"
| "lex_sql (InWord w) (c # cs) =
     (if is_word_char c then lex_sql (InWord (c # w)) cs
      else map_option (Cons (Word (rev w))) (lex_sql Idle (c # cs)))"
| "lex_sql (InLit l) (c # cs) =
     (if c = dquote then lex_sql (InLitQuote l) cs
      else if c = backslash then lex_sql (InLitEscape l) cs
      else lex_sql (InLit (c # l)) cs)"
| "lex_sql (InLitQuote l) (c # cs) =
     (if c = dquote then lex_sql (InLit (c # l)) cs
      else map_option (Cons (Lit (rev l))) (lex_sql Idle (c # cs)))"
| "lex_sql (InLitEscape l) (c # cs) = lex_sql (InLit (unescape c @ l)) cs"
  by pat_completeness auto
termination
  by (relation "measure (\<lambda>(st, cs). 2 * length cs + (if st = Idle then 0 else 1))") auto

text \<open>The parts of a list between the elements that satisfy \<open>sep\<close>.\<close>

fun split_on :: "('a \<Rightarrow> bool) \<Rightarrow> 'a list \<Rightarrow> 'a list list" where
  "split_on sep [] = [[]]"
| "split_on sep (x # xs) =
     (if sep x then [] # split_on sep xs
      else (case split_on sep xs of
              [] \<Rightarrow> [[x]]
            | part # parts \<Rightarrow> (x # part) # parts))"

datatype sql_operand = Column string | Literal string

definition is_keyword :: "string \<Rightarrow> sql_token \<Rightarrow> bool" where
  "is_keyword k tok = (case tok of Word w \<Rightarrow> ToLower w = k | _ \<Rightarrow> False)"

definition parse_operand :: "sql_token \<Rightarrow> sql_operand option" where
  "parse_operand tok =
     (case tok of
        Lit l \<Rightarrow> Some (Literal l)
      | Word w \<Rightarrow>
          if ToLower w \<in> set [''id'', ''name'', ''type'', ''currency'']
          then Some (Column (ToLower w)) else None
      | Equals \<Rightarrow> None)"

fun parse_comparison :: "sql_token list \<Rightarrow> (sql_operand \<times> sql_operand) option" where
  "parse_comparison [a, Equals, b] =
     (case (parse_operand a, parse_operand b) of
        (Some x, Some y) \<Rightarrow> Some (x, y)
      | _ \<Rightarrow> None)"
| "parse_comparison toks = None"

text \<open>All of the results, if every element has one.\<close>

fun those_all :: "'a option list \<Rightarrow> 'a list option" where
  "those_all [] = Some []"
| "those_all (None # xs) = None"
| "those_all (Some x # xs) = map_option (Cons x) (those_all xs)"

definition parse_condition :: "sql_token list \<Rightarrow> (sql_operand \<times> sql_operand) list list option" where
  "parse_condition toks =
     those_all (map (\<lambda>conj. those_all (map parse_comparison (split_on (is_keyword ''and'') conj)))
                  (split_on (is_keyword ''or'') toks))"

definition operand_value :: "security_row \<Rightarrow> sql_operand \<Rightarrow> string" where
  "operand_value r x =
     (case x of
        Literal l \<Rightarrow> l
      | Column c \<Rightarrow>
          if c = ''id'' then s_id r
          else if c = ''name'' then s_name r
          else if c = ''type'' then s_type r
          else s_currency r)"

definition holds :: "collation \<Rightarrow> (sql_operand \<times> sql_operand) list list \<Rightarrow> security_row \<Rightarrow> bool" where
  "holds coll cond r \<longleftrightarrow>
     (\<exists>conj\<in>set cond. \<forall>(x, y)\<in>set conj. coll (operand_value r x) (operand_value r y))"

text \<open>\<^verbatim>\<open>SELECT id FROM securities WHERE\<close> and the text of a condition.\<close>

definition select_ids_where :: "collation \<Rightarrow> DB \<Rightarrow> string \<Rightarrow> error + string list" where
  "select_ids_where coll db text =
     (case lex_sql Idle text of
        None \<Rightarrow> Inl ''Error 1064: You have an error in your SQL syntax''
      | Some toks \<Rightarrow>
          (case parse_condition toks of
             None \<Rightarrow> Inl ''Error 1064: You have an error in your SQL syntax''
           | Some cond \<Rightarrow> Inr (map s_id (filter (holds coll cond) (securities db)))))"

fun scan_ids :: "string list \<Rightarrow> string \<Rightarrow> bool" where
  "scan_ids [] i = False"
| "scan_ids (r # rs) i = (if r = i then True else scan_ids rs i)"

definition SecurityExists_earlier ::
  "collation \<Rightarrow> DB \<Rightarrow> string \<Rightarrow> SecurityType \<Rightarrow> error + bool" where
  "SecurityExists_earlier coll db i t =
     (if i = [] then Inl ''security has no id''
      else if t = [] \<or> t = UnknownType then Inl ''security has no type or type is unknown''
      else
        (case select_ids_where coll db (''type = '' @ [dquote] @ t @ [dquote]) of
           Inl e \<Rightarrow> Inl e
         | Inr ids \<Rightarrow> Inr (scan_ids ids i)))"

definition SecurityExists_later ::
  "collation \<Rightarrow> DB \<Rightarrow> string \<Rightarrow> SecurityType \<Rightarrow> error + bool" where
  "SecurityExists_later coll db i t =
     (if i = [] then Inl ''security has no id''
      else if t = [] \<or> t = UnknownType then Inl ''security has no type or type is unknown''
      else Inr (filter (\<lambda>r. coll (s_id r) i \<and> coll (s_type r) t) (securities db) \<noteq> []))"

definition SecurityQuotesExist :: "DB \<Rightarrow> Security \<Rightarrow> Time \<Rightarrow> QuotesInterval \<Rightarrow> bool" where
  "SecurityQuotesExist db sec date interval \<longleftrightarrow>
     filter (\<lambda>r. sq_security r = secId sec \<and> sq_begin r = date \<and> sq_interv r = interval)
       (security_quotes db) \<noteq> []"

subsection \<open>GetSecurityData and GetSecuritiesData\<close>

definition quotes_of_row :: "quote_row \<Rightarrow> SecurityQuotes" where
  "quotes_of_row r = \<lparr>Interval = sq_interv r, Begin = sq_begin r, End = sq_end r,
     Open = sq_open r, Close = sq_close r, High = sq_high r, Low = sq_low r\<rparr>"

text \<open>
  One task per row of the security appends the row's quote; \<open>sched\<close> gives the order
  in which the tasks append. Then the whole list is sorted and set.
\<close>

definition GetSecurityData ::
  "quote_row schedule \<Rightarrow> DB \<Rightarrow> Security \<Rightarrow> error option \<times> Security" where
  "GetSecurityData sched db sec =
     (case SecurityExists db (secId sec) (sType sec) of
        Inl e \<Rightarrow> (Some e, sec)
      | Inr seqExists \<Rightarrow>
          if \<not> seqExists then (Some (''security '' @ secId sec @ '' does not exist''), sec)
          else
            (case filter (\<lambda>r. s_id r = secId sec) (securities db) of
               [] \<Rightarrow> (Some ''sql: no rows in result set'', sec)
             | r # _ \<Rightarrow>
                 let sec1 = SetCurrency (SetName sec (s_name r))
                              (GetSecurityCurrencyFromString (s_currency r));
                     rows = filter (\<lambda>q. sq_security q = secId sec) (security_quotes db);
                     sec2 = fold (\<lambda>row s. SetQuotes s (quotes_of_row row)) (sched rows) sec1;
                     q = sort_Slice less_Begin (quotes sec2)
                 in (None, ClearAndSetQuotesList sec2 q)))"

text \<open>
  \<^verbatim>\<open>collectErrors\<close> joins the errors it receives, in the order of their arrival, until
  it is told to quit; the first argument is its variable \<^verbatim>\<open>finErr\<close>.
\<close>

definition newline :: string where
  "newline = [CHR 0x0A]"

fun collectErrors :: "error option \<Rightarrow> error list \<Rightarrow> error option" where
  "collectErrors finErr [] = finErr"
| "collectErrors finErr (err # errs) =
     collectErrors (case finErr of None \<Rightarrow> Some err | Some f \<Rightarrow> Some (f @ newline @ err)) errs"

text \<open>
  One task per security runs \<^verbatim>\<open>GetSecurityData\<close> on it and sends its error, if any
  (\<open>failures\<close>: the errors of a list of finished tasks); \<open>sched\<close> gives the order
  in which the tasks finish. The caller waits for all tasks before it tells the
  collector to quit.
\<close>

definition failures :: "(error option \<times> 'a) list \<Rightarrow> error list" where
  "failures done = concat (map (\<lambda>r. case fst r of None \<Rightarrow> [] | Some e \<Rightarrow> [e]) done)"

definition GetSecuritiesData ::
  "quote_row schedule \<Rightarrow> (error option \<times> Security) schedule \<Rightarrow> DB \<Rightarrow> Security list \<Rightarrow>
   error option \<times> Security list" where
  "GetSecuritiesData rsched sched db sec =
     (let done = map (GetSecurityData rsched db) sec
      in (collectErrors None (failures (sched done)), map snd done))"

subsection \<open>AddSecurities\<close>

text \<open>
  The loop of the later \<^verbatim>\<open>AddSecurities\<close>; \<open>args\<close> are the rows to insert so far,
  and \<open>security_row_of\<close> is the row of a security, with \<^verbatim>\<open>RUB\<close> for an unknown
  currency.
\<close>

definition security_row_of :: "Security \<Rightarrow> security_row" where
  "security_row_of s = \<lparr>s_id = secId s, s_name = name s, s_type = sType s,
     s_currency = (if currency s = UnknownCurrency then RUB else currency s)\<rparr>"

fun AddSecurities_loop :: "DB \<Rightarrow> Security list \<Rightarrow> security_row list \<Rightarrow> error + security_row list" where
  "AddSecurities_loop db [] args = Inr args"
| "AddSecurities_loop db (s # ss) args =
     (case SecurityExists db (secId s) (sType s) of
        Inl e \<Rightarrow> Inl e
      | Inr secExists \<Rightarrow>
          if secExists then AddSecurities_loop db ss args
          else AddSecurities_loop db ss (args @ [security_row_of s]))"

definition AddSecurities :: "DB \<Rightarrow> Security list \<Rightarrow> error option \<times> DB" where
  "AddSecurities db sec =
     (case AddSecurities_loop db sec [] of
        Inl e \<Rightarrow> (Some e, db)
      | Inr args \<Rightarrow>
          if args = [] then (None, db)
          else (case insert_securities db args of
                  Inl e \<Rightarrow> (Some e, db)
                | Inr db' \<Rightarrow> (None, db')))"

definition AddSecurity :: "DB \<Rightarrow> Security \<Rightarrow> error option \<times> DB" where
  "AddSecurity db sec = AddSecurities db [sec]"

section \<open>Package moex: the market data client\<close>

text \<open>
  The provider is a parameter of the model: a function from the request (the fields
  that the code formats into the URL) to the decoded answer, or to the error of the
  transport or of the decoding. Rows are taken as decoded: a row whose fields have
  another type stops the process and is outside the model.
\<close>

definition getEngineAndMarket :: "SecurityType \<Rightarrow> error + string \<times> string \<times> string" where
  "getEngineAndMarket t =
     (if t = Share then Inr (''stock'', ''shares'', [])
      else if t = ETF then Inr (''stock'', ''shares'', ''TQTF'')
      else if t = Bond then Inr (''stock'', ''bonds'', [])
      else if t = Currency then Inr (''currency'', ''index'', [])
      else Inl (''unknown security type: '' @ t))"

definition boardStr :: "string \<Rightarrow> string" where
  "boardStr board = (if board \<noteq> [] then ''/boards/'' @ board else [])"

text \<open>A candle: the positions 0, 1, 2, 3, 6 and 7 of a row of \<^verbatim>\<open>candles.data\<close>.\<close>

record candle =
  c_open :: real
  c_close :: real
  c_high :: real
  c_low :: real
  c_begin :: Time
  c_end :: Time

record candles_request =
  cr_engine :: string
  cr_market :: string
  cr_boardStr :: string
  cr_security :: string
  cr_from :: int
  cr_till :: int
  cr_interval :: int

type_synonym candles_provider = "candles_request \<Rightarrow> error + candle list"

definition quotes_of_candle :: "QuotesInterval \<Rightarrow> candle \<Rightarrow> SecurityQuotes" where
  "quotes_of_candle interval c = \<lparr>Interval = interval, Begin = c_begin c, End = c_end c,
     Open = c_open c, Close = c_close c, High = c_high c, Low = c_low c\<rparr>"

text \<open>
  One task per candle appends its quote to a local list, in the order \<open>sched\<close>; the
  local list is sorted and appended to the quotes that the security holds.
\<close>

definition GetSecurityQuotes ::
  "candles_provider \<Rightarrow> candle schedule \<Rightarrow> Security \<Rightarrow> Time \<Rightarrow> Time \<Rightarrow> QuotesInterval \<Rightarrow>
   error option \<times> Security" where
  "GetSecurityQuotes provider sched sec dateFrom dateTill interval =
     (case getEngineAndMarket (sType sec) of
        Inl e \<Rightarrow> (Some e, sec)
      | Inr (engine, market, board) \<Rightarrow>
          (case provider \<lparr>cr_engine = engine, cr_market = market, cr_boardStr = boardStr board,
                   cr_security = secId sec, cr_from = Format_day dateFrom,
                   cr_till = Format_day dateTill, cr_interval = interval\<rparr> of
             Inl e \<Rightarrow> (Some e, sec)
           | Inr candleData \<Rightarrow>
               (None, SetQuotesList sec
                  (sort_Slice less_Begin (map (quotes_of_candle interval) (sched candleData))))))"

text \<open>
  A row of \<^verbatim>\<open>history.data\<close>: the positions 0 (board), 3 (security id, may be null),
  6, 7, 8 (open, low, high) and 11 (close, may be null).
\<close>

record history_row =
  h_board :: string
  h_secid :: "string option"
  h_open :: real
  h_low :: real
  h_high :: real
  h_close :: "real option"

record history_request =
  hr_engine :: string
  hr_market :: string
  hr_boardStr :: string
  hr_date :: int
  hr_start :: nat

type_synonym history_provider = "history_request \<Rightarrow> error + history_row list"

text \<open>
  The map \<^verbatim>\<open>sIds\<close> from an id to its security: the last security of the list with that
  id, given by its position.
\<close>

definition sIds :: "Security list \<Rightarrow> string \<Rightarrow> nat option" where
  "sIds sec i =
     (case filter (\<lambda>k. secId (sec ! k) = i) (rev [0..<length sec]) of
        [] \<Rightarrow> None
      | k # _ \<Rightarrow> Some k)"

text \<open>The task of one row of a page.\<close>

definition set_history_quotes ::
  "string \<Rightarrow> Time \<Rightarrow> history_row \<Rightarrow> Security list \<Rightarrow> Security list" where
  "set_history_quotes boardToCheck date data sec =
     (case (h_secid data, h_close data) of
        (Some i, Some cl) \<Rightarrow>
          if h_board data = boardToCheck then
            (case sIds sec (ToUpper i) of
               None \<Rightarrow> sec
             | Some k \<Rightarrow>
                 sec[k := SetQuotes (sec ! k)
                    \<lparr>Interval = IntervalDay, Begin = Truncate_day date,
                     End = Truncate_day (AddDate_days date 1),
                     Open = h_open data, Close = cl, High = h_high data, Low = h_low data\<rparr>])
          else sec
      | _ \<Rightarrow> sec)"

text \<open>
  The state of a call: the securities, and the requests sent so far (the latest
  first). The list of requests is not in the source; it is kept so that the paging
  can be stated.
\<close>

type_synonym fetch_state = "Security list \<times> history_request list"

datatype step = Failed error | PreviousDay | Proceed

text \<open>
  The request for the page at \<open>start\<close> of a class (its engine, market and board) on
  the day of \<open>date\<close>.
\<close>

definition history_request_of ::
  "string \<times> string \<times> string \<Rightarrow> Time \<Rightarrow> nat \<Rightarrow> history_request" where
  "history_request_of emb date start =
     \<lparr>hr_engine = fst emb, hr_market = fst (snd emb), hr_boardStr = boardStr (snd (snd emb)),
      hr_date = Format_day date, hr_start = start\<rparr>"

text \<open>
  The loop \<^verbatim>\<open>for start := 0; start < 1000; start += 100\<close> over the pages of one class.
  \<open>Proceed\<close>: the loop ended or met \<^verbatim>\<open>break\<close>; \<open>PreviousDay\<close>: the page at 0 was
  empty; \<open>Failed\<close>: the request failed.
\<close>

function page_loop ::
  "history_provider \<Rightarrow> string \<times> string \<times> string \<Rightarrow> Time \<Rightarrow> nat \<Rightarrow> fetch_state \<Rightarrow>
   step \<times> fetch_state" where
  "page_loop provider emb date start st =
     (if start < 1000 then
        (let request = history_request_of emb date start;
             st1 = (fst st, request # snd st)
         in case provider request of
              Inl e \<Rightarrow> (Failed e, st1)
            | Inr rows \<Rightarrow>
                if rows = [] then (if start = 0 then (PreviousDay, st1) else (Proceed, st1))
                else page_loop provider emb date (start + 100)
                       (fold (set_history_quotes
                                (if snd (snd emb) \<noteq> [] then snd (snd emb) else ''TQBR'') date)
                          rows (fst st1), snd st1))
      else (Proceed, st))"
  by pat_completeness auto
termination
  by (relation "measure (\<lambda>(provider, emb, date, start, st). 1000 - start)") auto

text \<open>The loop over the classes (the keys of the map \<^verbatim>\<open>sTypes\<close>).\<close>

fun class_loop ::
  "history_provider \<Rightarrow> Time \<Rightarrow> SecurityType list \<Rightarrow> fetch_state \<Rightarrow> step \<times> fetch_state" where
  "class_loop provider date [] st = (Proceed, st)"
| "class_loop provider date (t # ts) st =
     (case getEngineAndMarket t of
        Inl e \<Rightarrow> (Failed e, st)
      | Inr emb \<Rightarrow>
          (case page_loop provider emb date 0 st of
             (Proceed, st') \<Rightarrow> class_loop provider date ts st'
           | (r, st') \<Rightarrow> (r, st')))"

definition sTypes :: "Security list \<Rightarrow> SecurityType list" where
  "sTypes sec = remdups (map sType sec)"

text \<open>
  \<^verbatim>\<open>GetQuotesForDate\<close> calls itself on the previous day when a first page is empty,
  with no bound on the number of days, so it is a partial function: \<open>None\<close> when
  the call does not return. Go ranges over a map in an order of its choice;
  \<open>iter\<close> is that choice for the call on the given date.
\<close>

partial_function (option) GetQuotesForDate ::
  "history_provider \<Rightarrow> (Time \<Rightarrow> SecurityType list \<Rightarrow> SecurityType list) \<Rightarrow> fetch_state \<Rightarrow> Time \<Rightarrow>
   (error option \<times> fetch_state) option" where
  "GetQuotesForDate provider iter st date =
     (case class_loop provider date (iter date (sTypes (fst st))) st of
        (PreviousDay, st') \<Rightarrow> GetQuotesForDate provider iter st' (AddDate_days date (- 1))
      | (Failed e, st') \<Rightarrow> Some (Some e, st')
      | (Proceed, st') \<Rightarrow> Some (None, st'))"

section \<open>Package securitiesSQL: the updates\<close>

definition quote_row_of :: "string \<Rightarrow> QuotesInterval \<Rightarrow> SecurityQuotes \<Rightarrow> quote_row" where
  "quote_row_of i interval q = \<lparr>sq_security = i, sq_begin = Begin q, sq_end = End q,
     sq_interv = interval, sq_open = Open q, sq_close = Close q, sq_high = High q,
     sq_low = Low q\<rparr>"

text \<open>
  The store phase of \<^verbatim>\<open>UpdateSecurityQuotes\<close>: what the function does with the quotes
  of the interval once they are fetched.
\<close>

definition store_quotes ::
  "DB \<Rightarrow> string \<Rightarrow> SecurityQuotes list \<Rightarrow> Time \<Rightarrow> Time \<Rightarrow> QuotesInterval \<Rightarrow> error option \<times> DB" where
  "store_quotes db i qs dateFrom dateTill interval =
     (if length qs = 0 then (None, db)
      else
        let db1 = delete_quotes_range db i dateFrom dateTill interval
        in case insert_quotes db1 (map (quote_row_of i interval) qs) of
             Inl e \<Rightarrow> (Some e, db1)
           | Inr db2 \<Rightarrow> (None, db2))"

definition UpdateSecurityQuotes ::
  "candles_provider \<Rightarrow> candle schedule \<Rightarrow> DB \<Rightarrow> Security \<Rightarrow> Time \<Rightarrow> Time \<Rightarrow> QuotesInterval \<Rightarrow>
   error option \<times> DB \<times> Security" where
  "UpdateSecurityQuotes provider sched db sec dateFrom dateTill interval =
     (case SecurityExists db (secId sec) (sType sec) of
        Inl e \<Rightarrow> (Some e, db, sec)
      | Inr secExists \<Rightarrow>
          if \<not> secExists then (Some (''security '' @ secId sec @ '' does not exist''), db, sec)
          else
            (case GetSecurityQuotes provider sched sec dateFrom dateTill interval of
               (Some e, sec') \<Rightarrow> (Some e, db, sec')
             | (None, sec') \<Rightarrow>
                 (case store_quotes db (secId sec') (QuotesOfInterval sec' interval)
                         dateFrom dateTill interval of
                    (err, db') \<Rightarrow> (err, db', sec'))))"

subsection \<open>GetAllSecuritiesData and UpdateAllSecuritiesLastQuotes\<close>

text \<open>
  The query of \<^verbatim>\<open>GetAllSecuritiesData\<close>: for every security that passes the filters,
  its quotes with the greatest \<^verbatim>\<open>end\<close>, or one row without a quote when it has none.
\<close>

definition last_quote_rows :: "DB \<Rightarrow> security_row \<Rightarrow> (security_row \<times> quote_row option) list" where
  "last_quote_rows db s =
     (let qs = filter (\<lambda>q. sq_security q = s_id s) (security_quotes db)
      in if qs = [] then [(s, None)]
         else map (\<lambda>q. (s, Some q)) (filter (\<lambda>q. \<forall>q'\<in>set qs. sq_end q' \<le> sq_end q) qs))"

definition security_of_row :: "security_row \<times> quote_row option \<Rightarrow> Security" where
  "security_of_row r =
     (let sec = GetSecurity (s_id (fst r)) (s_name (fst r))
                  (GetSecurityTypeFromString (s_type (fst r)))
                  (GetSecurityCurrencyFromString (s_currency (fst r)))
      in case snd r of None \<Rightarrow> sec | Some q \<Rightarrow> SetQuotes sec (quotes_of_row q))"

definition less_Id :: "Security \<Rightarrow> Security \<Rightarrow> bool" where
  "less_Id a b \<longleftrightarrow> secId b > secId a"

definition GetAllSecuritiesData ::
  "(security_row \<times> quote_row option) schedule \<Rightarrow> DB \<Rightarrow> string \<Rightarrow> string \<Rightarrow>
   error + Security list" where
  "GetAllSecuritiesData sched db typeNameFilter currencyNameFilter =
     (if typeNameFilter \<noteq> [] \<and> GetSecurityTypeFromString typeNameFilter = UnknownType
      then Inl (''wrong type name: '' @ typeNameFilter)
      else if currencyNameFilter \<noteq> [] \<and>
              GetSecurityCurrencyFromString currencyNameFilter = UnknownCurrency
      then Inl (''wrong currency name: '' @ currencyNameFilter)
      else
        let found = filter (\<lambda>s. (s_type s = ToLower typeNameFilter \<or> typeNameFilter = []) \<and>
                                (s_currency s = ToUpper currencyNameFilter \<or> currencyNameFilter = []))
                      (securities db);
            rows = concat (map (last_quote_rows db) found)
        in Inr (sort_Slice less_Id (map security_of_row (sched rows))))"

text \<open>
  The store phase of \<^verbatim>\<open>UpdateAllSecuritiesLastQuotes\<close>: the loop that collects the rows
  to insert (\<open>args\<close>), and the single \<^verbatim>\<open>INSERT\<close>.
\<close>

fun last_quotes_loop :: "DB \<Rightarrow> Security list \<Rightarrow> quote_row list \<Rightarrow> quote_row list" where
  "last_quotes_loop db [] args = args"
| "last_quotes_loop db (s # ss) args =
     (let q = LastQuotes s IntervalDay
      in if SecurityQuotesExist db s (Begin q) IntervalDay
         then last_quotes_loop db ss args
         else last_quotes_loop db ss (args @ [quote_row_of (secId s) IntervalDay q]))"

definition store_last_quotes :: "DB \<Rightarrow> Security list \<Rightarrow> error option \<times> DB" where
  "store_last_quotes db secList =
     (let args = last_quotes_loop db secList []
      in if args = [] then (None, db)
         else (case insert_quotes db args of
                 Inl e \<Rightarrow> (Some e, db)
               | Inr db' \<Rightarrow> (None, db')))"

text \<open>The whole function; \<open>now\<close> is \<^verbatim>\<open>time.Now().UTC()\<close>.\<close>

definition UpdateAllSecuritiesLastQuotes ::
  "history_provider \<Rightarrow> (Time \<Rightarrow> SecurityType list \<Rightarrow> SecurityType list) \<Rightarrow>
   (security_row \<times> quote_row option) schedule \<Rightarrow> Time \<Rightarrow> DB \<Rightarrow> string \<Rightarrow> string \<Rightarrow>
   (error option \<times> DB) option" where
  "UpdateAllSecuritiesLastQuotes provider iter sched now db typeNameFilter currencyNameFilter =
     (case GetAllSecuritiesData sched db typeNameFilter currencyNameFilter of
        Inl e \<Rightarrow> Some (Some e, db)
      | Inr secList \<Rightarrow>
          (case GetQuotesForDate provider iter (secList, []) now of
             None \<Rightarrow> None
           | Some (Some e, st) \<Rightarrow> Some (Some e, db)
           | Some (None, st) \<Rightarrow> Some (store_last_quotes db (fst st))))"

section \<open>Package main: the analytics\<close>




text \<open>
  The ranking of \<^verbatim>\<open>securityListHandler\<close> (the specification calls it RankPeriodChange)
  computes the change of a security in \<^verbatim>\<open>float64\<close> arithmetic, and the rounding of each
  operation shows in the result, so the arithmetic is modelled as the machine does it.

  A price is a finite \<^verbatim>\<open>float64\<close> number (it is decoded from a JSON number or read
  from a \<^verbatim>\<open>DECIMAL\<close> column), kept as the real number that it is. An operation on
  finite numbers rounds its exact result to the nearest \<^verbatim>\<open>float64\<close> number, to the one
  with the even significand when two are equally near, and to an infinity when the
  rounded result is beyond the largest \<^verbatim>\<open>float64\<close> number. The change is computed only
  from a \<^verbatim>\<open>priceBegin\<close> greater than 0, and the other operands are the constants 10000
  and 100, so the operations never yield NaN. The two zeros of \<^verbatim>\<open>float64\<close> are equal
  in every comparison and are one value here.
\<close>

datatype float64 = MinusInf | Finite real | PlusInf

text \<open>2 to the power \<open>e\<close>, for an integer \<open>e\<close>.\<close>

definition pow2 :: "int \<Rightarrow> real" where
  "pow2 e = (if 0 \<le> e then 2 ^ nat e else 1 / 2 ^ nat (- e))"

text \<open>
  The binary exponent of a number \<open>x\<close> other than 0: the \<open>e\<close> with
  \<open>pow2 e \<le> \<bar>x\<bar> < pow2 (e + 1)\<close>, from the number of bits of the integer part of \<open>\<bar>x\<bar>\<close>
  or of \<open>1 / \<bar>x\<bar>\<close>.
\<close>

definition exponent64 :: "real \<Rightarrow> int" where
  "exponent64 x =
     (if 1 \<le> \<bar>x\<bar> then bitlen \<lfloor>\<bar>x\<bar>\<rfloor> - 1 else - bitlen (\<lceil>1 / \<bar>x\<bar>\<rceil> - 1))"

text \<open>
  The distance between the \<^verbatim>\<open>float64\<close> numbers around \<open>x\<close>: the significand has 52 bits
  after the leading one, and the exponent is -1022 at least (below it the numbers
  are subnormal).
\<close>

definition ulp64 :: "real \<Rightarrow> real" where
  "ulp64 x = pow2 (max (exponent64 x) (- 1022) - 52)"

text \<open>The nearest integer, the even one of two that are equally near.\<close>

definition round_even :: "real \<Rightarrow> int" where
  "round_even r =
     (if r - of_int \<lfloor>r\<rfloor> < 1 / 2 then \<lfloor>r\<rfloor>
      else if 1 / 2 < r - of_int \<lfloor>r\<rfloor> then \<lfloor>r\<rfloor> + 1
      else if even \<lfloor>r\<rfloor> then \<lfloor>r\<rfloor> else \<lfloor>r\<rfloor> + 1)"

text \<open>The \<^verbatim>\<open>float64\<close> value of an exact result \<open>x\<close>.\<close>

definition round64 :: "real \<Rightarrow> float64" where
  "round64 x =
     (if x = 0 then Finite 0
      else if 2 ^ 1024 \<le> \<bar>of_int (round_even (x / ulp64 x)) * ulp64 x\<bar>
      then (if x < 0 then MinusInf else PlusInf)
      else Finite (of_int (round_even (x / ulp64 x)) * ulp64 x))"

text \<open>
  The operations of the ranking: the difference of two prices, the quotient and the
  product of a value and a finite number greater than 0, \<^verbatim>\<open>math.Round\<close> (to the nearest
  integer, halves away from zero, an infinity to itself), and \<^verbatim>\<open><\<close>.
\<close>

definition sub64 :: "real \<Rightarrow> real \<Rightarrow> float64" where
  "sub64 a b = round64 (a - b)"

fun div64 :: "float64 \<Rightarrow> real \<Rightarrow> float64" where
  "div64 (Finite a) b = round64 (a / b)"
| "div64 MinusInf b = MinusInf"
| "div64 PlusInf b = PlusInf"

fun mul64 :: "float64 \<Rightarrow> real \<Rightarrow> float64" where
  "mul64 (Finite a) b = round64 (a * b)"
| "mul64 MinusInf b = MinusInf"
| "mul64 PlusInf b = PlusInf"

fun Round :: "float64 \<Rightarrow> float64" where
  "Round (Finite x) =
     Finite (if x < 0 then - of_int \<lfloor>- x + 1 / 2\<rfloor> else of_int \<lfloor>x + 1 / 2\<rfloor>)"
| "Round MinusInf = MinusInf"
| "Round PlusInf = PlusInf"

fun lt64 :: "float64 \<Rightarrow> float64 \<Rightarrow> bool" where
  "lt64 (Finite a) (Finite b) = (a < b)"
| "lt64 (Finite a) PlusInf = True"
| "lt64 (Finite a) MinusInf = False"
| "lt64 MinusInf b = (b \<noteq> MinusInf)"
| "lt64 PlusInf b = False"

record secPrices =
  sp_id :: string
  priceBegin :: real
  priceEnd :: real
  change :: float64

text \<open>The task of one security whose quotes were updated.\<close>

definition secPrices_of :: "Security \<Rightarrow> Time \<Rightarrow> Time \<Rightarrow> secPrices" where
  "secPrices_of sec dateFrom dateTill =
     (let pb = Open (QuotesForDate sec IntervalDay (AddDate_days (Truncate_day dateFrom) 1));
          pe = Close (QuotesForDate sec IntervalDay (AddDate_days (Truncate_day dateTill) 1))
      in \<lparr>sp_id = secId sec, priceBegin = pb, priceEnd = pe,
          change = (if pb > 0
                    then div64 (Round (mul64 (div64 (sub64 pe pb) pb) 10000)) 100
                    else Finite 0)\<rparr>)"

definition less_secPrices :: "secPrices \<Rightarrow> secPrices \<Rightarrow> bool" where
  "less_secPrices a b \<longleftrightarrow>
     lt64 (change a) (change b) \<or> (change a = change b \<and> sp_id a < sp_id b)"

text \<open>
  \<open>sec\<close>: the securities whose update succeeded, in the order in which their tasks
  appended to \<^verbatim>\<open>secQuotes\<close>.
\<close>

definition RankPeriodChange :: "Security list \<Rightarrow> Time \<Rightarrow> Time \<Rightarrow> secPrices list" where
  "RankPeriodChange sec dateFrom dateTill =
     sort_Slice less_secPrices (map (\<lambda>s. secPrices_of s dateFrom dateTill) sec)"

section \<open>Notions of the statements\<close>

text \<open>
  A quote qualifies for \<open>(interval, date)\<close> when it has that interval and its end is
  not after the date. The loop keeps a qualifying quote only if the quote kept so far (at
  first the zero value, which ends at the zero time) does not end after it.
\<close>

definition qualifies :: "QuotesInterval \<Rightarrow> Time \<Rightarrow> SecurityQuotes \<Rightarrow> bool" where
  "qualifies interval date q \<longleftrightarrow> Interval q = interval \<and> \<not> After (End q) date"






text \<open>
  What the provider answers to the request that \<^verbatim>\<open>GetSecurityQuotes\<close> sends for a
  security, a range and an interval: the fetched series, or the error.
\<close>

definition fetched_candles ::
  "candles_provider \<Rightarrow> Security \<Rightarrow> Time \<Rightarrow> Time \<Rightarrow> QuotesInterval \<Rightarrow> error + candle list" where
  "fetched_candles provider sec dateFrom dateTill interval =
     (case getEngineAndMarket (sType sec) of
        Inl e \<Rightarrow> Inl e
      | Inr (engine, market, board) \<Rightarrow>
          provider \<lparr>cr_engine = engine, cr_market = market, cr_boardStr = boardStr board,
            cr_security = secId sec, cr_from = Format_day dateFrom,
            cr_till = Format_day dateTill, cr_interval = interval\<rparr>)"

text \<open>Messages joined line by line.\<close>

fun join_lines :: "string list \<Rightarrow> string" where
  "join_lines [] = []"
| "join_lines [e] = e"
| "join_lines (e # es) = e @ newline @ join_lines es"

text \<open>
  The rows that the store phase of \<^verbatim>\<open>UpdateAllSecuritiesLastQuotes\<close> passes to its
  \<^verbatim>\<open>INSERT\<close>: for every security whose last day quote has no row with its key, the row
  of that quote.
\<close>

definition new_last_quotes :: "DB \<Rightarrow> Security list \<Rightarrow> quote_row list" where
  "new_last_quotes db secList =
     map (\<lambda>s. quote_row_of (secId s) IntervalDay (LastQuotes s IntervalDay))
       (filter (\<lambda>s. \<not> SecurityQuotesExist db s (Begin (LastQuotes s IntervalDay)) IntervalDay)
          secList)"

text \<open>
  For the paging of \<^verbatim>\<open>GetQuotesForDate\<close>: a page is non-empty when the request
  succeeded with at least one row; the pages of a class are requested one after the
  other as long as the page before was non-empty, ten at most; the first page of a
  type is empty when the type has a class and the request at 0 succeeded with no row.
\<close>

definition nonempty_page :: "error + history_row list \<Rightarrow> bool" where
  "nonempty_page p = (case p of Inl e \<Rightarrow> False | Inr rows \<Rightarrow> rows \<noteq> [])"

definition pages_requested ::
  "history_provider \<Rightarrow> string \<times> string \<times> string \<Rightarrow> Time \<Rightarrow> nat" where
  "pages_requested provider emb date =
     min 10 (Suc (length (takeWhile
       (\<lambda>i. nonempty_page (provider (history_request_of emb date (100 * i)))) [0..<10])))"

definition first_page_empty :: "history_provider \<Rightarrow> Time \<Rightarrow> SecurityType \<Rightarrow> bool" where
  "first_page_empty provider date t =
     (case getEngineAndMarket t of
        Inl e \<Rightarrow> False
      | Inr emb \<Rightarrow> provider (history_request_of emb date 0) = Inr [])"

text \<open>
  The paging of \<^verbatim>\<open>GetQuotesForDate\<close> in terms of the provider alone. The requests of
  a class on a day, in the order of sending, and what the class does to the call:
  the last page requested failed, or it is the page at 0 and is empty (go to the
  previous day), or the paging of the class is over and the next class follows. The
  same for the classes of a day, taken in their order.
\<close>

definition class_requests ::
  "history_provider \<Rightarrow> string \<times> string \<times> string \<Rightarrow> Time \<Rightarrow> history_request list" where
  "class_requests provider emb date =
     map (\<lambda>i. history_request_of emb date (100 * i)) [0..<pages_requested provider emb date]"

definition class_outcome ::
  "history_provider \<Rightarrow> string \<times> string \<times> string \<Rightarrow> Time \<Rightarrow> step" where
  "class_outcome provider emb date =
     (case provider (history_request_of emb date
              (100 * (pages_requested provider emb date - 1))) of
        Inl e \<Rightarrow> Failed e
      | Inr rows \<Rightarrow>
          if rows = [] \<and> pages_requested provider emb date = 1 then PreviousDay else Proceed)"

fun day_requests :: "history_provider \<Rightarrow> Time \<Rightarrow> SecurityType list \<Rightarrow> history_request list" where
  "day_requests provider date [] = []"
| "day_requests provider date (t # ts) =
     (case getEngineAndMarket t of
        Inl e \<Rightarrow> []
      | Inr emb \<Rightarrow>
          class_requests provider emb date @
          (if class_outcome provider emb date = Proceed then day_requests provider date ts
           else []))"

fun day_outcome :: "history_provider \<Rightarrow> Time \<Rightarrow> SecurityType list \<Rightarrow> step" where
  "day_outcome provider date [] = Proceed"
| "day_outcome provider date (t # ts) =
     (case getEngineAndMarket t of
        Inl e \<Rightarrow> Failed e
      | Inr emb \<Rightarrow>
          if class_outcome provider emb date = Proceed then day_outcome provider date ts
          else class_outcome provider emb date)"

text \<open>
  The days that a call on \<open>date\<close> for securities of the types \<open>ts\<close> visits when it goes
  back \<open>k\<close> times: the classes of day \<open>j\<close> back in the order \<open>iter\<close> of that day, and the
  requests of the days 0 to \<open>k\<close> back, in the order of sending.
\<close>

definition classes_of_day ::
  "(Time \<Rightarrow> SecurityType list \<Rightarrow> SecurityType list) \<Rightarrow> SecurityType list \<Rightarrow> Time \<Rightarrow> nat \<Rightarrow>
   SecurityType list" where
  "classes_of_day iter ts date j = iter (AddDate_days date (- int j)) ts"

definition outcome_of_day ::
  "history_provider \<Rightarrow> (Time \<Rightarrow> SecurityType list \<Rightarrow> SecurityType list) \<Rightarrow> SecurityType list \<Rightarrow>
   Time \<Rightarrow> nat \<Rightarrow> step" where
  "outcome_of_day provider iter ts date j =
     day_outcome provider (AddDate_days date (- int j)) (classes_of_day iter ts date j)"

definition requests_of_days ::
  "history_provider \<Rightarrow> (Time \<Rightarrow> SecurityType list \<Rightarrow> SecurityType list) \<Rightarrow> SecurityType list \<Rightarrow>
   Time \<Rightarrow> nat \<Rightarrow> history_request list" where
  "requests_of_days provider iter ts date k =
     concat (map (\<lambda>j. day_requests provider (AddDate_days date (- int j))
                         (classes_of_day iter ts date j)) [0..<Suc k])"

section \<open>Example data\<close>

text \<open>Concrete securities, quotes and stores, on which the theorems below are evaluated.\<close>

definition day_quote :: "int \<Rightarrow> real \<Rightarrow> SecurityQuotes" where
  "day_quote d c = \<lparr>Interval = 24, Begin = d * 86400, End = d * 86400 + 86399,
     Open = c, Close = c, High = c, Low = c\<rparr>"

definition gazp :: "SecurityQuotes list \<Rightarrow> Security" where
  "gazp qs = \<lparr>secId = ''GAZP'', name = ''Gazprom shares'', sType = ''share'',
     currency = ''RUB'', quotes = qs\<rparr>"

text \<open>A day quote that ends one day before the zero time.\<close>

definition quote_before_zero :: SecurityQuotes where
  "quote_before_zero = \<lparr>Interval = 24, Begin = - 172800, End = - 86400,
     Open = 5, Close = 6, High = 7, Low = 4\<rparr>"

text \<open>A store with three securities and the day quotes of GAZP for the days 10 and 11.\<close>

definition row_of :: "string \<Rightarrow> SecurityQuotes \<Rightarrow> quote_row" where
  "row_of i q = quote_row_of i (Interval q) q"

definition store0 :: DB where
  "store0 = \<lparr>securities =
       [\<lparr>s_id = ''GAZP'', s_name = ''Gazprom shares'', s_type = ''share'', s_currency = ''RUB''\<rparr>,
        \<lparr>s_id = ''LKOH'', s_name = ''Lukoil shares'', s_type = ''share'', s_currency = ''RUB''\<rparr>,
        \<lparr>s_id = ''AKGD'', s_name = ''Alfa Gold ETF'', s_type = ''etf'', s_currency = ''RUB''\<rparr>],
     security_quotes =
       [row_of ''GAZP'' (day_quote 11 170), row_of ''GAZP'' (day_quote 10 168)]\<rparr>"

definition day_candle :: "int \<Rightarrow> real \<Rightarrow> real \<Rightarrow> SecurityQuotes" where
  "day_candle d opening closing = \<lparr>Interval = 24, Begin = d * 86400, End = d * 86400 + 86399,
     Open = opening, Close = closing, High = max opening closing, Low = min opening closing\<rparr>"

definition share :: "string \<Rightarrow> SecurityQuotes list \<Rightarrow> Security" where
  "share i qs = \<lparr>secId = i, name = [], sType = ''share'', currency = ''unknown'', quotes = qs\<rparr>"

definition day_candle_row :: "int \<Rightarrow> real \<Rightarrow> candle" where
  "day_candle_row d c = \<lparr>c_open = c, c_close = c, c_high = c, c_low = c,
     c_begin = d * 86400, c_end = d * 86400 + 86399\<rparr>"

text \<open>
  A day quote of day 11 taken from a candle during the day (it ends at 15:30), the
  quote of day 10 as \<^verbatim>\<open>GetQuotesForDate\<close> builds it (it ends at the next midnight), a
  store that holds the first of them, and a provider of history pages that has one
  row for GAZP on day 10 and nothing else.
\<close>

definition provisional_quote :: SecurityQuotes where
  "provisional_quote = \<lparr>Interval = 24, Begin = 11 * 86400, End = 11 * 86400 + 55800,
     Open = 169, Close = 170, High = 171, Low = 168\<rparr>"

definition snapshot_quote :: SecurityQuotes where
  "snapshot_quote = \<lparr>Interval = 24, Begin = 10 * 86400, End = 11 * 86400,
     Open = 165, Close = 168, High = 169, Low = 164\<rparr>"

definition store1 :: DB where
  "store1 = \<lparr>securities =
       [\<lparr>s_id = ''GAZP'', s_name = ''Gazprom shares'', s_type = ''share'', s_currency = ''RUB''\<rparr>],
     security_quotes = [row_of ''GAZP'' provisional_quote]\<rparr>"

definition history_day10 :: history_provider where
  "history_day10 req =
     (if hr_date req = 10 \<and> hr_start req = 0
      then Inr [\<lparr>h_board = ''TQBR'', h_secid = Some ''GAZP'', h_open = 165, h_low = 164,
                 h_high = 169, h_close = Some 168\<rparr>]
      else Inr [])"

definition day_snapshot :: "int \<Rightarrow> real \<Rightarrow> SecurityQuotes" where
  "day_snapshot d c = \<lparr>Interval = 24, Begin = d * 86400, End = (d + 1) * 86400,
     Open = c, Close = c, High = c, Low = c\<rparr>"

text \<open>
  A federal bond, and a provider of history pages that has one row for GAZP on the
  first page of the shares of every day and no row for any other class.
\<close>

definition ofz :: "SecurityQuotes list \<Rightarrow> Security" where
  "ofz qs = \<lparr>secId = ''SU26238RMFS4'', name = ''OFZ 26238'', sType = ''bond'',
     currency = ''RUB'', quotes = qs\<rparr>"

definition history_shares_only :: history_provider where
  "history_shares_only req =
     (if hr_market req = ''shares'' \<and> hr_start req = 0
      then Inr [\<lparr>h_board = ''TQBR'', h_secid = Some ''GAZP'', h_open = 165, h_low = 164,
                 h_high = 169, h_close = Some 168\<rparr>]
      else Inr [])"

text \<open>
  Two types that hold a double quote, \<^verbatim>\<open>etf" OR "1"="1\<close> and \<^verbatim>\<open>a"b\<close>, a type that ends
  with a backslash, and a collation that ignores the case of the letters.
\<close>

definition injected_type :: SecurityType where
  "injected_type = ''etf'' @ [dquote] @ '' OR '' @ [dquote] @ ''1'' @ [dquote] @ ''='' @ [dquote] @ ''1''"

definition broken_type :: SecurityType where
  "broken_type = ''a'' @ [dquote] @ ''b''"

definition escaping_type :: SecurityType where
  "escaping_type = ''a'' @ [backslash]"

definition ignoring_case :: collation where
  "ignoring_case a b \<longleftrightarrow> ToLower a = ToLower b"

section \<open>Sorting\<close>

lemma mset_insert_Slice: "mset (insert_Slice lt x ys) = add_mset x (mset ys)"
  by (induction ys) simp_all

lemma mset_sort_Slice: "mset (sort_Slice lt xs) = mset xs"
  by (induction xs) (simp_all add: mset_insert_Slice)

lemma set_insert_Slice: "set (insert_Slice lt x ys) = insert x (set ys)"
  using mset_insert_Slice [of lt x ys, THEN arg_cong, of set_mset] by simp

lemma set_sort_Slice: "set (sort_Slice lt xs) = set xs"
  using mset_sort_Slice [of lt xs, THEN arg_cong, of set_mset] by simp

lemma length_sort_Slice: "length (sort_Slice lt xs) = length xs"
  using mset_sort_Slice [of lt xs, THEN arg_cong, of size] by simp

text \<open>
  The result is ordered when \<open>lt\<close> is asymmetric and its complement is transitive,
  as for every \<open>less\<close> function of the program.
\<close>

lemma sorted_insert_Slice:
  assumes asym: "\<And>a b. lt a b \<Longrightarrow> \<not> lt b a"
    and ntrans: "\<And>a b c. \<not> lt b a \<Longrightarrow> \<not> lt c b \<Longrightarrow> \<not> lt c a"
    and sorted: "sorted_wrt (\<lambda>a b. \<not> lt b a) ys"
  shows "sorted_wrt (\<lambda>a b. \<not> lt b a) (insert_Slice lt x ys)"
  using sorted
proof (induction ys)
  case Nil
  show ?case by simp
next
  case (Cons y ys)
  show ?case
  proof (cases "lt y x")
    case True
    then have "\<not> lt x y" by (rule asym)
    with True Cons show ?thesis by (auto simp: set_insert_Slice)
  next
    case False
    have "\<not> lt z x" if "z \<in> set ys" for z
    proof -
      from Cons.prems that have "\<not> lt z y" by simp
      with False show ?thesis by (rule ntrans)
    qed
    with False Cons.prems show ?thesis by simp
  qed
qed

lemma sorted_sort_Slice:
  assumes "\<And>a b. lt a b \<Longrightarrow> \<not> lt b a"
    and "\<And>a b c. \<not> lt b a \<Longrightarrow> \<not> lt c b \<Longrightarrow> \<not> lt c a"
  shows "sorted_wrt (\<lambda>a b. \<not> lt b a) (sort_Slice lt xs)"
  by (induction xs) (simp_all add: sorted_insert_Slice [OF assms])

lemma sorted_sort_Slice_less_Begin:
  "sorted_wrt (\<lambda>a b. Begin a \<le> Begin b) (sort_Slice less_Begin qs)"
proof -
  have "sorted_wrt (\<lambda>a b. \<not> less_Begin b a) (sort_Slice less_Begin qs)"
    by (rule sorted_sort_Slice) (auto simp: less_Begin_def After_def)
  then show ?thesis
    by (simp add: less_Begin_def After_def not_less)
qed

section \<open>QuotesForDate and LastQuotes\<close>

lemma QuotesForDate_loop_cases:
  "QuotesForDate_loop interval date res qs = res \<or>
   (QuotesForDate_loop interval date res qs \<in> set qs \<and>
    qualifies interval date (QuotesForDate_loop interval date res qs))"
proof (induction qs arbitrary: res)
  case Nil
  show ?case by simp
next
  case (Cons q qs)
  show ?case
  proof (cases "Interval q \<noteq> interval \<or> After (End q) date \<or> After (End res) (End q)")
    case True
    with Cons.IH [of res] show ?thesis by auto
  next
    case False
    with Cons.IH [of q] show ?thesis by (auto simp: qualifies_def)
  qed
qed

lemma QuotesForDate_loop_mono:
  "End res \<le> End (QuotesForDate_loop interval date res qs)"
proof (induction qs arbitrary: res)
  case Nil
  show ?case by simp
next
  case (Cons q qs)
  show ?case
  proof (cases "Interval q \<noteq> interval \<or> After (End q) date \<or> After (End res) (End q)")
    case True
    with Cons.IH [of res] show ?thesis by simp
  next
    case False
    then have "End res \<le> End q" by (simp add: After_def)
    also have "End q \<le> End (QuotesForDate_loop interval date q qs)" by (rule Cons.IH)
    finally show ?thesis using False by simp
  qed
qed

lemma QuotesForDate_loop_max:
  "q \<in> set qs \<Longrightarrow> qualifies interval date q \<Longrightarrow>
   End q \<le> End (QuotesForDate_loop interval date res qs)"
proof (induction qs arbitrary: res)
  case Nil
  then show ?case by simp
next
  case (Cons x xs)
  show ?case
  proof (cases "q = x")
    case True
    show ?thesis
    proof (cases "After (End res) (End x)")
      case True
      then have "End x \<le> End res" by (simp add: After_def)
      also have "End res \<le> End (QuotesForDate_loop interval date res xs)"
        by (rule QuotesForDate_loop_mono)
      finally show ?thesis using True \<open>q = x\<close> by simp
    next
      case False
      with Cons.prems \<open>q = x\<close> show ?thesis
        using QuotesForDate_loop_mono [of x interval date xs] by (simp add: qualifies_def)
    qed
  next
    case False
    with Cons.prems have "q \<in> set xs" by simp
    with Cons.IH Cons.prems(2) show ?thesis by simp
  qed
qed

lemma QuotesForDate_loop_zero:
  "\<forall>q\<in>set qs. \<not> (qualifies interval date q \<and> End res \<le> End q) \<Longrightarrow>
   QuotesForDate_loop interval date res qs = res"
  by (induction qs) (auto simp: qualifies_def After_def)

lemma QuotesForDate_loop_found:
  "\<exists>q\<in>set qs. qualifies interval date q \<and> End res \<le> End q \<Longrightarrow>
   QuotesForDate_loop interval date res qs \<in> set qs \<and>
   qualifies interval date (QuotesForDate_loop interval date res qs)"
proof (induction qs arbitrary: res)
  case Nil
  then show ?case by simp
next
  case (Cons x xs)
  show ?case
  proof (cases "Interval x \<noteq> interval \<or> After (End x) date \<or> After (End res) (End x)")
    case True
    with Cons.prems have "\<exists>q\<in>set xs. qualifies interval date q \<and> End res \<le> End q"
      by (auto simp: qualifies_def After_def)
    from Cons.IH [OF this] True show ?thesis by simp
  next
    case False
    then have x: "qualifies interval date x" by (simp add: qualifies_def)
    from QuotesForDate_loop_cases [of interval date x xs] x False show ?thesis by auto
  qed
qed

text \<open>
  Claim C10, as the code has it. \<open>QuotesForDate\<close> is a total function. If a quote of
  the interval ends not after the date and not before the zero time, the result is a
  quote of the security, of that interval, ending not after the date, and no quote of
  the interval that ends not after the date ends later than it. Otherwise the result is
  the zero value, whose \<open>Close\<close> is 0. \<open>LastQuotes\<close> is \<open>QuotesForDate\<close> at
  3000-01-01.
\<close>

theorem QuotesForDate_spec:
  "(if \<exists>q\<in>set (quotes s). qualifies interval date q \<and> zeroTime \<le> End q
    then QuotesForDate s interval date \<in> set (quotes s) \<and>
         qualifies interval date (QuotesForDate s interval date) \<and>
         (\<forall>q\<in>set (quotes s). qualifies interval date q \<longrightarrow>
            End q \<le> End (QuotesForDate s interval date))
    else QuotesForDate s interval date = zeroQuotes \<and>
         Close (QuotesForDate s interval date) = 0) \<and>
   LastQuotes s interval = QuotesForDate s interval year3000"
proof -
  have zero: "End zeroQuotes = zeroTime" "Close zeroQuotes = 0"
    by (simp_all add: zeroQuotes_def)
  show ?thesis
  proof (cases "\<exists>q\<in>set (quotes s). qualifies interval date q \<and> zeroTime \<le> End q")
    case True
    then have "\<exists>q\<in>set (quotes s). qualifies interval date q \<and> End zeroQuotes \<le> End q"
      by (simp add: zero)
    from QuotesForDate_loop_found [OF this] show ?thesis unfolding if_P [OF True]
      by (simp add: QuotesForDate_def LastQuotes_def QuotesForDate_loop_max)
  next
    case False
    then have "\<forall>q\<in>set (quotes s). \<not> (qualifies interval date q \<and> End zeroQuotes \<le> End q)"
      by (simp add: zero)
    from QuotesForDate_loop_zero [OF this]
    have r: "QuotesForDate s interval date = zeroQuotes" by (simp add: QuotesForDate_def)
    show ?thesis unfolding if_not_P [OF False] by (simp add: r zero LastQuotes_def)
  qed
qed

theorem QuotesForDate_spec_witness:
  "QuotesForDate (gazp [day_quote 1 100, day_quote 2 110, day_quote 3 99]) IntervalDay
      (3 * 86400) = day_quote 2 110 \<and>
   QuotesForDate (gazp [day_quote 1 100, day_quote 2 110, day_quote 3 99]) IntervalDay
      86400 = zeroQuotes"
  using QuotesForDate_spec [of "gazp [day_quote 1 100, day_quote 2 110, day_quote 3 99]"
      IntervalDay "3 * 86400"]
    QuotesForDate_spec [of "gazp [day_quote 1 100, day_quote 2 110, day_quote 3 99]"
      IntervalDay "86400"]
  by (simp add: QuotesForDate_def day_quote_def gazp_def IntervalDay_def After_def
      zeroQuotes_def zeroTime_def)

text \<open>
  The claim as it was stated fails for a quote that ends before the zero time: the
  quote has the interval and ends not after the date, and the result is the zero
  value, which is no quote of the security.
\<close>

theorem QuotesForDate_before_zero_time:
  "quote_before_zero \<in> set (quotes (gazp [quote_before_zero])) \<and>
   Interval quote_before_zero = IntervalDay \<and>
   \<not> After (End quote_before_zero) zeroTime \<and>
   QuotesForDate (gazp [quote_before_zero]) IntervalDay zeroTime = zeroQuotes \<and>
   QuotesForDate (gazp [quote_before_zero]) IntervalDay zeroTime
     \<notin> set (quotes (gazp [quote_before_zero]))"
  by (simp add: quote_before_zero_def gazp_def QuotesForDate_def
      IntervalDay_def After_def zeroTime_def zeroQuotes_def)

section \<open>SecurityExists: the earlier and the later implementation\<close>

lemma scan_ids_set: "scan_ids rs i \<longleftrightarrow> i \<in> set rs"
  by (induction rs) auto

lemma filter_nonempty_iff: "filter P xs \<noteq> [] \<longleftrightarrow> (\<exists>x\<in>set xs. P x)"
  by (simp add: filter_empty_conv)

text \<open>A type free of double quotes and backslashes is read back as it was written.\<close>

lemma lex_sql_literal:
  "dquote \<notin> set t \<Longrightarrow> backslash \<notin> set t \<Longrightarrow>
   lex_sql (InLit l) (t @ [dquote]) = Some [Lit (rev l @ t)]"
  by (induction t arbitrary: l) auto

lemma lex_sql_type_condition:
  assumes "dquote \<notin> set t" "backslash \<notin> set t"
  shows "lex_sql Idle (''type = '' @ [dquote] @ t @ [dquote]) = Some [Word ''type'', Equals, Lit t]"
  using lex_sql_literal [OF assms, of "[]"]
  by (simp add: is_word_char_def dquote_def backslash_def)

lemma parse_type_condition:
  "parse_condition [Word ''type'', Equals, Lit t] = Some [[(Column ''type'', Literal t)]]"
  by (simp add: parse_condition_def is_keyword_def parse_operand_def ToLower_def toLower_char_def)

lemma select_ids_of_type:
  assumes "dquote \<notin> set t" "backslash \<notin> set t"
  shows "select_ids_where coll db (''type = '' @ [dquote] @ t @ [dquote]) =
           Inr (map s_id (filter (\<lambda>r. coll (s_type r) t) (securities db)))"
proof -
  have "holds coll [[(Column ''type'', Literal t)]] = (\<lambda>r. coll (s_type r) t)"
    by (simp add: holds_def operand_value_def fun_eq_iff)
  then show ?thesis
    unfolding select_ids_where_def lex_sql_type_condition [OF assms]
    by (simp add: parse_type_condition)
qed

text \<open>
  Claim C9, as the code has it. For a type that holds no double quote and no
  backslash (as the types of the package), and when the store's comparison of the
  id with the ids of the securities of the type agrees with the equality of the
  program, the earlier and the later \<open>SecurityExists\<close> return the same result. Both
  then fail exactly when the id is empty or the type is empty or unknown, and the
  result of a failure does not depend on the store. The later implementation over the
  exact comparison is \<open>SecurityExists\<close>.
\<close>

theorem SecurityExists_earlier_later:
  assumes "dquote \<notin> set t" and "backslash \<notin> set t"
    and "\<forall>r\<in>set (securities db). coll (s_type r) t \<longrightarrow> (coll (s_id r) i \<longleftrightarrow> s_id r = i)"
  shows "SecurityExists_earlier coll db i t = SecurityExists_later coll db i t \<and>
   (isl (SecurityExists_later coll db i t) \<longleftrightarrow> i = [] \<or> t = [] \<or> t = UnknownType) \<and>
   (isl (SecurityExists_earlier coll db i t) \<longleftrightarrow> i = [] \<or> t = [] \<or> t = UnknownType) \<and>
   (isl (SecurityExists_later coll db i t) \<longrightarrow>
      SecurityExists_later coll db' i t = SecurityExists_later coll db i t \<and>
      SecurityExists_earlier coll db' i t = SecurityExists_earlier coll db i t) \<and>
   SecurityExists_later (=) db i t = SecurityExists db i t"
proof -
  note sel = select_ids_of_type [OF assms(1,2)]
  have "scan_ids (map s_id (filter (\<lambda>r. coll (s_type r) t) (securities db))) i \<longleftrightarrow>
        filter (\<lambda>r. coll (s_id r) i \<and> coll (s_type r) t) (securities db) \<noteq> []"
    using assms(3) by (auto simp: scan_ids_set filter_nonempty_iff)
  then have 1: "SecurityExists_earlier coll db i t = SecurityExists_later coll db i t"
    unfolding SecurityExists_earlier_def sel by (simp add: SecurityExists_later_def)
  have 2: "isl (SecurityExists_later coll db i t) \<longleftrightarrow> i = [] \<or> t = [] \<or> t = UnknownType"
    by (simp add: SecurityExists_later_def)
  have 3: "isl (SecurityExists_earlier coll db i t) \<longleftrightarrow> i = [] \<or> t = [] \<or> t = UnknownType"
    unfolding SecurityExists_earlier_def sel by simp
  have 4: "SecurityExists_later coll db' i t = SecurityExists_later coll db i t \<and>
      SecurityExists_earlier coll db' i t = SecurityExists_earlier coll db i t"
    if "isl (SecurityExists_later coll db i t)"
    using that unfolding SecurityExists_earlier_def SecurityExists_later_def
    by (auto split: if_splits)
  have 5: "SecurityExists_later (=) db i t = SecurityExists db i t"
    by (simp add: SecurityExists_later_def SecurityExists_def)
  from 1 2 3 4 5 show ?thesis by blast
qed

theorem SecurityExists_earlier_later_witness:
  "SecurityExists_earlier (=) store0 ''GAZP'' Share = Inr True \<and>
   SecurityExists_later (=) store0 ''GAZP'' Share = Inr True \<and>
   SecurityExists store0 ''GAZP'' Share = Inr True \<and>
   SecurityExists_earlier (=) store0 ''AAAA'' Share = Inr False \<and>
   SecurityExists_later (=) store0 ''AAAA'' Share = Inr False \<and>
   SecurityExists_earlier ignoring_case store0 ''GAZP'' ''SHARE'' = Inr True \<and>
   SecurityExists_later ignoring_case store0 ''GAZP'' ''SHARE'' = Inr True \<and>
   isl (SecurityExists_earlier (=) store0 [] Share) \<and>
   SecurityExists_earlier (=) \<lparr>securities = [], security_quotes = []\<rparr> [] Share
     = SecurityExists_earlier (=) store0 [] Share"
proof -
  have q: "dquote \<notin> set Share" "backslash \<notin> set Share"
    "dquote \<notin> set ''SHARE''" "backslash \<notin> set ''SHARE''"
    by (simp_all add: Share_def dquote_def backslash_def)
  have exact: "\<forall>r\<in>set (securities store0). s_type r = Share \<longrightarrow> (s_id r = i \<longleftrightarrow> s_id r = i)" for i
    by simp
  have ci: "\<forall>r\<in>set (securities store0). ignoring_case (s_type r) ''SHARE'' \<longrightarrow>
      (ignoring_case (s_id r) ''GAZP'' \<longleftrightarrow> s_id r = ''GAZP'')"
    by (simp add: store0_def ignoring_case_def ToLower_def toLower_char_def char_of_def bit_Suc_0_iff)
  note a = SecurityExists_earlier_later [OF q(1,2) exact [of "''GAZP''"]]
  note b = SecurityExists_earlier_later [OF q(1,2) exact [of "''AAAA''"]]
  note c = SecurityExists_earlier_later [OF q(3,4) ci]
  note d = SecurityExists_earlier_later [OF q(1,2) exact [of "[]"],
      of "\<lparr>securities = [], security_quotes = []\<rparr>"]
  have later: "SecurityExists_later (=) store0 ''GAZP'' Share = Inr True"
    "SecurityExists_later (=) store0 ''AAAA'' Share = Inr False"
    "SecurityExists_later ignoring_case store0 ''GAZP'' ''SHARE'' = Inr True"
    by (simp_all add: SecurityExists_later_def store0_def Share_def UnknownType_def
        ignoring_case_def ToLower_def toLower_char_def char_of_def bit_Suc_0_iff)
  from a later(1) have w1: "SecurityExists_earlier (=) store0 ''GAZP'' Share = Inr True"
    "SecurityExists store0 ''GAZP'' Share = Inr True"
    by metis+
  from b later(2) have w2: "SecurityExists_earlier (=) store0 ''AAAA'' Share = Inr False"
    by metis
  from c later(3) have w3: "SecurityExists_earlier ignoring_case store0 ''GAZP'' ''SHARE'' = Inr True"
    by metis
  from d have w4: "isl (SecurityExists_earlier (=) store0 [] Share)"
    "SecurityExists_earlier (=) \<lparr>securities = [], security_quotes = []\<rparr> [] Share
       = SecurityExists_earlier (=) store0 [] Share"
    by blast+
  from w1 w2 w3 w4 later show ?thesis by (intro conjI)
qed

text \<open>
  The claim as stated fails for a type that holds a double quote. With the type
  \<^verbatim>\<open>etf" OR "1"="1\<close> the condition of the earlier query is
  \<^verbatim>\<open>type = "etf" OR "1"="1"\<close>, which every row satisfies: the earlier implementation
  finds GAZP, a share, and the later one finds no security of that type. With the
  type \<^verbatim>\<open>a"b\<close>, or with a type that ends with a backslash (which takes the closing
  quote into the literal), the earlier query is refused by the store, and the later
  one is answered. And where the store ignores the case of the letters, the later
  implementation finds the id \<^verbatim>\<open>gazp\<close>, which the comparison of the earlier one in the
  program does not.
\<close>

theorem SecurityExists_earlier_quoted_type:
  "SecurityExists_earlier (=) store0 ''GAZP'' injected_type = Inr True \<and>
   SecurityExists_later (=) store0 ''GAZP'' injected_type = Inr False \<and>
   SecurityExists store0 ''GAZP'' injected_type = Inr False \<and>
   SecurityExists_earlier (=) store0 ''GAZP'' broken_type
     = Inl ''Error 1064: You have an error in your SQL syntax'' \<and>
   SecurityExists_later (=) store0 ''GAZP'' broken_type = Inr False \<and>
   SecurityExists_earlier (=) store0 ''GAZP'' escaping_type
     = Inl ''Error 1064: You have an error in your SQL syntax'' \<and>
   SecurityExists_later (=) store0 ''GAZP'' escaping_type = Inr False \<and>
   SecurityExists_earlier ignoring_case store0 ''gazp'' Share = Inr False \<and>
   SecurityExists_later ignoring_case store0 ''gazp'' Share = Inr True"
proof -
  have lex1: "lex_sql Idle (''type = '' @ [dquote] @ injected_type @ [dquote]) =
      Some [Word ''type'', Equals, Lit ''etf'', Word ''OR'', Lit ''1'', Equals, Lit ''1'']"
    by (simp add: injected_type_def is_word_char_def dquote_def backslash_def)
  have parse1: "parse_condition
      [Word ''type'', Equals, Lit ''etf'', Word ''OR'', Lit ''1'', Equals, Lit ''1''] =
      Some [[(Column ''type'', Literal ''etf'')], [(Literal ''1'', Literal ''1'')]]"
    by (simp add: parse_condition_def is_keyword_def parse_operand_def ToLower_def
        toLower_char_def char_of_def bit_Suc_0_iff)
  have "select_ids_where (=) store0 (''type = '' @ [dquote] @ injected_type @ [dquote]) =
      Inr [''GAZP'', ''LKOH'', ''AKGD'']"
    unfolding select_ids_where_def lex1
    by (simp add: parse1 holds_def operand_value_def store0_def)
  then have a: "SecurityExists_earlier (=) store0 ''GAZP'' injected_type = Inr True"
    unfolding SecurityExists_earlier_def by (simp add: injected_type_def UnknownType_def)
  have b: "SecurityExists_later (=) store0 ''GAZP'' injected_type = Inr False"
    "SecurityExists store0 ''GAZP'' injected_type = Inr False"
    by (simp_all add: SecurityExists_later_def SecurityExists_def injected_type_def
        UnknownType_def store0_def)
  have "lex_sql Idle (''type = '' @ [dquote] @ broken_type @ [dquote]) = None"
    by (simp add: broken_type_def is_word_char_def dquote_def backslash_def)
  then have c: "SecurityExists_earlier (=) store0 ''GAZP'' broken_type
     = Inl ''Error 1064: You have an error in your SQL syntax''"
    unfolding SecurityExists_earlier_def select_ids_where_def
    by (simp add: broken_type_def UnknownType_def)
  have d: "SecurityExists_later (=) store0 ''GAZP'' broken_type = Inr False"
    by (simp add: SecurityExists_later_def broken_type_def UnknownType_def store0_def)
  have "lex_sql Idle (''type = '' @ [dquote] @ escaping_type @ [dquote]) = None"
    by (simp add: escaping_type_def is_word_char_def dquote_def backslash_def unescape_def)
  then have c': "SecurityExists_earlier (=) store0 ''GAZP'' escaping_type
     = Inl ''Error 1064: You have an error in your SQL syntax''"
    unfolding SecurityExists_earlier_def select_ids_where_def
    by (simp add: escaping_type_def UnknownType_def)
  have d': "SecurityExists_later (=) store0 ''GAZP'' escaping_type = Inr False"
    by (simp add: SecurityExists_later_def escaping_type_def UnknownType_def store0_def
        backslash_def)
  have q: "dquote \<notin> set Share" "backslash \<notin> set Share"
    by (simp_all add: Share_def dquote_def backslash_def)
  have e: "SecurityExists_earlier ignoring_case store0 ''gazp'' Share = Inr False"
    unfolding SecurityExists_earlier_def select_ids_of_type [OF q]
    by (simp add: store0_def Share_def UnknownType_def ignoring_case_def ToLower_def
        toLower_char_def char_of_def bit_Suc_0_iff)
  have f: "SecurityExists_later ignoring_case store0 ''gazp'' Share = Inr True"
    by (simp add: SecurityExists_later_def store0_def Share_def
        UnknownType_def ignoring_case_def ToLower_def toLower_char_def char_of_def bit_Suc_0_iff)
  from a b c d c' d' e f show ?thesis by simp
qed

section \<open>UpdateSecurityQuotes: replacing a range\<close>



lemma insert_quotes_Inr:
  "insert_quotes db rows = Inr db' \<Longrightarrow>
   db' = db\<lparr>security_quotes := security_quotes db @ rows\<rparr>"
  by (auto simp: insert_quotes_def split: if_splits)



section \<open>UpdateSecurityQuotes: an empty fetch\<close>

lemma GetSecurityQuotes_empty_fetch:
  assumes "fetched_candles provider sec dateFrom dateTill interval = Inr []"
  shows "GetSecurityQuotes provider sched sec dateFrom dateTill interval =
           (None, SetQuotesList sec (sort_Slice less_Begin (map (quotes_of_candle interval) (sched []))))"
proof (cases "getEngineAndMarket (sType sec)")
  case (Inl e)
  with assms show ?thesis by (simp add: fetched_candles_def)
next
  case (Inr emb)
  obtain engine market board where emb: "emb = (engine, market, board)"
    by (cases emb) auto
  from assms Inr emb show ?thesis
    by (simp add: fetched_candles_def GetSecurityQuotes_def)
qed

lemma fair_empty: "fair sched \<Longrightarrow> sched [] = []"
  using mset_zero_iff by (fastforce simp: fair_def)

text \<open>
  Claim C2, as the code has it. The function tests the quotes of the interval that
  the security holds after the fetch: the quotes that it held before, followed by the
  fetched ones. For a registered security and a fetch that succeeds with an empty
  series, the call does to the store what its store phase does with the quotes of the
  interval that the security held already; when the security held none, nothing is
  deleted, nothing is inserted, and the call returns no error.
\<close>

theorem UpdateSecurityQuotes_nothing_fetched:
  assumes "SecurityExists db (secId sec) (sType sec) = Inr True"
    and "fetched_candles provider sec dateFrom dateTill interval = Inr []"
    and "fair sched"
  shows "UpdateSecurityQuotes provider sched db sec dateFrom dateTill interval =
           (fst (store_quotes db (secId sec) (QuotesOfInterval sec interval)
                   dateFrom dateTill interval),
            snd (store_quotes db (secId sec) (QuotesOfInterval sec interval)
                   dateFrom dateTill interval),
            sec) \<and>
         (QuotesOfInterval sec interval = [] \<longrightarrow>
            UpdateSecurityQuotes provider sched db sec dateFrom dateTill interval = (None, db, sec))"
proof -
  from assms(2) have "GetSecurityQuotes provider sched sec dateFrom dateTill interval =
      (None, SetQuotesList sec (sort_Slice less_Begin (map (quotes_of_candle interval) (sched []))))"
    by (rule GetSecurityQuotes_empty_fetch)
  with fair_empty [OF assms(3)]
  have fetch: "GetSecurityQuotes provider sched sec dateFrom dateTill interval = (None, sec)"
    by (simp add: SetQuotesList_def)
  with assms(1) have 1: "UpdateSecurityQuotes provider sched db sec dateFrom dateTill interval =
      (fst (store_quotes db (secId sec) (QuotesOfInterval sec interval) dateFrom dateTill interval),
       snd (store_quotes db (secId sec) (QuotesOfInterval sec interval) dateFrom dateTill interval),
       sec)"
    by (simp add: UpdateSecurityQuotes_def split: prod.splits)
  have 2: "UpdateSecurityQuotes provider sched db sec dateFrom dateTill interval = (None, db, sec)"
    if "QuotesOfInterval sec interval = []"
    unfolding 1 using that by (simp add: store_quotes_def)
  from 1 2 show ?thesis by blast
qed

theorem UpdateSecurityQuotes_nothing_fetched_witness:
  "SecurityExists store0 (secId (gazp [])) (sType (gazp [])) = Inr True \<and>
   fetched_candles (\<lambda>r. Inr []) (gazp []) (10 * 86400) (12 * 86400 - 1) IntervalDay = Inr [] \<and>
   QuotesOfInterval (gazp []) IntervalDay = [] \<and>
   UpdateSecurityQuotes (\<lambda>r. Inr []) (\<lambda>cs. cs) store0 (gazp [])
       (10 * 86400) (12 * 86400 - 1) IntervalDay
     = (None, store0, gazp []) \<and>
   security_quotes store0 = [row_of ''GAZP'' (day_quote 11 170), row_of ''GAZP'' (day_quote 10 168)]"
proof -
  have a: "SecurityExists store0 (secId (gazp [])) (sType (gazp [])) = Inr True"
    by (simp add: SecurityExists_def store0_def gazp_def UnknownType_def)
  have b: "fetched_candles (\<lambda>r. Inr []) (gazp []) (10 * 86400) (12 * 86400 - 1) IntervalDay
      = Inr []"
    by (simp add: fetched_candles_def getEngineAndMarket_def gazp_def Share_def)
  have c: "fair (\<lambda>cs :: candle list. cs)"
    by (simp add: fair_def)
  have d: "QuotesOfInterval (gazp []) IntervalDay = []"
    by (simp add: QuotesOfInterval_def gazp_def)
  from UpdateSecurityQuotes_nothing_fetched [OF a b c] d
  have "UpdateSecurityQuotes (\<lambda>r. Inr []) (\<lambda>cs. cs) store0 (gazp [])
       (10 * 86400) (12 * 86400 - 1) IntervalDay = (None, store0, gazp [])"
    by blast
  with a b d show ?thesis by (simp add: store0_def)
qed

text \<open>
  The claim as stated fails for a security that holds a quote of the interval: GAZP
  holds its day quote of day 5 and the fetch for the days 10 and 11 comes back
  empty; the stored quotes of the days 10 and 11 are deleted and the quote of day 5
  is inserted.
\<close>

theorem UpdateSecurityQuotes_empty_fetch_replaces_range:
  "SecurityExists store0 (secId (gazp [day_quote 5 150])) (sType (gazp [day_quote 5 150]))
     = Inr True \<and>
   fetched_candles (\<lambda>r. Inr []) (gazp [day_quote 5 150]) (10 * 86400) (12 * 86400 - 1) IntervalDay
     = Inr [] \<and>
   security_quotes store0
     = [row_of ''GAZP'' (day_quote 11 170), row_of ''GAZP'' (day_quote 10 168)] \<and>
   fst (UpdateSecurityQuotes (\<lambda>r. Inr []) (\<lambda>cs. cs) store0 (gazp [day_quote 5 150])
       (10 * 86400) (12 * 86400 - 1) IntervalDay) = None \<and>
   security_quotes (fst (snd (UpdateSecurityQuotes (\<lambda>r. Inr []) (\<lambda>cs. cs) store0
       (gazp [day_quote 5 150]) (10 * 86400) (12 * 86400 - 1) IntervalDay)))
     = [row_of ''GAZP'' (day_quote 5 150)] \<and>
   fst (snd (UpdateSecurityQuotes (\<lambda>r. Inr []) (\<lambda>cs. cs) store0 (gazp [day_quote 5 150])
       (10 * 86400) (12 * 86400 - 1) IntervalDay)) \<noteq> store0"
  by (simp add: UpdateSecurityQuotes_def SecurityExists_def GetSecurityQuotes_def
      fetched_candles_def getEngineAndMarket_def store_quotes_def delete_quotes_range_def
      insert_quotes_def quote_key_def quote_row_of_def row_of_def store0_def gazp_def
      day_quote_def Share_def UnknownType_def IntervalDay_def SetQuotesList_def
      QuotesOfInterval_def Let_def)

section \<open>The analytics loop\<close>










section \<open>The ranking by period change\<close>

lemma lt64_asym: "lt64 a b \<Longrightarrow> \<not> lt64 b a"
  by (cases a; cases b) simp_all

lemma lt64_ntrans: "\<not> lt64 b a \<Longrightarrow> \<not> lt64 c b \<Longrightarrow> \<not> lt64 c a"
  by (cases a; cases b; cases c) simp_all

lemma lt64_total: "a \<noteq> b \<Longrightarrow> \<not> lt64 b a \<longleftrightarrow> lt64 a b"
  by (cases a; cases b) auto

lemma lt64_irrefl: "\<not> lt64 a a"
  by (cases a) simp_all

lemma not_less_secPrices:
  "\<not> less_secPrices b a \<longleftrightarrow>
   lt64 (change a) (change b) \<or> (change a = change b \<and> sp_id a \<le> sp_id b)"
proof (cases "change a = change b")
  case True
  then show ?thesis by (auto simp: less_secPrices_def lt64_irrefl)
next
  case False
  then show ?thesis using lt64_total [of "change a" "change b"] by (auto simp: less_secPrices_def)
qed

lemma sorted_sort_Slice_less_secPrices:
  "sorted_wrt (\<lambda>a b. \<not> less_secPrices b a) (sort_Slice less_secPrices ps)"
proof (rule sorted_sort_Slice)
  fix a b assume "less_secPrices a b"
  then show "\<not> less_secPrices b a"
    by (auto simp: less_secPrices_def dest: lt64_asym simp: lt64_irrefl)
next
  fix a b c assume "\<not> less_secPrices b a" "\<not> less_secPrices c b"
  then have ab: "lt64 (change a) (change b) \<or> (change a = change b \<and> sp_id a \<le> sp_id b)"
    and bc: "lt64 (change b) (change c) \<or> (change b = change c \<and> sp_id b \<le> sp_id c)"
    by (simp_all only: not_less_secPrices)
  have trans: "lt64 x z" if "lt64 x y" "lt64 y z" for x y z
    using that by (cases x; cases y; cases z) simp_all
  from ab bc have "lt64 (change a) (change c) \<or> (change a = change c \<and> sp_id a \<le> sp_id c)"
    by (auto intro: trans)
  then show "\<not> less_secPrices c a" by (simp only: not_less_secPrices)
qed

lemma pow2_powr: "pow2 e = 2 powr (of_int e)"
proof (cases "0 \<le> e")
  case True
  then show ?thesis by (simp add: pow2_def powr_realpow [symmetric])
next
  case False
  then have "2 powr (of_int e) = 1 / 2 powr (real (nat (- e)))"
    by (simp add: powr_minus_divide [symmetric])
  with False show ?thesis by (simp add: pow2_def powr_realpow [symmetric])
qed

lemma pow2_pos: "0 < pow2 e"
  by (simp add: pow2_powr)

lemma pow2_add: "pow2 (a + b) = pow2 a * pow2 b"
  by (simp add: pow2_powr powr_add)

lemma pow2_mono: "a \<le> b \<Longrightarrow> pow2 a \<le> pow2 b"
  by (simp add: pow2_powr)

lemma exponent64_bounds:
  assumes "x \<noteq> 0"
  shows "pow2 (exponent64 x) \<le> \<bar>x\<bar> \<and> \<bar>x\<bar> < pow2 (exponent64 x + 1)"
proof (cases "1 \<le> \<bar>x\<bar>")
  case True
  define n where "n = \<lfloor>\<bar>x\<bar>\<rfloor>"
  from True have n: "0 < n" by (simp add: n_def)
  from bitlen_bounds [OF n] have lo: "2 ^ nat (bitlen n - 1) \<le> n" and hi: "n < 2 ^ nat (bitlen n)"
    by simp_all
  from n have b: "1 \<le> bitlen n" by (simp add: bitlen_alt_def)
  have e: "exponent64 x = bitlen n - 1"
    using True by (simp add: exponent64_def n_def)
  have "real_of_int (2 ^ nat (bitlen n - 1)) \<le> real_of_int n"
    using lo by (simp only: of_int_le_iff)
  also have "real_of_int n \<le> \<bar>x\<bar>" by (simp add: n_def)
  finally have 1: "pow2 (exponent64 x) \<le> \<bar>x\<bar>"
    using b by (simp add: e pow2_def)
  from hi have "n + 1 \<le> 2 ^ nat (bitlen n)" by simp
  then have "real_of_int (n + 1) \<le> real_of_int (2 ^ nat (bitlen n))"
    by (simp only: of_int_le_iff)
  moreover have "\<bar>x\<bar> < real_of_int (n + 1)"
    unfolding n_def by linarith
  ultimately have 2: "\<bar>x\<bar> < pow2 (exponent64 x + 1)"
    using b by (simp add: e pow2_def)
  from 1 2 show ?thesis ..
next
  case False
  with assms have x: "0 < \<bar>x\<bar>" "\<bar>x\<bar> < 1" by simp_all
  define y where "y = 1 / \<bar>x\<bar>"
  from x have y: "1 < y" by (simp add: y_def)
  define m where "m = \<lceil>y\<rceil>"
  from y have m: "0 < m - 1" unfolding m_def by linarith
  define k where "k = bitlen (m - 1)"
  from bitlen_bounds [OF m] have lo: "2 ^ nat (k - 1) \<le> m - 1" and hi: "m - 1 < 2 ^ nat k"
    by (simp_all add: k_def)
  from m have k: "1 \<le> k" by (simp add: k_def bitlen_alt_def)
  have e: "exponent64 x = - k"
    using False by (simp add: exponent64_def k_def m_def y_def)
  from hi have "m \<le> 2 ^ nat k" by simp
  then have "real_of_int m \<le> real_of_int (2 ^ nat k)" by (simp only: of_int_le_iff)
  moreover have "y \<le> real_of_int m" by (simp add: m_def)
  ultimately have "y \<le> real_of_int (2 ^ nat k)" by (rule order_trans [rotated])
  then have "y \<le> 2 ^ nat k" by simp
  then have "1 / 2 ^ nat k \<le> \<bar>x\<bar>"
    using x by (simp add: y_def field_simps)
  then have 1: "pow2 (exponent64 x) \<le> \<bar>x\<bar>"
    using k by (simp add: e pow2_def)
  from lo have "real_of_int (2 ^ nat (k - 1)) \<le> real_of_int (m - 1)" by (simp only: of_int_le_iff)
  moreover have "real_of_int (m - 1) < y" unfolding m_def by linarith
  ultimately have "real_of_int (2 ^ nat (k - 1)) < y" by (rule le_less_trans)
  then have "2 ^ nat (k - 1) < y" by simp
  then have lt: "\<bar>x\<bar> < 1 / 2 ^ nat (k - 1)"
    using x by (simp add: y_def field_simps)
  have "pow2 (- k + 1) = 1 / 2 ^ nat (k - 1)"
    using k by (cases "k = 1") (simp_all add: pow2_def)
  with lt have 2: "\<bar>x\<bar> < pow2 (exponent64 x + 1)" by (simp add: e)
  from 1 2 show ?thesis ..
qed

lemma round_even_near: "\<bar>of_int (round_even r) - r\<bar> \<le> 1 / 2"
  unfolding round_even_def by (auto; linarith)

lemma round_even_tie: "\<bar>of_int (round_even r) - r\<bar> = 1 / 2 \<Longrightarrow> even (round_even r)"
  unfolding round_even_def by (auto split: if_splits; linarith)

lemma ulp64_pos: "0 < ulp64 x"
  by (simp add: ulp64_def pow2_pos)

lemma significand_bound:
  assumes "x \<noteq> 0"
  shows "\<bar>x / ulp64 x\<bar> < 2 ^ 53"
proof -
  have "\<bar>x\<bar> < pow2 (exponent64 x + 1)" using exponent64_bounds [OF assms] ..
  also have "pow2 (exponent64 x + 1) \<le> pow2 (max (exponent64 x) (- 1022) + 1)"
    by (rule pow2_mono) simp
  also have "max (exponent64 x) (- 1022) + 1 = (max (exponent64 x) (- 1022) - 52) + 53" by simp
  also have "pow2 \<dots> = ulp64 x * 2 ^ 53"
    unfolding pow2_add ulp64_def by (simp add: pow2_def)
  finally show ?thesis using ulp64_pos [of x] by (simp add: field_simps)
qed

lemma round64_Finite:
  assumes "round64 x = Finite y"
  shows "\<exists>m::int. \<bar>m\<bar> \<le> 2 ^ 53 \<and> y = of_int m * ulp64 x \<and> \<bar>y - x\<bar> \<le> ulp64 x / 2 \<and>
           (\<bar>y - x\<bar> = ulp64 x / 2 \<longrightarrow> even m) \<and> \<bar>y\<bar> < 2 ^ 1024"
proof (cases "x = 0")
  case True
  with assms have "y = 0" by (simp add: round64_def)
  with True ulp64_pos [of 0] show ?thesis by (intro exI [of _ 0]) simp
next
  case False
  define m where "m = round_even (x / ulp64 x)"
  from assms False have y: "y = of_int m * ulp64 x" and fin: "\<bar>y\<bar> < 2 ^ 1024"
    by (auto simp: round64_def m_def split: if_splits)
  have u: "0 < ulp64 x" by (rule ulp64_pos)
  have d: "y - x = (of_int m - x / ulp64 x) * ulp64 x"
    using u by (simp add: y field_simps)
  have near: "\<bar>of_int m - x / ulp64 x\<bar> \<le> 1 / 2"
    unfolding m_def by (rule round_even_near)
  have dist: "\<bar>y - x\<bar> = \<bar>of_int m - x / ulp64 x\<bar> * ulp64 x"
    using u by (simp add: d abs_mult)
  from near u have "\<bar>of_int m - x / ulp64 x\<bar> * ulp64 x \<le> 1 / 2 * ulp64 x"
    by (intro mult_right_mono) simp_all
  then have 1: "\<bar>y - x\<bar> \<le> ulp64 x / 2"
    by (simp add: dist)
  have 2: "even m" if "\<bar>y - x\<bar> = ulp64 x / 2"
  proof -
    from that have "\<bar>of_int m - x / ulp64 x\<bar> * ulp64 x = 1 / 2 * ulp64 x"
      by (simp add: dist)
    with u have "\<bar>of_int m - x / ulp64 x\<bar> = 1 / 2"
      by (simp only: mult_cancel_right) simp
    then show ?thesis unfolding m_def by (rule round_even_tie)
  qed
  from significand_bound [OF False] near have "\<bar>real_of_int m\<bar> < 2 ^ 53 + 1" by linarith
  then have "\<bar>m\<bar> < 2 ^ 53 + 1" by (metis (mono_tags) of_int_abs of_int_less_iff of_int_numeral of_int_power of_int_add of_int_1)
  then have 3: "\<bar>m\<bar> \<le> 2 ^ 53" by simp
  from 1 2 3 y fin show ?thesis by blast
qed

lemma round64_infinite:
  assumes "round64 x = PlusInf \<or> round64 x = MinusInf"
  shows "2 ^ 1024 - 2 ^ 970 \<le> \<bar>x\<bar> \<and> (round64 x = PlusInf \<longleftrightarrow> 0 < x)"
proof -
  define m where "m = round_even (x / ulp64 x)"
  define u where "u = ulp64 x"
  from assms have x: "x \<noteq> 0" and big: "2 ^ 1024 \<le> \<bar>of_int m * u\<bar>"
    and sign: "round64 x = PlusInf \<longleftrightarrow> 0 < x"
    by (auto simp: round64_def m_def u_def split: if_splits)
  have u: "0 < u" unfolding u_def by (rule ulp64_pos)
  have "\<bar>of_int m - x / u\<bar> \<le> 1 / 2"
    unfolding m_def u_def by (rule round_even_near)
  with u have "\<bar>of_int m - x / u\<bar> * u \<le> 1 / 2 * u"
    by (intro mult_right_mono) simp_all
  moreover have "\<bar>of_int m * u - x\<bar> = \<bar>of_int m - x / u\<bar> * u"
  proof -
    have "of_int m * u - x = (of_int m - x / u) * u" using u by (simp add: field_simps)
    then show ?thesis using u by (simp add: abs_mult)
  qed
  ultimately have near: "\<bar>of_int m * u - x\<bar> \<le> u / 2" by simp
  have "2 ^ 1024 - 2 ^ 970 \<le> \<bar>x\<bar>"
  proof (cases "2 ^ 1024 \<le> \<bar>x\<bar>")
    case True
    then show ?thesis by simp
  next
    case False
    have "exponent64 x < 1024"
    proof (rule ccontr)
      assume "\<not> exponent64 x < 1024"
      then have "pow2 1024 \<le> pow2 (exponent64 x)" by (intro pow2_mono) simp
      also have "\<dots> \<le> \<bar>x\<bar>" using exponent64_bounds [OF x] ..
      finally show False using False by (simp add: pow2_def)
    qed
    then have "u \<le> pow2 971"
      unfolding u_def ulp64_def by (intro pow2_mono) simp
    then have "u / 2 \<le> 2 ^ 970" by (simp add: pow2_def)
    with near big show ?thesis by linarith
  qed
  with sign show ?thesis by blast
qed

lemma Round_nearest:
  "\<exists>n::int. Round (Finite x) = Finite (of_int n) \<and> \<bar>of_int n - x\<bar> \<le> 1 / 2 \<and>
     (\<bar>of_int n - x\<bar> = 1 / 2 \<longrightarrow> \<bar>x\<bar> < \<bar>of_int n\<bar>)"
proof (cases "x < 0")
  case True
  define n where "n = \<lfloor>- x + 1 / 2\<rfloor>"
  have "of_int n \<le> - x + 1 / 2" "- x + 1 / 2 < of_int n + 1"
    unfolding n_def by linarith+
  with True have "\<bar>of_int (- n) - x\<bar> \<le> 1 / 2 \<and>
     (\<bar>of_int (- n) - x\<bar> = 1 / 2 \<longrightarrow> \<bar>x\<bar> < \<bar>real_of_int (- n)\<bar>)"
    by (auto simp: abs_if)
  moreover from True have "Round (Finite x) = Finite (of_int (- n))"
    by (simp add: n_def)
  ultimately show ?thesis by blast
next
  case False
  define n where "n = \<lfloor>x + 1 / 2\<rfloor>"
  have "of_int n \<le> x + 1 / 2" "x + 1 / 2 < of_int n + 1"
    unfolding n_def by linarith+
  with False have "\<bar>of_int n - x\<bar> \<le> 1 / 2 \<and>
     (\<bar>of_int n - x\<bar> = 1 / 2 \<longrightarrow> \<bar>x\<bar> < \<bar>real_of_int n\<bar>)"
    by (auto simp: abs_if)
  moreover from False have "Round (Finite x) = Finite (of_int n)"
    by (simp add: n_def)
  ultimately show ?thesis by blast
qed

text \<open>The changes of the examples, operation by operation.\<close>

lemma change_10_12:
  "div64 (Round (mul64 (div64 (sub64 12 10) 10) 10000)) 100 = Finite 20"
proof -
  have "sub64 12 10 = Finite 2"
    by (simp add: sub64_def round64_def ulp64_def pow2_def exponent64_def compute_bitlen
        round_even_def)
  moreover have "div64 (Finite 2) 10 = Finite (3602879701896397 / 2 ^ 54)"
    by (simp add: round64_def ulp64_def pow2_def exponent64_def compute_bitlen round_even_def)
  moreover have "mul64 (Finite (3602879701896397 / 2 ^ 54)) 10000 = Finite 2000"
    by (simp add: round64_def ulp64_def pow2_def exponent64_def compute_bitlen round_even_def)
  moreover have "Round (Finite 2000) = Finite 2000"
    by simp
  moreover have "div64 (Finite 2000) 100 = Finite 20"
    by (simp add: round64_def ulp64_def pow2_def exponent64_def compute_bitlen round_even_def)
  ultimately show ?thesis by simp
qed

lemma change_50_45:
  "div64 (Round (mul64 (div64 (sub64 45 50) 50) 10000)) 100 = Finite (- 10)"
proof -
  have "sub64 45 50 = Finite (- 5)"
    by (simp add: sub64_def round64_def ulp64_def pow2_def exponent64_def compute_bitlen
        round_even_def)
  moreover have "div64 (Finite (- 5)) 50 = Finite (- (3602879701896397 / 2 ^ 55))"
    by (simp add: round64_def ulp64_def pow2_def exponent64_def compute_bitlen round_even_def)
  moreover have "mul64 (Finite (- (3602879701896397 / 2 ^ 55))) 10000 = Finite (- 1000)"
    by (simp add: round64_def ulp64_def pow2_def exponent64_def compute_bitlen round_even_def)
  moreover have "Round (Finite (- 1000)) = Finite (- 1000)"
    by simp
  moreover have "div64 (Finite (- 1000)) 100 = Finite (- 10)"
    by (simp add: round64_def ulp64_def pow2_def exponent64_def compute_bitlen round_even_def)
  ultimately show ?thesis by simp
qed

text \<open>
  An example in which the rounding of the operations decides the result: from 1250 to
  1250.1875 (that is 20003 / 16) the exact change is 1.5 hundredths of a percent, which would round to 2;
  the quotient and the product are rounded to a number just below 1.5, which rounds
  to 1, and the change is the \<^verbatim>\<open>float64\<close> number nearest to 0.01.
\<close>

lemma change_1250:
  "div64 (Round (mul64 (div64 (sub64 (20003 / 16) 1250) 1250) 10000)) 100
     = Finite (5764607523034235 / 2 ^ 59)"
proof -
  have "sub64 (20003 / 16) 1250 = Finite (3 / 16)"
    by (simp add: sub64_def round64_def ulp64_def pow2_def exponent64_def compute_bitlen
        round_even_def)
  moreover have "div64 (Finite (3 / 16)) 1250 = Finite (5534023222112865 / 2 ^ 65)"
    by (simp add: round64_def ulp64_def pow2_def exponent64_def compute_bitlen round_even_def)
  moreover have "mul64 (Finite (5534023222112865 / 2 ^ 65)) 10000
      = Finite (6755399441055743 / 2 ^ 52)"
    by (simp add: round64_def ulp64_def pow2_def exponent64_def compute_bitlen round_even_def)
  moreover have "Round (Finite (6755399441055743 / 2 ^ 52)) = Finite 1"
    by simp
  moreover have "div64 (Finite 1) 100 = Finite (5764607523034235 / 2 ^ 59)"
    by (simp add: round64_def ulp64_def pow2_def exponent64_def compute_bitlen round_even_def)
  ultimately show ?thesis by simp
qed

text \<open>
  Claim C8. The ranking holds exactly the records of the securities, each with the
  \<open>change\<close> that the expression \<^verbatim>\<open>math.Round((priceEnd-priceBegin)/priceBegin*10000) / 100\<close>
  has in \<^verbatim>\<open>float64\<close> arithmetic when \<open>priceBegin > 0\<close> and 0 otherwise, in ascending order
  of \<open>change\<close> and, among equal changes, of the id, whatever the order in which the
  tasks delivered the records. In that arithmetic \<open>Round\<close> gives the nearest integer,
  the one away from zero when two are equally near, and every other operation gives
  its exact result rounded: to a number of at most 53 significant bits at the
  exponent of the result, half a unit of the last place away at most, the even one
  when two are equally near, and to an infinity only from \<open>2 ^ 1024 - 2 ^ 970\<close> on. The
  order is that of the numbers, with the infinities at the ends. The securities A (open 10, close 12) and B (open 50,
  close 45) have the changes 20 and -10 and are ranked B, A.
\<close>

theorem RankPeriodChange_spec:
  "mset (RankPeriodChange sec dateFrom dateTill) = mset (map (\<lambda>s. secPrices_of s dateFrom dateTill) sec) \<and>
   sorted_wrt (\<lambda>a b. lt64 (change a) (change b) \<or> (change a = change b \<and> sp_id a \<le> sp_id b))
     (RankPeriodChange sec dateFrom dateTill) \<and>
   (\<forall>p\<in>set (RankPeriodChange sec dateFrom dateTill).
      change p = (if priceBegin p > 0
                  then div64 (Round (mul64 (div64 (sub64 (priceEnd p) (priceBegin p))
                                        (priceBegin p)) 10000)) 100
                  else Finite 0)) \<and>
   (\<exists>n::int. Round (Finite x) = Finite (of_int n) \<and> \<bar>of_int n - x\<bar> \<le> 1 / 2 \<and>
      (\<bar>of_int n - x\<bar> = 1 / 2 \<longrightarrow> \<bar>x\<bar> < \<bar>of_int n\<bar>)) \<and>
   sub64 a b = round64 (a - b) \<and> div64 (Finite a) b = round64 (a / b) \<and>
   mul64 (Finite a) b = round64 (a * b) \<and>
   (round64 x = Finite y \<longrightarrow>
      (\<exists>m::int. \<bar>m\<bar> \<le> 2 ^ 53 \<and> y = of_int m * ulp64 x \<and> \<bar>y - x\<bar> \<le> ulp64 x / 2 \<and>
         (\<bar>y - x\<bar> = ulp64 x / 2 \<longrightarrow> even m) \<and> \<bar>y\<bar> < 2 ^ 1024)) \<and>
   (x \<noteq> 0 \<longrightarrow>
      ulp64 x = pow2 (max (exponent64 x) (- 1022) - 52) \<and>
      pow2 (exponent64 x) \<le> \<bar>x\<bar> \<and> \<bar>x\<bar> < pow2 (exponent64 x + 1)) \<and>
   (round64 x = PlusInf \<or> round64 x = MinusInf \<longrightarrow>
      2 ^ 1024 - 2 ^ 970 \<le> \<bar>x\<bar> \<and> (round64 x = PlusInf \<longleftrightarrow> 0 < x)) \<and>
   (lt64 (Finite a) (Finite b) \<longleftrightarrow> a < b) \<and>
   lt64 MinusInf (Finite a) \<and> lt64 (Finite a) PlusInf \<and> lt64 MinusInf PlusInf \<and>
   \<not> lt64 v MinusInf \<and> \<not> lt64 PlusInf v \<and>
   RankPeriodChange [share ''A'' [day_candle 1 10 11, day_candle 3 11 12],
                     share ''B'' [day_candle 1 50 48, day_candle 3 47 45]] 86400 (4 * 86400 - 1)
     = [\<lparr>sp_id = ''B'', priceBegin = 50, priceEnd = 45, change = Finite (- 10)\<rparr>,
        \<lparr>sp_id = ''A'', priceBegin = 10, priceEnd = 12, change = Finite 20\<rparr>]"
proof -
  have 1: "mset (RankPeriodChange sec dateFrom dateTill) = mset (map (\<lambda>s. secPrices_of s dateFrom dateTill) sec)"
    by (simp add: RankPeriodChange_def mset_sort_Slice)
  have 2: "sorted_wrt (\<lambda>a b. lt64 (change a) (change b) \<or> (change a = change b \<and> sp_id a \<le> sp_id b))
     (RankPeriodChange sec dateFrom dateTill)"
    using sorted_sort_Slice_less_secPrices [of "map (\<lambda>s. secPrices_of s dateFrom dateTill) sec"]
    by (simp add: RankPeriodChange_def not_less_secPrices)
  have 3: "change p = (if priceBegin p > 0
                  then div64 (Round (mul64 (div64 (sub64 (priceEnd p) (priceBegin p))
                                        (priceBegin p)) 10000)) 100
                  else Finite 0)"
    if "p \<in> set (RankPeriodChange sec dateFrom dateTill)" for p
    using that by (auto simp: RankPeriodChange_def set_sort_Slice secPrices_of_def Let_def)
  note 4 = Round_nearest [of x]
  have 5: "sub64 a b = round64 (a - b)" "div64 (Finite a) b = round64 (a / b)"
    "mul64 (Finite a) b = round64 (a * b)"
    by (simp_all add: sub64_def)
  have 6: "\<exists>m::int. \<bar>m\<bar> \<le> 2 ^ 53 \<and> y = of_int m * ulp64 x \<and> \<bar>y - x\<bar> \<le> ulp64 x / 2 \<and>
         (\<bar>y - x\<bar> = ulp64 x / 2 \<longrightarrow> even m) \<and> \<bar>y\<bar> < 2 ^ 1024"
    if "round64 x = Finite y"
    using that by (rule round64_Finite)
  have 7: "ulp64 x = pow2 (max (exponent64 x) (- 1022) - 52) \<and>
      pow2 (exponent64 x) \<le> \<bar>x\<bar> \<and> \<bar>x\<bar> < pow2 (exponent64 x + 1)"
    if "x \<noteq> 0"
    using exponent64_bounds [OF that] by (simp add: ulp64_def)
  have 8: "RankPeriodChange [share ''A'' [day_candle 1 10 11, day_candle 3 11 12],
                     share ''B'' [day_candle 1 50 48, day_candle 3 47 45]] 86400 (4 * 86400 - 1)
     = [\<lparr>sp_id = ''B'', priceBegin = 50, priceEnd = 45, change = Finite (- 10)\<rparr>,
        \<lparr>sp_id = ''A'', priceBegin = 10, priceEnd = 12, change = Finite 20\<rparr>]"
    by (simp add: RankPeriodChange_def secPrices_of_def QuotesForDate_def share_def day_candle_def
        IntervalDay_def After_def zeroQuotes_def zeroTime_def Truncate_day_def AddDate_days_def
        less_secPrices_def change_10_12 change_50_45)
  have 9: "2 ^ 1024 - 2 ^ 970 \<le> \<bar>x\<bar> \<and> (round64 x = PlusInf \<longleftrightarrow> 0 < x)"
    if "round64 x = PlusInf \<or> round64 x = MinusInf"
    using that by (rule round64_infinite)
  have 10: "lt64 (Finite a) (Finite b) \<longleftrightarrow> a < b" "lt64 MinusInf (Finite a)"
    "lt64 (Finite a) PlusInf" "lt64 MinusInf PlusInf" "\<not> lt64 v MinusInf" "\<not> lt64 PlusInf v"
    by (simp_all, cases v, simp_all)
  from 1 2 3 4 5 6 7 8 9 10 show ?thesis by blast
qed

theorem RankPeriodChange_spec_witness:
  "RankPeriodChange [share ''B'' [day_candle 1 50 48, day_candle 3 47 45],
                     share ''A'' [day_candle 1 10 11, day_candle 3 11 12]] 86400 (4 * 86400 - 1)
     = [\<lparr>sp_id = ''B'', priceBegin = 50, priceEnd = 45, change = Finite (- 10)\<rparr>,
        \<lparr>sp_id = ''A'', priceBegin = 10, priceEnd = 12, change = Finite 20\<rparr>] \<and>
   change \<lparr>sp_id = ''B'', priceBegin = 50, priceEnd = 45, change = Finite (- 10)\<rparr>
     = div64 (Round (mul64 (div64 (sub64 45 50) 50) 10000)) 100 \<and>
   round64 (1 / 10) = Finite (3602879701896397 / 2 ^ 55) \<and>
   ulp64 (1 / 10) = 1 / 2 ^ 56 \<and>
   \<bar>3602879701896397 / 2 ^ 55 - 1 / 10\<bar> \<le> ulp64 (1 / 10) / 2 \<and>
   change (secPrices_of (share ''C'' [day_candle 1 1250 1250, day_candle 3 1250 (20003 / 16)])
             86400 (4 * 86400 - 1))
     = Finite (5764607523034235 / 2 ^ 59)"
proof -
  define ranking where "ranking = RankPeriodChange
     [share ''B'' [day_candle 1 50 48, day_candle 3 47 45],
      share ''A'' [day_candle 1 10 11, day_candle 3 11 12]] 86400 (4 * 86400 - 1)"
  have eval: "ranking = [\<lparr>sp_id = ''B'', priceBegin = 50, priceEnd = 45, change = Finite (- 10)\<rparr>,
        \<lparr>sp_id = ''A'', priceBegin = 10, priceEnd = 12, change = Finite 20\<rparr>]"
    unfolding ranking_def
    by (simp add: RankPeriodChange_def secPrices_of_def QuotesForDate_def share_def day_candle_def
        IntervalDay_def After_def zeroQuotes_def zeroTime_def Truncate_day_def AddDate_days_def
        less_secPrices_def change_10_12 change_50_45)
  note spec = RankPeriodChange_spec
    [of "[share ''B'' [day_candle 1 50 48, day_candle 3 47 45],
          share ''A'' [day_candle 1 10 11, day_candle 3 11 12]]" 86400 "4 * 86400 - 1"
        "1 / 10" _ _ "3602879701896397 / 2 ^ 55"]
  from spec
  have "\<forall>p\<in>set ranking. change p =
      (if priceBegin p > 0
       then div64 (Round (mul64 (div64 (sub64 (priceEnd p) (priceBegin p)) (priceBegin p)) 10000)) 100
       else Finite 0)"
    unfolding ranking_def by blast
  then have a: "change \<lparr>sp_id = ''B'', priceBegin = 50, priceEnd = 45, change = Finite (- 10)\<rparr>
      = div64 (Round (mul64 (div64 (sub64 45 50) 50) 10000)) 100"
    unfolding eval by simp
  have b: "round64 (1 / 10) = Finite (3602879701896397 / 2 ^ 55)"
    by (simp add: round64_def ulp64_def pow2_def exponent64_def compute_bitlen round_even_def)
  have c: "ulp64 (1 / 10) = 1 / 2 ^ 56"
    by (simp add: ulp64_def pow2_def exponent64_def compute_bitlen)
  from spec b have d: "\<bar>3602879701896397 / 2 ^ 55 - 1 / 10\<bar> \<le> ulp64 (1 / 10) / 2"
    by blast
  have e: "change (secPrices_of (share ''C'' [day_candle 1 1250 1250,
      day_candle 3 1250 (20003 / 16)]) 86400 (4 * 86400 - 1))
     = Finite (5764607523034235 / 2 ^ 59)"
    by (simp add: secPrices_of_def QuotesForDate_def share_def day_candle_def
        IntervalDay_def After_def zeroQuotes_def zeroTime_def Truncate_day_def AddDate_days_def
        Let_def change_1250)
  from eval a b c d e show ?thesis unfolding ranking_def by simp
qed

section \<open>Fan-out: GetSecuritiesData and AddSecurities\<close>

lemma join_lines_Cons: "es \<noteq> [] \<Longrightarrow> join_lines (e # es) = e @ newline @ join_lines es"
  by (cases es) simp_all

lemma join_lines_append_head:
  "join_lines ((a @ newline @ b) # es) = a @ newline @ join_lines (b # es)"
  by (cases es) simp_all

lemma collectErrors_Some: "collectErrors (Some f) errs = Some (join_lines (f # errs))"
  by (induction errs arbitrary: f) (simp_all add: join_lines_append_head)

lemma collectErrors_None:
  "collectErrors None errs = (if errs = [] then None else Some (join_lines errs))"
  by (cases errs) (simp_all add: collectErrors_Some)

lemma sublist_join_lines: "m \<in> set msgs \<Longrightarrow> sublist m (join_lines msgs)"
proof (induction msgs rule: join_lines.induct)
  case 1
  then show ?case by simp
next
  case (2 e)
  then show ?case by simp
next
  case (3 e v va)
  show ?case
  proof (cases "m = e")
    case True
    then show ?thesis by (simp add: sublist_append_rightI)
  next
    case False
    with 3 have "sublist m (join_lines (v # va))" by simp
    then obtain ps ss where "join_lines (v # va) = ps @ m @ ss"
      by (auto simp: sublist_def)
    then have "join_lines (e # v # va) = (e @ newline @ ps) @ m @ ss" by simp
    then show ?thesis unfolding sublist_def by blast
  qed
qed

lemma mset_failures: "mset xs = mset ys \<Longrightarrow> mset (failures xs) = mset (failures ys)"
proof -
  have "mset (failures zs) = (\<Sum>r\<in>#mset zs. mset (case fst r of None \<Rightarrow> [] | Some e \<Rightarrow> [e]))"
    for zs :: "(error option \<times> 'a) list"
    by (induction zs) (simp_all add: failures_def)
  then show "mset xs = mset ys \<Longrightarrow> mset (failures xs) = mset (failures ys)" by simp
qed

lemma failures_empty: "failures rs = [] \<longleftrightarrow> (\<forall>d\<in>set rs. fst d = None)"
  by (induction rs) (auto simp: failures_def split: option.splits)

lemma failures_all: "\<forall>d\<in>set rs. fst d \<noteq> None \<Longrightarrow> length (failures rs) = length rs"
  by (induction rs) (auto simp: failures_def split: option.splits)

lemma set_failures: "m \<in> set (failures rs) \<longleftrightarrow> (\<exists>d\<in>set rs. fst d = Some m)"
  by (induction rs) (auto simp: failures_def split: option.splits)

lemma AddSecurities_loop_fails:
  "\<forall>x\<in>set pre. \<not> isl (SecurityExists db (secId x) (sType x)) \<Longrightarrow>
   SecurityExists db (secId s) (sType s) = Inl e \<Longrightarrow>
   AddSecurities_loop db (pre @ s # post) args = Inl e"
  by (induction pre arbitrary: args) (auto split: sum.splits)

lemma AddSecurities_loop_checked:
  "\<forall>x\<in>set sec. \<not> isl (SecurityExists db (secId x) (sType x)) \<Longrightarrow>
   AddSecurities_loop db sec args =
     Inr (args @ map security_row_of
            (filter (\<lambda>s. SecurityExists db (secId s) (sType s) = Inr False) sec))"
  by (induction sec arbitrary: args) (auto split: sum.splits)

text \<open>
  Claim C6, as the code has it. \<open>GetSecuritiesData\<close> runs \<open>GetSecurityData\<close> on every
  security of the list, whatever fails: each security of the result is what
  \<open>GetSecurityData\<close> makes of it. For every order in which the tasks finish, the
  returned error is the messages of all failed tasks (in the order of arrival) joined
  line by line, so each of them is a part of it; they are as many as the securities
  when every task fails, and the result is \<open>None\<close> when none fails.
  The later \<open>AddSecurities\<close> is no fan-out: it checks the securities in order and
  returns the error of the first check that fails, alone and with the store
  unchanged, whatever follows in the list; when no check fails, it inserts the rows
  of the securities that are not in the store with one statement and returns the
  error of that statement, if any.
\<close>

theorem fan_out_errors:
  "(fair sched \<longrightarrow>
      snd (GetSecuritiesData rsched sched db sec) = map (\<lambda>s. snd (GetSecurityData rsched db s)) sec \<and>
      (\<exists>msgs. mset msgs = mset (failures (map (GetSecurityData rsched db) sec)) \<and>
         fst (GetSecuritiesData rsched sched db sec)
           = (if msgs = [] then None else Some (join_lines msgs))) \<and>
      (\<forall>s\<in>set sec. \<forall>m. fst (GetSecurityData rsched db s) = Some m \<longrightarrow>
         (\<exists>e. fst (GetSecuritiesData rsched sched db sec) = Some e \<and> sublist m e)) \<and>
      ((\<forall>s\<in>set sec. fst (GetSecurityData rsched db s) \<noteq> None) \<longrightarrow>
         length (failures (map (GetSecurityData rsched db) sec)) = length sec) \<and>
      ((\<forall>s\<in>set sec. fst (GetSecurityData rsched db s) = None) \<longrightarrow>
         fst (GetSecuritiesData rsched sched db sec) = None)) \<and>
   ((\<forall>x\<in>set pre. \<not> isl (SecurityExists db (secId x) (sType x))) \<and>
    SecurityExists db (secId s) (sType s) = Inl e \<longrightarrow>
      AddSecurities db (pre @ s # post) = (Some e, db)) \<and>
   ((\<forall>x\<in>set sec. \<not> isl (SecurityExists db (secId x) (sType x))) \<longrightarrow>
      AddSecurities db sec =
        (if filter (\<lambda>s. SecurityExists db (secId s) (sType s) = Inr False) sec = [] then (None, db)
         else case insert_securities db
                (map security_row_of
                   (filter (\<lambda>s. SecurityExists db (secId s) (sType s) = Inr False) sec)) of
                Inl e \<Rightarrow> (Some e, db)
              | Inr db' \<Rightarrow> (None, db')))"
proof -
  define res where "res = map (GetSecurityData rsched db) sec"
  have r: "GetSecuritiesData rsched sched db sec
      = (collectErrors None (failures (sched res)), map snd res)"
    by (simp add: GetSecuritiesData_def res_def)
  have A: "snd (GetSecuritiesData rsched sched db sec) = map (\<lambda>s. snd (GetSecurityData rsched db s)) sec"
    by (simp add: r res_def)
  have B: "\<exists>msgs. mset msgs = mset (failures res) \<and>
         fst (GetSecuritiesData rsched sched db sec)
           = (if msgs = [] then None else Some (join_lines msgs))" if "fair sched"
  proof -
    from that have "mset (sched res) = mset res" by (simp add: fair_def)
    then have "mset (failures (sched res)) = mset (failures res)" by (rule mset_failures)
    then show ?thesis by (auto simp: r collectErrors_None intro!: exI [of _ "failures (sched res)"])
  qed
  have C: "\<exists>e. fst (GetSecuritiesData rsched sched db sec) = Some e \<and> sublist m e"
    if "fair sched" "s \<in> set sec" "fst (GetSecurityData rsched db s) = Some m" for s m
  proof -
    from that(2,3) have "m \<in> set (failures res)"
      by (auto simp: set_failures res_def)
    moreover from B [OF that(1)] obtain msgs where msgs: "mset msgs = mset (failures res)"
      "fst (GetSecuritiesData rsched sched db sec) = (if msgs = [] then None else Some (join_lines msgs))"
      by blast
    ultimately have "m \<in> set msgs" by (metis set_mset_mset)
    then have "sublist m (join_lines msgs)" "msgs \<noteq> []" by (auto intro: sublist_join_lines)
    with msgs(2) show ?thesis by simp
  qed
  have D: "length (failures res) = length sec"
    if "\<forall>s\<in>set sec. fst (GetSecurityData rsched db s) \<noteq> None"
    using that failures_all [of res] by (simp add: res_def)
  have E: "fst (GetSecuritiesData rsched sched db sec) = None"
    if "fair sched" "\<forall>s\<in>set sec. fst (GetSecurityData rsched db s) = None"
  proof -
    from that(2) have "failures res = []" by (simp add: failures_empty res_def)
    with B [OF that(1)] show ?thesis by auto
  qed
  have F: "AddSecurities db (pre @ s # post) = (Some e, db)"
    if "\<forall>x\<in>set pre. \<not> isl (SecurityExists db (secId x) (sType x))"
      "SecurityExists db (secId s) (sType s) = Inl e"
    using AddSecurities_loop_fails [OF that] by (simp add: AddSecurities_def)
  have G: "AddSecurities db sec =
        (if filter (\<lambda>s. SecurityExists db (secId s) (sType s) = Inr False) sec = [] then (None, db)
         else case insert_securities db
                (map security_row_of
                   (filter (\<lambda>s. SecurityExists db (secId s) (sType s) = Inr False) sec)) of
                Inl e \<Rightarrow> (Some e, db)
              | Inr db' \<Rightarrow> (None, db'))"
    if "\<forall>x\<in>set sec. \<not> isl (SecurityExists db (secId x) (sType x))"
    using AddSecurities_loop_checked [OF that, of "[]"] by (simp add: AddSecurities_def)
  from A B C D E F G show ?thesis unfolding res_def by blast
qed

theorem fan_out_errors_witness:
  "fair (rev :: (error option \<times> Security) schedule) \<and>
   GetSecuritiesData (\<lambda>rows. rows) rev store0 [share ''AAAA'' [], share [] [], share [] []]
     = (Some (''security has no id'' @ newline @ ''security has no id'' @ newline @
              ''security AAAA does not exist''),
        [share ''AAAA'' [], share [] [], share [] []]) \<and>
   AddSecurities store0 ([share ''BLNG'' []] @ share [] [] # [share ''SBER'' []])
     = (Some ''security has no id'', store0) \<and>
   AddSecurities store0 [share ''BLNG'' [], share ''GAZP'' []]
     = (None, store0\<lparr>securities := securities store0 @
          [\<lparr>s_id = ''BLNG'', s_name = [], s_type = ''share'', s_currency = ''RUB''\<rparr>]\<rparr>)"
proof -
  note spec = fan_out_errors [of rev "\<lambda>rows. rows" store0
      "[share ''BLNG'' [], share ''GAZP'' []]" "[share ''BLNG'' []]" "share [] []"
      "''security has no id''" "[share ''SBER'' []]"]
  have fair: "fair (rev :: (error option \<times> Security) schedule)"
    by (simp add: fair_def)
  have load: "GetSecuritiesData (\<lambda>rows. rows) rev store0 [share ''AAAA'' [], share [] [], share [] []]
     = (Some (''security has no id'' @ newline @ ''security has no id'' @ newline @
              ''security AAAA does not exist''),
        [share ''AAAA'' [], share [] [], share [] []])"
    by (simp add: GetSecuritiesData_def GetSecurityData_def SecurityExists_def failures_def
        share_def store0_def UnknownType_def)
  have checks: "\<forall>x\<in>set [share ''BLNG'' []]. \<not> isl (SecurityExists store0 (secId x) (sType x))"
    "SecurityExists store0 (secId (share [] [])) (sType (share [] [])) = Inl ''security has no id''"
    "\<forall>x\<in>set [share ''BLNG'' [], share ''GAZP'' []].
        \<not> isl (SecurityExists store0 (secId x) (sType x))"
    by (simp_all add: SecurityExists_def share_def UnknownType_def)
  from spec checks have first: "AddSecurities store0 ([share ''BLNG'' []] @ share [] [] # [share ''SBER'' []])
     = (Some ''security has no id'', store0)"
    by blast
  from spec checks have "AddSecurities store0 [share ''BLNG'' [], share ''GAZP'' []] =
        (if filter (\<lambda>s. SecurityExists store0 (secId s) (sType s) = Inr False)
              [share ''BLNG'' [], share ''GAZP'' []] = [] then (None, store0)
         else case insert_securities store0
                (map security_row_of
                   (filter (\<lambda>s. SecurityExists store0 (secId s) (sType s) = Inr False)
                      [share ''BLNG'' [], share ''GAZP'' []])) of
                Inl e \<Rightarrow> (Some e, store0)
              | Inr db' \<Rightarrow> (None, db'))"
    by blast
  then have batch: "AddSecurities store0 [share ''BLNG'' [], share ''GAZP'' []]
     = (None, store0\<lparr>securities := securities store0 @
          [\<lparr>s_id = ''BLNG'', s_name = [], s_type = ''share'', s_currency = ''RUB''\<rparr>]\<rparr>)"
    by (simp add: SecurityExists_def insert_securities_def security_row_of_def share_def
        store0_def UnknownType_def UnknownCurrency_def RUB_def)
  from fair load first batch show ?thesis by simp
qed

text \<open>
  The claim as it was stated fails for \<open>AddSecurities\<close>: both securities of the list
  fail on their own, with different messages, and the error of the list is the first
  message alone.
\<close>

theorem AddSecurities_first_error_only:
  "fst (AddSecurity store0 (share [] [])) = Some ''security has no id'' \<and>
   fst (AddSecurity store0 (share ''BLNG'' [] \<lparr>sType := UnknownType\<rparr>))
     = Some ''security has no type or type is unknown'' \<and>
   AddSecurities store0 [share [] [], share ''BLNG'' [] \<lparr>sType := UnknownType\<rparr>]
     = (Some ''security has no id'', store0) \<and>
   \<not> sublist ''security has no type or type is unknown'' ''security has no id''"
proof -
  have "\<not> sublist ''security has no type or type is unknown'' ''security has no id''"
    by (auto dest: sublist_length_le)
  then show ?thesis
    by (simp add: AddSecurity_def AddSecurities_def SecurityExists_def share_def UnknownType_def)
qed

section \<open>The order of the quotes of a security\<close>

lemma quotes_fold_SetQuotes:
  "quotes (fold (\<lambda>row s. SetQuotes s (f row)) rows s) = quotes s @ map f rows"
  by (induction rows arbitrary: s) (simp_all add: SetQuotes_def)

lemma GetSecurityData_quotes:
  assumes "GetSecurityData sched db sec = (None, sec')"
  shows "quotes sec' = sort_Slice less_Begin
           (quotes sec @ map quotes_of_row
              (sched (filter (\<lambda>q. sq_security q = secId sec) (security_quotes db))))"
proof (cases "SecurityExists db (secId sec) (sType sec)")
  case (Inl e)
  with assms show ?thesis by (simp add: GetSecurityData_def)
next
  case (Inr seqExists)
  show ?thesis
  proof (cases "filter (\<lambda>r. s_id r = secId sec) (securities db)")
    case Nil
    with assms Inr show ?thesis
      by (simp add: GetSecurityData_def split: if_splits)
  next
    case (Cons r rs)
    with assms Inr show ?thesis
      by (auto simp: GetSecurityData_def Let_def ClearAndSetQuotesList_def SetQuotesList_def
          SetCurrency_def SetName_def quotes_fold_SetQuotes split: if_splits)
  qed
qed

lemma GetSecurityQuotes_quotes:
  assumes "GetSecurityQuotes provider sched sec dateFrom dateTill interval = (None, sec')"
  shows "\<exists>req candleData. provider req = Inr candleData \<and>
           quotes sec' = quotes sec @ sort_Slice less_Begin
             (map (quotes_of_candle interval) (sched candleData))"
proof -
  from assms obtain emb where "getEngineAndMarket (sType sec) = Inr emb"
    by (auto simp: GetSecurityQuotes_def split: sum.splits)
  moreover obtain engine market board where "emb = (engine, market, board)"
    by (cases emb) auto
  ultimately have emb: "getEngineAndMarket (sType sec) = Inr (engine, market, board)"
    by simp
  define req where "req = \<lparr>cr_engine = engine, cr_market = market,
      cr_boardStr = boardStr board, cr_security = secId sec, cr_from = Format_day dateFrom,
      cr_till = Format_day dateTill, cr_interval = interval\<rparr>"
  show ?thesis
  proof (cases "provider req")
    case (Inl e)
    with assms emb show ?thesis
      by (simp add: GetSecurityQuotes_def req_def)
  next
    case (Inr cs)
    with assms emb have "quotes sec' = quotes sec @ sort_Slice less_Begin
        (map (quotes_of_candle interval) (sched cs))"
      by (auto simp: GetSecurityQuotes_def req_def SetQuotesList_def)
    with Inr show ?thesis by blast
  qed
qed

lemma distinct_map_mset_eq:
  "mset xs = mset ys \<Longrightarrow> distinct (map f xs) \<longleftrightarrow> distinct (map f ys)"
proof -
  assume "mset xs = mset ys"
  then have "mset (map f xs) = mset (map f ys)" by simp
  then show ?thesis by (rule mset_eq_imp_distinct_iff)
qed

lemma distinct_rows_of_security:
  assumes "distinct (map quote_key rs)"
  shows "distinct (map (\<lambda>r. (sq_begin r, sq_interv r)) (filter (\<lambda>q. sq_security q = i) rs))"
proof -
  have "distinct (map quote_key (filter (\<lambda>q. sq_security q = i) rs))"
    using assms by (rule distinct_map_filter)
  then have d: "distinct (filter (\<lambda>q. sq_security q = i) rs)"
    and inj: "inj_on quote_key (set (filter (\<lambda>q. sq_security q = i) rs))"
    by (simp_all add: distinct_map)
  have "inj_on (\<lambda>r. (sq_begin r, sq_interv r)) (set (filter (\<lambda>q. sq_security q = i) rs))"
  proof (rule inj_onI)
    fix x y
    assume "x \<in> set (filter (\<lambda>q. sq_security q = i) rs)"
      "y \<in> set (filter (\<lambda>q. sq_security q = i) rs)"
      "(sq_begin x, sq_interv x) = (sq_begin y, sq_interv y)"
    then have "quote_key x = quote_key y" by (simp add: quote_key_def)
    with inj \<open>x \<in> _\<close> \<open>y \<in> _\<close> show "x = y" by (auto dest: inj_onD)
  qed
  with d show ?thesis by (simp add: distinct_map)
qed

text \<open>
  Claim C4, as the code has it. After a successful \<open>GetSecurityData\<close> the quotes of the
  security, with those it held before, are sorted ascending by \<open>Begin\<close>. After a
  successful \<open>GetSecurityQuotes\<close> on a security that held no quotes, its quotes are
  the fetched ones, of the requested interval, sorted ascending by \<open>Begin\<close>. Both hold
  for every order in which the tasks of the rows append. Neither function removes a
  duplicate: no two quotes share \<open>Begin\<close> and \<open>Interval\<close> when the security held no
  quotes and the rows have none, as the primary key gives for the rows of the store,
  and as it is for the candles when the provider sends no two candles with one begin.
\<close>

theorem quotes_sorted_after_load_and_fetch:
  "(GetSecurityData sched db sec = (None, sec') \<longrightarrow>
      sorted_wrt (\<lambda>a b. Begin a \<le> Begin b) (quotes sec') \<and>
      (fair sched \<and> quotes sec = [] \<and> distinct (map quote_key (security_quotes db)) \<longrightarrow>
         distinct (map (\<lambda>q. (Begin q, Interval q)) (quotes sec')))) \<and>
   (GetSecurityQuotes provider csched sec dateFrom dateTill interval = (None, sec'') \<and>
    quotes sec = [] \<longrightarrow>
      sorted_wrt (\<lambda>a b. Begin a \<le> Begin b) (quotes sec'') \<and>
      (\<forall>q\<in>set (quotes sec''). Interval q = interval) \<and>
      (fair csched \<and> (\<forall>req cs. provider req = Inr cs \<longrightarrow> distinct (map c_begin cs)) \<longrightarrow>
         distinct (map Begin (quotes sec''))))"
proof -
  have A: "sorted_wrt (\<lambda>a b. Begin a \<le> Begin b) (quotes sec')"
    if "GetSecurityData sched db sec = (None, sec')"
    by (simp add: GetSecurityData_quotes [OF that] sorted_sort_Slice_less_Begin)
  have B: "distinct (map (\<lambda>q. (Begin q, Interval q)) (quotes sec'))"
    if "GetSecurityData sched db sec = (None, sec')" "fair sched" "quotes sec = []"
      "distinct (map quote_key (security_quotes db))"
  proof -
    define rows where "rows = filter (\<lambda>q. sq_security q = secId sec) (security_quotes db)"
    have q: "quotes sec' = sort_Slice less_Begin (map quotes_of_row (sched rows))"
      using GetSecurityData_quotes [OF that(1)] that(3) by (simp add: rows_def)
    have d: "distinct (map (\<lambda>r. (sq_begin r, sq_interv r)) rows)"
      unfolding rows_def using that(4) by (rule distinct_rows_of_security)
    have "mset (sched rows) = mset rows" using that(2) by (simp add: fair_def)
    from d have "distinct (map (\<lambda>r. (sq_begin r, sq_interv r)) (sched rows))"
      by (simp only: distinct_map_mset_eq [OF \<open>mset (sched rows) = mset rows\<close>])
    then have "distinct (map (\<lambda>q. (Begin q, Interval q)) (map quotes_of_row (sched rows)))"
      by (simp add: quotes_of_row_def comp_def)
    then show ?thesis
      unfolding q
      by (simp only: distinct_map_mset_eq [OF mset_sort_Slice])
  qed
  have C: "sorted_wrt (\<lambda>a b. Begin a \<le> Begin b) (quotes sec'') \<and>
      (\<forall>q\<in>set (quotes sec''). Interval q = interval) \<and>
      (fair csched \<and> (\<forall>req cs. provider req = Inr cs \<longrightarrow> distinct (map c_begin cs)) \<longrightarrow>
         distinct (map Begin (quotes sec'')))"
    if "GetSecurityQuotes provider csched sec dateFrom dateTill interval = (None, sec'')"
      "quotes sec = []"
  proof -
    from GetSecurityQuotes_quotes [OF that(1)] that(2) obtain req cs
      where cs: "provider req = Inr cs"
        and q: "quotes sec'' = sort_Slice less_Begin (map (quotes_of_candle interval) (csched cs))"
      by auto
    have 1: "sorted_wrt (\<lambda>a b. Begin a \<le> Begin b) (quotes sec'')"
      by (simp add: q sorted_sort_Slice_less_Begin)
    have 2: "\<forall>q\<in>set (quotes sec''). Interval q = interval"
      by (auto simp: q set_sort_Slice quotes_of_candle_def)
    have 3: "distinct (map Begin (quotes sec''))"
      if "fair csched" "\<forall>req cs. provider req = Inr cs \<longrightarrow> distinct (map c_begin cs)"
    proof -
      from that(2) cs have d: "distinct (map c_begin cs)" by blast
      have "mset (csched cs) = mset cs" using that(1) by (simp add: fair_def)
      from d have "distinct (map c_begin (csched cs))"
        by (simp only: distinct_map_mset_eq [OF \<open>mset (csched cs) = mset cs\<close>])
      then have "distinct (map Begin (map (quotes_of_candle interval) (csched cs)))"
        by (simp add: quotes_of_candle_def comp_def)
      then show ?thesis
        unfolding q by (simp only: distinct_map_mset_eq [OF mset_sort_Slice])
    qed
    from 1 2 3 show ?thesis by blast
  qed
  from A B C show ?thesis by blast
qed

theorem quotes_sorted_after_load_and_fetch_witness:
  "GetSecurityData rev store0 (gazp []) = (None, gazp [day_quote 10 168, day_quote 11 170]) \<and>
   sorted_wrt (\<lambda>a b. Begin a \<le> Begin b) [day_quote 10 168, day_quote 11 170] \<and>
   distinct (map (\<lambda>q. (Begin q, Interval q)) [day_quote 10 168, day_quote 11 170]) \<and>
   GetSecurityQuotes (\<lambda>req. Inr [day_candle_row 12 171, day_candle_row 10 169]) (\<lambda>cs. cs)
       (gazp []) (10 * 86400) (13 * 86400 - 1) IntervalDay
     = (None, gazp [day_quote 10 169, day_quote 12 171]) \<and>
   sorted_wrt (\<lambda>a b. Begin a \<le> Begin b) [day_quote 10 169, day_quote 12 171] \<and>
   distinct (map Begin [day_quote 10 169, day_quote 12 171])"
proof -
  have load: "GetSecurityData rev store0 (gazp [])
      = (None, gazp [day_quote 10 168, day_quote 11 170])"
    by (simp add: GetSecurityData_def SecurityExists_def store0_def gazp_def UnknownType_def
        SetName_def SetCurrency_def SetQuotes_def ClearAndSetQuotesList_def SetQuotesList_def
        GetSecurityCurrencyFromString_def ToUpper_def toUpper_char_def RUB_def
        quotes_of_row_def row_of_def quote_row_of_def day_quote_def less_Begin_def After_def)
  have fetch: "GetSecurityQuotes (\<lambda>req. Inr [day_candle_row 12 171, day_candle_row 10 169])
       (\<lambda>cs. cs) (gazp []) (10 * 86400) (13 * 86400 - 1) IntervalDay
     = (None, gazp [day_quote 10 169, day_quote 12 171])"
    by (simp add: GetSecurityQuotes_def getEngineAndMarket_def Share_def gazp_def
        SetQuotesList_def quotes_of_candle_def day_candle_row_def day_quote_def IntervalDay_def
        less_Begin_def After_def)
  have fair: "fair (rev :: quote_row schedule)" "fair (\<lambda>cs :: candle list. cs)"
    by (simp_all add: fair_def)
  have keys: "distinct (map quote_key (security_quotes store0))"
    by (simp add: store0_def quote_key_def row_of_def quote_row_of_def day_quote_def)
  have candles: "\<forall>req cs. (\<lambda>req. Inr [day_candle_row 12 171, day_candle_row 10 169]) req = Inr cs
      \<longrightarrow> distinct (map c_begin cs)"
    by (auto simp: day_candle_row_def)
  have empty: "quotes (gazp []) = []" by (simp add: gazp_def)
  note spec = quotes_sorted_after_load_and_fetch
    [of rev store0 "gazp []" "gazp [day_quote 10 168, day_quote 11 170]"
      "\<lambda>req. Inr [day_candle_row 12 171, day_candle_row 10 169]" "\<lambda>cs. cs"
      "10 * 86400" "13 * 86400 - 1" IntervalDay "gazp [day_quote 10 169, day_quote 12 171]"]
  from spec load fair keys empty
  have 1: "sorted_wrt (\<lambda>a b. Begin a \<le> Begin b) (quotes (gazp [day_quote 10 168, day_quote 11 170]))"
    and 2: "distinct (map (\<lambda>q. (Begin q, Interval q)) (quotes (gazp [day_quote 10 168, day_quote 11 170])))"
    by blast+
  from spec fetch fair candles empty
  have 3: "sorted_wrt (\<lambda>a b. Begin a \<le> Begin b) (quotes (gazp [day_quote 10 169, day_quote 12 171]))"
    and 4: "distinct (map Begin (quotes (gazp [day_quote 10 169, day_quote 12 171])))"
    by blast+
  from load fetch 1 2 3 4 show ?thesis by (simp add: gazp_def)
qed

text \<open>
  The claim as it was stated fails. \<open>GetSecurityQuotes\<close> appends the fetched quotes to
  those that the security holds: a security with a quote of day 10 and a fetched
  candle of day 5 ends with the quotes of the days 10 and 5, in this order. And
  \<open>GetSecurityData\<close> on a security that already holds the rows of the store ends with
  every quote twice.
\<close>

theorem quotes_appended_to_held_quotes:
  "GetSecurityQuotes (\<lambda>req. Inr [day_candle_row 5 160]) (\<lambda>cs. cs) (gazp [day_quote 10 168])
       (5 * 86400) (6 * 86400 - 1) IntervalDay
     = (None, gazp [day_quote 10 168, day_quote 5 160]) \<and>
   \<not> sorted_wrt (\<lambda>a b. Begin a \<le> Begin b) (quotes (gazp [day_quote 10 168, day_quote 5 160])) \<and>
   GetSecurityData (\<lambda>rows. rows) store0 (gazp [day_quote 10 168, day_quote 11 170])
     = (None, gazp [day_quote 10 168, day_quote 10 168, day_quote 11 170, day_quote 11 170]) \<and>
   \<not> distinct (map (\<lambda>q. (Begin q, Interval q))
        (quotes (gazp [day_quote 10 168, day_quote 10 168, day_quote 11 170, day_quote 11 170])))"
  by (simp add: GetSecurityQuotes_def getEngineAndMarket_def Share_def gazp_def
      SetQuotesList_def quotes_of_candle_def day_candle_row_def day_quote_def IntervalDay_def
      less_Begin_def After_def
      GetSecurityData_def SecurityExists_def store0_def UnknownType_def
      SetName_def SetCurrency_def SetQuotes_def ClearAndSetQuotesList_def
      GetSecurityCurrencyFromString_def ToUpper_def toUpper_char_def RUB_def
      quotes_of_row_def row_of_def quote_row_of_def)

section \<open>UpdateAllSecuritiesLastQuotes\<close>

lemma last_quotes_loop_rows:
  "last_quotes_loop db secList args = args @ new_last_quotes db secList"
  by (induction secList arbitrary: args) (simp_all add: Let_def new_last_quotes_def)

lemma store_last_quotes_cases:
  "store_last_quotes db secList =
     (None, db\<lparr>security_quotes := security_quotes db @ last_quotes_loop db secList []\<rparr>) \<or>
   (\<exists>e. store_last_quotes db secList = (Some e, db))"
proof (cases "last_quotes_loop db secList [] = []")
  case True
  then show ?thesis by (simp add: store_last_quotes_def)
next
  case False
  show ?thesis
  proof (cases "insert_quotes db (last_quotes_loop db secList [])")
    case (Inl e)
    with False show ?thesis by (simp add: store_last_quotes_def)
  next
    case (Inr db')
    with False insert_quotes_Inr [OF Inr] show ?thesis by (simp add: store_last_quotes_def)
  qed
qed

lemma store_last_quotes_keeps:
  "store_last_quotes db secList = (err, db') \<Longrightarrow>
   securities db' = securities db \<and> prefix (security_quotes db) (security_quotes db')"
  using store_last_quotes_cases [of db secList] by auto

lemma SecurityQuotesExist_key:
  "SecurityQuotesExist db s date interval \<longleftrightarrow>
   (secId s, date, interval) \<in> set (map quote_key (security_quotes db))"
proof
  assume "SecurityQuotesExist db s date interval"
  then obtain r where r: "r \<in> set (security_quotes db)"
    and "sq_security r = secId s" "sq_begin r = date" "sq_interv r = interval"
    by (auto simp: SecurityQuotesExist_def filter_empty_conv)
  then have "quote_key r = (secId s, date, interval)" by (simp add: quote_key_def)
  with r show "(secId s, date, interval) \<in> set (map quote_key (security_quotes db))"
    by (force simp: image_iff)
next
  assume "(secId s, date, interval) \<in> set (map quote_key (security_quotes db))"
  then obtain r where "r \<in> set (security_quotes db)" "quote_key r = (secId s, date, interval)"
    by auto
  then show "SecurityQuotesExist db s date interval"
    by (auto simp: SecurityQuotesExist_def filter_empty_conv quote_key_def)
qed

lemma insert_last_quotes:
  assumes "distinct (map secId secList)"
    and "set (map secId secList) \<subseteq> set (map s_id (securities db))"
  shows "insert_quotes db (last_quotes_loop db secList [])
         = Inr (db\<lparr>security_quotes := security_quotes db @ last_quotes_loop db secList []\<rparr>)"
proof -
  define new where "new = filter (\<lambda>s. \<not> SecurityQuotesExist db s (Begin (LastQuotes s IntervalDay)) IntervalDay) secList"
  define row where "row = (\<lambda>s. quote_row_of (secId s) IntervalDay (LastQuotes s IntervalDay))"
  have rows: "last_quotes_loop db secList [] = map row new"
    by (simp add: last_quotes_loop_rows new_last_quotes_def new_def row_def)
  have sec: "map fst (map quote_key (map row new)) = map secId new"
    by (simp add: row_def quote_row_of_def quote_key_def comp_def)
  have "distinct (map secId new)"
    unfolding new_def using assms(1) by (rule distinct_map_filter)
  then have "distinct (map fst (map quote_key (map row new)))" by (simp only: sec)
  then have 1: "distinct (map quote_key (map row new))"
    using distinct_map [of fst "map quote_key (map row new)"] by blast
  have 2: "quote_key r \<notin> set (map quote_key (security_quotes db))" if "r \<in> set (map row new)" for r
    using that
    by (auto simp: new_def row_def SecurityQuotesExist_key quote_key_def quote_row_of_def)
  have 3: "sq_security r \<in> set (map s_id (securities db))" if "r \<in> set (map row new)" for r
    using that assms(2) by (auto simp: new_def row_def quote_row_of_def)
  from 1 2 3 show ?thesis
    unfolding rows by (auto simp: insert_quotes_def)
qed

lemma QuotesForDate_loop_snoc:
  "QuotesForDate_loop interval date res (qs @ [q]) =
     (if Interval q \<noteq> interval \<or> After (End q) date \<or>
         After (End (QuotesForDate_loop interval date res qs)) (End q)
      then QuotesForDate_loop interval date res qs else q)"
  by (induction qs arbitrary: res) simp_all

lemma LastQuotes_fetched:
  assumes "Interval fetched = IntervalDay" "zeroTime \<le> End fetched" "End fetched \<le> year3000"
    and "\<forall>q\<in>set held. Interval q = IntervalDay \<longrightarrow> End q \<le> End fetched"
  shows "LastQuotes (s\<lparr>quotes := held @ [fetched]\<rparr>) IntervalDay = fetched"
proof -
  have "End (QuotesForDate_loop IntervalDay year3000 zeroQuotes held) \<le> End fetched"
    using QuotesForDate_loop_cases [of IntervalDay year3000 zeroQuotes held] assms(2,4)
    by (auto simp: zeroQuotes_def qualifies_def)
  with assms(1,3) show ?thesis
    by (simp add: LastQuotes_def QuotesForDate_def QuotesForDate_loop_snoc After_def)
qed

lemma UpdateAllSecuritiesLastQuotes_keeps:
  assumes "UpdateAllSecuritiesLastQuotes provider iter sched now db tf cf = Some (err, db')"
  shows "securities db' = securities db \<and> prefix (security_quotes db) (security_quotes db')"
proof (cases "GetAllSecuritiesData sched db tf cf")
  case (Inl e)
  with assms show ?thesis by (simp add: UpdateAllSecuritiesLastQuotes_def)
next
  case (Inr secList)
  show ?thesis
  proof (cases "GetQuotesForDate provider iter (secList, []) now")
    case None
    with assms Inr show ?thesis by (simp add: UpdateAllSecuritiesLastQuotes_def)
  next
    case (Some r)
    obtain e st where r: "r = (e, st)" by (cases r) auto
    show ?thesis
    proof (cases e)
      case None
      with assms Inr Some r have "store_last_quotes db (fst st) = (err, db')"
        by (simp add: UpdateAllSecuritiesLastQuotes_def)
      then show ?thesis by (rule store_last_quotes_keeps)
    next
      case (Some a)
      with assms Inr \<open>GetQuotesForDate provider iter (secList, []) now = Some r\<close> r
      show ?thesis by (simp add: UpdateAllSecuritiesLastQuotes_def)
    qed
  qed
qed

text \<open>The example of a snapshot that is older than the last stored quote.\<close>

lemma GetAllSecuritiesData_store1: "GetAllSecuritiesData (\<lambda>rows. rows) store1 ''share'' ''RUB''
   = Inr [gazp [provisional_quote]]"
  by (simp add: GetAllSecuritiesData_def GetSecurityTypeFromString_def
      GetSecurityCurrencyFromString_def ToLower_def toLower_char_def ToUpper_def toUpper_char_def
      Share_def ETF_def Bond_def Currency_def UnknownType_def RUB_def USD_def EUR_def CNY_def
      UnknownCurrency_def store1_def last_quote_rows_def row_of_def quote_row_of_def
      provisional_quote_def security_of_row_def GetSecurity_def SetQuotes_def quotes_of_row_def
      gazp_def Let_def)

lemma GetQuotesForDate_store1: "GetQuotesForDate history_day10 (\<lambda>d ts. ts) ([gazp [provisional_quote]], [])
      1010400
   = Some (None, [gazp [provisional_quote, snapshot_quote]],
       [\<lparr>hr_engine = ''stock'', hr_market = ''shares'', hr_boardStr = [], hr_date = 10, hr_start = 100\<rparr>,
        \<lparr>hr_engine = ''stock'', hr_market = ''shares'', hr_boardStr = [], hr_date = 10, hr_start = 0\<rparr>,
        \<lparr>hr_engine = ''stock'', hr_market = ''shares'', hr_boardStr = [], hr_date = 11, hr_start = 0\<rparr>])"
  apply (subst GetQuotesForDate.simps)
  apply (simp add: sTypes_def gazp_def getEngineAndMarket_def Share_def history_day10_def
      history_request_of_def boardStr_def Format_day_def Let_def AddDate_days_def)
  apply (subst GetQuotesForDate.simps)
  apply (simp add: sTypes_def gazp_def getEngineAndMarket_def Share_def history_day10_def
      history_request_of_def boardStr_def Format_day_def Let_def AddDate_days_def set_history_quotes_def sIds_def
      ToUpper_def toUpper_char_def SetQuotes_def snapshot_quote_def IntervalDay_def
      Truncate_day_def provisional_quote_def)
  done

lemma UpdateAllSecuritiesLastQuotes_store1:
  "UpdateAllSecuritiesLastQuotes history_day10 (\<lambda>d ts. ts) (\<lambda>rows. rows)
      1010400 store1 ''share'' ''RUB'' = Some (None, store1)"
proof -
  have "store_last_quotes store1 [gazp [provisional_quote, snapshot_quote]] = (None, store1)"
    by (simp add: store_last_quotes_def
        SecurityQuotesExist_def LastQuotes_def QuotesForDate_def gazp_def store1_def row_of_def
        quote_row_of_def provisional_quote_def snapshot_quote_def IntervalDay_def After_def
        year3000_def zeroQuotes_def zeroTime_def)
  then show ?thesis
    by (simp add: UpdateAllSecuritiesLastQuotes_def GetAllSecuritiesData_store1 GetQuotesForDate_store1)
qed

text \<open>
  Claim C5, as the code has it. The store phase of \<open>UpdateAllSecuritiesLastQuotes\<close>
  takes, for every security, its last day quote (\<open>LastQuotes\<close> of the day interval);
  it skips the security when a row with the key of that quote exists and passes the
  quote's row to one \<open>INSERT\<close> otherwise. Either the statement succeeds and the rows
  are appended to the table, or it fails and the store is unchanged; it succeeds when
  the securities have distinct ids that are registered. In every case, and for the
  whole function whenever it returns, the table of securities is unchanged and the
  rows of \<open>security_quotes\<close> before the call are still there, unchanged, before any
  new row. The last day quote is the fetched quote when no held quote of the day
  interval ends after it.
\<close>

theorem UpdateAllSecuritiesLastQuotes_additive:
  "(store_last_quotes db secList =
      (None, db\<lparr>security_quotes := security_quotes db @ new_last_quotes db secList\<rparr>) \<or>
    (\<exists>e. store_last_quotes db secList = (Some e, db))) \<and>
   (distinct (map secId secList) \<and> set (map secId secList) \<subseteq> set (map s_id (securities db)) \<longrightarrow>
      store_last_quotes db secList =
        (None, db\<lparr>security_quotes := security_quotes db @ new_last_quotes db secList\<rparr>)) \<and>
   (UpdateAllSecuritiesLastQuotes provider iter sched now db tf cf = Some (err, db') \<longrightarrow>
      securities db' = securities db \<and> prefix (security_quotes db) (security_quotes db')) \<and>
   (Interval fetched = IntervalDay \<and> zeroTime \<le> End fetched \<and> End fetched \<le> year3000 \<and>
    (\<forall>q\<in>set held. Interval q = IntervalDay \<longrightarrow> End q \<le> End fetched) \<longrightarrow>
      LastQuotes (s\<lparr>quotes := held @ [fetched]\<rparr>) IntervalDay = fetched)"
proof -
  have rows: "last_quotes_loop db secList [] = new_last_quotes db secList"
    by (simp add: last_quotes_loop_rows)
  have 1: "store_last_quotes db secList =
      (None, db\<lparr>security_quotes := security_quotes db @ new_last_quotes db secList\<rparr>) \<or>
    (\<exists>e. store_last_quotes db secList = (Some e, db))"
    using store_last_quotes_cases [of db secList] by (simp only: rows)
  have 2: "store_last_quotes db secList =
        (None, db\<lparr>security_quotes := security_quotes db @ new_last_quotes db secList\<rparr>)"
    if "distinct (map secId secList)" "set (map secId secList) \<subseteq> set (map s_id (securities db))"
    using insert_last_quotes [OF that] by (simp add: store_last_quotes_def rows Let_def)
  note 3 = UpdateAllSecuritiesLastQuotes_keeps [of provider iter sched now db tf cf err db']
  have 4: "LastQuotes (s\<lparr>quotes := held @ [fetched]\<rparr>) IntervalDay = fetched"
    if "Interval fetched = IntervalDay" "zeroTime \<le> End fetched" "End fetched \<le> year3000"
      "\<forall>q\<in>set held. Interval q = IntervalDay \<longrightarrow> End q \<le> End fetched"
    using that by (rule LastQuotes_fetched)
  from 1 2 3 4 show ?thesis by blast
qed

theorem UpdateAllSecuritiesLastQuotes_additive_witness:
  "store_last_quotes store0
       [gazp [day_quote 11 170, day_snapshot 11 171], share ''LKOH'' [day_snapshot 11 7010]]
     = (None, store0\<lparr>security_quotes := security_quotes store0 @
          [row_of ''LKOH'' (day_snapshot 11 7010)]\<rparr>) \<and>
   LastQuotes (gazp [day_quote 11 170, day_snapshot 11 171]) IntervalDay = day_snapshot 11 171 \<and>
   UpdateAllSecuritiesLastQuotes history_day10 (\<lambda>d ts. ts) (\<lambda>rows. rows) 1010400
       store1 ''share'' ''RUB'' = Some (None, store1) \<and>
   prefix (security_quotes store1) (security_quotes store1)"
proof -
  define secList where "secList =
     [gazp [day_quote 11 170, day_snapshot 11 171], share ''LKOH'' [day_snapshot 11 7010]]"
  note spec = UpdateAllSecuritiesLastQuotes_additive [of store0 secList history_day10
      "\<lambda>d ts. ts" "\<lambda>rows. rows" 1010400 "''share''" "''RUB''" None store0
      "day_snapshot 11 171" "[day_quote 11 170]" "gazp []"]
  note spec1 = UpdateAllSecuritiesLastQuotes_additive [of store1 "[]" history_day10
      "\<lambda>d ts. ts" "\<lambda>rows. rows" 1010400 "''share''" "''RUB''" None store1]
  have ids: "distinct (map secId secList)"
    "set (map secId secList) \<subseteq> set (map s_id (securities store0))"
    by (simp_all add: secList_def gazp_def share_def store0_def)
  have new: "new_last_quotes store0 secList = [row_of ''LKOH'' (day_snapshot 11 7010)]"
    by (simp add: new_last_quotes_def secList_def SecurityQuotesExist_def LastQuotes_def
        QuotesForDate_def gazp_def share_def store0_def row_of_def quote_row_of_def
        day_quote_def day_snapshot_def IntervalDay_def After_def year3000_def zeroQuotes_def
        zeroTime_def)
  from spec ids have "store_last_quotes store0 secList =
      (None, store0\<lparr>security_quotes := security_quotes store0 @ new_last_quotes store0 secList\<rparr>)"
    by blast
  then have a: "store_last_quotes store0 secList =
      (None, store0\<lparr>security_quotes := security_quotes store0 @
          [row_of ''LKOH'' (day_snapshot 11 7010)]\<rparr>)"
    by (simp only: new)
  have held: "Interval (day_snapshot 11 171) = IntervalDay" "zeroTime \<le> End (day_snapshot 11 171)"
    "End (day_snapshot 11 171) \<le> year3000"
    "\<forall>q\<in>set [day_quote 11 170]. Interval q = IntervalDay \<longrightarrow> End q \<le> End (day_snapshot 11 171)"
    by (simp_all add: day_snapshot_def day_quote_def IntervalDay_def zeroTime_def year3000_def)
  from spec held have "LastQuotes (gazp [] \<lparr>quotes := [day_quote 11 170] @ [day_snapshot 11 171]\<rparr>)
      IntervalDay = day_snapshot 11 171"
    by blast
  then have b: "LastQuotes (gazp [day_quote 11 170, day_snapshot 11 171]) IntervalDay
      = day_snapshot 11 171"
    by (simp add: gazp_def)
  note c = UpdateAllSecuritiesLastQuotes_store1
  from spec1 c have d: "prefix (security_quotes store1) (security_quotes store1)"
    by blast
  from a b c d show ?thesis unfolding secList_def by simp
qed

text \<open>
  The claim as it was stated fails when the store holds a day quote that ends after
  the fetched one. The store holds the quote of day 11 of GAZP, taken during the day;
  the provider has the history of day 10 and not yet that of day 11; the call is made
  on day 11 at 16:40 (the instant 1010400). The function
  loads the stored quote, fetches the quote of day 10, whose key is not in the store,
  and inserts nothing: the last day quote of the security is the stored one.
\<close>

theorem UpdateAllSecuritiesLastQuotes_skips_older_snapshot:
  "GetAllSecuritiesData (\<lambda>rows. rows) store1 ''share'' ''RUB'' = Inr [gazp [provisional_quote]] \<and>
   map_option (\<lambda>r. (fst r, fst (snd r)))
     (GetQuotesForDate history_day10 (\<lambda>d ts. ts) ([gazp [provisional_quote]], [])
        1010400)
     = Some (None, [gazp [provisional_quote, snapshot_quote]]) \<and>
   \<not> SecurityQuotesExist store1 (gazp [provisional_quote, snapshot_quote])
       (Begin snapshot_quote) IntervalDay \<and>
   UpdateAllSecuritiesLastQuotes history_day10 (\<lambda>d ts. ts) (\<lambda>rows. rows) 1010400
       store1 ''share'' ''RUB'' = Some (None, store1) \<and>
   security_quotes store1 = [row_of ''GAZP'' provisional_quote]"
proof -
  have a: "\<not> SecurityQuotesExist store1 (gazp [provisional_quote, snapshot_quote])
       (Begin snapshot_quote) IntervalDay"
    by (simp add: SecurityQuotesExist_def gazp_def store1_def row_of_def quote_row_of_def
        provisional_quote_def snapshot_quote_def IntervalDay_def)
  have b: "security_quotes store1 = [row_of ''GAZP'' provisional_quote]"
    by (simp add: store1_def)
  from GetAllSecuritiesData_store1 GetQuotesForDate_store1 UpdateAllSecuritiesLastQuotes_store1 a b show ?thesis by simp
qed

section \<open>GetQuotesForDate: paging and termination\<close>

declare page_loop.simps [simp del]

lemma map_update_same: "(map f xs)[k := f (xs ! k)] = map f xs"
  by (metis list_update_id map_update)

lemma sType_set_history_quotes:
  "map sType (set_history_quotes board date row sec) = map sType sec"
  by (simp add: set_history_quotes_def SetQuotes_def map_update map_update_same
      split: option.splits)

lemma sType_fold_set_history_quotes:
  "map sType (fold (set_history_quotes board date) rows sec) = map sType sec"
  by (induction rows arbitrary: sec) (simp_all add: sType_set_history_quotes)

lemma sType_page_loop:
  "map sType (fst (snd (page_loop provider emb date start st))) = map sType (fst st)"
proof (induction provider emb date start st rule: page_loop.induct)
  case (1 provider emb date start st)
  show ?case
  proof (cases "start < 1000")
    case False
    then show ?thesis by (simp add: page_loop.simps [of provider emb date start st] Let_def)
  next
    case True
    show ?thesis
    proof (cases "provider (history_request_of emb date start)")
      case (Inl e)
      with True show ?thesis by (simp add: page_loop.simps [of provider emb date start st] Let_def)
    next
      case (Inr rows)
      show ?thesis
      proof (cases "rows = []")
        case True
        with \<open>start < 1000\<close> Inr show ?thesis
          by (simp add: page_loop.simps [of provider emb date start st] Let_def)
      next
        case False
        from "1.IH" [OF \<open>start < 1000\<close> refl refl Inr False] \<open>start < 1000\<close> Inr False
        show ?thesis
          by (simp add: page_loop.simps [of provider emb date start st] Let_def
              sType_fold_set_history_quotes)
      qed
    qed
  qed
qed


lemma page_loop_unfold:
  "start < 1000 \<Longrightarrow>
   page_loop provider emb date start st =
     (case provider (history_request_of emb date start) of
        Inl e \<Rightarrow> (Failed e, fst st, history_request_of emb date start # snd st)
      | Inr rows \<Rightarrow>
          if rows = []
          then (if start = 0 then PreviousDay else Proceed, fst st,
                history_request_of emb date start # snd st)
          else page_loop provider emb date (start + 100)
                 (fold (set_history_quotes
                          (if snd (snd emb) \<noteq> [] then snd (snd emb) else ''TQBR'') date)
                    rows (fst st), history_request_of emb date start # snd st))"
  by (simp add: page_loop.simps [of provider emb date start st] Let_def split: sum.splits)

lemma page_loop_end: "\<not> start < 1000 \<Longrightarrow> page_loop provider emb date start st = (Proceed, st)"
  by (simp add: page_loop.simps [of provider emb date start st])

lemma page_loop_later_page:
  "0 < start \<Longrightarrow> fst (page_loop provider emb date start st) \<noteq> PreviousDay"
proof (induction provider emb date start st rule: page_loop.induct)
  case (1 provider emb date start st)
  show ?case
  proof (cases "start < 1000")
    case False
    then show ?thesis by (simp add: page_loop_end)
  next
    case True
    show ?thesis
    proof (cases "provider (history_request_of emb date start)")
      case (Inl e)
      with True show ?thesis by (simp add: page_loop_unfold)
    next
      case (Inr rows)
      show ?thesis
      proof (cases "rows = []")
        case True
        with \<open>start < 1000\<close> Inr "1.prems" show ?thesis by (simp add: page_loop_unfold)
      next
        case False
        from "1.IH" [OF \<open>start < 1000\<close> refl refl Inr False] \<open>start < 1000\<close> Inr False
        show ?thesis by (simp add: page_loop_unfold)
      qed
    qed
  qed
qed

lemma page_loop_PreviousDay:
  "fst (page_loop provider emb date 0 st) = PreviousDay \<longleftrightarrow>
   provider (history_request_of emb date 0) = Inr []"
proof (cases "provider (history_request_of emb date 0)")
  case (Inl e)
  then show ?thesis by (simp add: page_loop_unfold)
next
  case (Inr rows)
  show ?thesis
  proof (cases "rows = []")
    case True
    with Inr show ?thesis by (simp add: page_loop_unfold)
  next
    case False
    with Inr page_loop_later_page [of 100 provider emb date] show ?thesis
      by (simp add: page_loop_unfold)
  qed
qed

lemma page_loop_requests_from:
  "j \<le> 10 \<Longrightarrow>
   snd (snd (page_loop provider emb date (100 * j) st)) =
     rev (map (\<lambda>i. history_request_of emb date (100 * i))
            [j..<j + min (10 - j) (Suc (length (takeWhile
               (\<lambda>i. nonempty_page (provider (history_request_of emb date (100 * i))))
               [j..<10])))])
     @ snd st"
proof (induction "10 - j" arbitrary: j st)
  case 0
  then have "j = 10" by simp
  then show ?case by (simp add: page_loop_end)
next
  case (Suc n)
  then have j: "j < 10" and start: "100 * j < 1000" by simp_all
  from j have upt: "[j..<10] = j # [Suc j..<10]" by (simp add: upt_conv_Cons)
  show ?case
  proof (cases "nonempty_page (provider (history_request_of emb date (100 * j)))")
    case False
    then have tw: "takeWhile (\<lambda>i. nonempty_page (provider (history_request_of emb date (100 * i))))
        [j..<10] = []"
      by (simp add: upt)
    from j have one: "[j..<j + min (10 - j) (Suc 0)] = [j]" by (simp add: upt_conv_Cons)
    from False have "(\<exists>e. provider (history_request_of emb date (100 * j)) = Inl e) \<or>
        provider (history_request_of emb date (100 * j)) = Inr []"
      by (auto simp: nonempty_page_def split: sum.splits)
    then show ?thesis
    proof (elim disjE exE)
      fix e
      assume "provider (history_request_of emb date (100 * j)) = Inl e"
      then show ?thesis by (simp add: page_loop_unfold [OF start] tw one)
    next
      assume "provider (history_request_of emb date (100 * j)) = Inr []"
      then show ?thesis by (simp add: page_loop_unfold [OF start] tw one)
    qed
  next
    case True
    then obtain rows where rows: "provider (history_request_of emb date (100 * j)) = Inr rows"
      "rows \<noteq> []"
      by (auto simp: nonempty_page_def split: sum.splits)
    from Suc.hyps(2) j have n: "n = 10 - Suc j" "Suc j \<le> 10" by simp_all
    have next_start: "100 * j + 100 = 100 * Suc j" by simp
    have count: "j + min (10 - j) (Suc (Suc m)) = Suc j + min (10 - Suc j) (Suc m)" for m
      using j by simp
    from j have "[j..<Suc j + k] = j # [Suc j..<Suc j + k]" for k
      by (simp add: upt_conv_Cons)
    with Suc.hyps(1) [OF n] True rows show ?thesis
      by (simp add: page_loop_unfold [OF start] upt next_start count)
  qed
qed

lemma page_loop_requests:
  "snd (snd (page_loop provider emb date 0 st)) =
     rev (map (\<lambda>i. history_request_of emb date (100 * i))
            [0..<pages_requested provider emb date]) @ snd st"
  using page_loop_requests_from [of 0 provider emb date st]
  by (simp add: pages_requested_def)

lemma class_loop_PreviousDay:
  "fst (class_loop provider date ts st) = PreviousDay \<Longrightarrow>
   \<exists>t\<in>set ts. first_page_empty provider date t"
proof (induction ts arbitrary: st)
  case Nil
  then show ?case by simp
next
  case (Cons t ts)
  show ?case
  proof (cases "getEngineAndMarket t")
    case (Inl e)
    with Cons.prems show ?thesis by simp
  next
    case (Inr emb)
    obtain r st' where page: "page_loop provider emb date 0 st = (r, st')"
      by (cases "page_loop provider emb date 0 st") auto
    show ?thesis
    proof (cases "r = Proceed")
      case True
      with Cons.prems Inr page have "fst (class_loop provider date ts st') = PreviousDay"
        by simp
      from Cons.IH [OF this] show ?thesis by auto
    next
      case False
      with Cons.prems Inr page have "r = PreviousDay"
        by (cases r) simp_all
      with page have "fst (page_loop provider emb date 0 st) = PreviousDay" by simp
      then have "provider (history_request_of emb date 0) = Inr []"
        by (simp only: page_loop_PreviousDay)
      with Inr have "first_page_empty provider date t"
        by (simp add: first_page_empty_def)
      then show ?thesis by simp
    qed
  qed
qed

lemma sType_class_loop:
  "map sType (fst (snd (class_loop provider date ts st))) = map sType (fst st)"
proof (induction ts arbitrary: st)
  case Nil
  show ?case by simp
next
  case (Cons t ts)
  show ?case
  proof (cases "getEngineAndMarket t")
    case (Inl e)
    then show ?thesis by simp
  next
    case (Inr emb)
    obtain r st' where page: "page_loop provider emb date 0 st = (r, st')"
      by (cases "page_loop provider emb date 0 st") auto
    from sType_page_loop [of provider emb date 0 st] page
    have st': "map sType (fst st') = map sType (fst st)" by simp
    show ?thesis
    proof (cases "r = Proceed")
      case True
      with Inr page Cons.IH [of st'] st' show ?thesis by simp
    next
      case False
      with Inr page st' show ?thesis by (cases r) simp_all
    qed
  qed
qed

lemma GetQuotesForDate_step:
  "GetQuotesForDate provider iter st date =
     (if fst (class_loop provider date (iter date (sTypes (fst st))) st) = PreviousDay
      then GetQuotesForDate provider iter
             (snd (class_loop provider date (iter date (sTypes (fst st))) st))
             (AddDate_days date (- 1))
      else Some (case fst (class_loop provider date (iter date (sTypes (fst st))) st) of
                   Failed e \<Rightarrow> Some e | _ \<Rightarrow> None,
                 snd (class_loop provider date (iter date (sTypes (fst st))) st)))"
proof -
  obtain r st' where r: "class_loop provider date (iter date (sTypes (fst st))) st = (r, st')"
    by (cases "class_loop provider date (iter date (sTypes (fst st))) st") auto
  show ?thesis
    by (subst GetQuotesForDate.simps) (cases r; simp add: r)
qed

lemma page_loop_outcome_from:
  "j \<le> 10 \<Longrightarrow> (0 < j \<longrightarrow> nonempty_page (provider (history_request_of emb date (100 * (j - 1))))) \<Longrightarrow>
   fst (page_loop provider emb date (100 * j) st) =
     (case provider (history_request_of emb date
        (100 * (j + min (10 - j) (Suc (length (takeWhile
               (\<lambda>i. nonempty_page (provider (history_request_of emb date (100 * i))))
               [j..<10]))) - 1))) of
        Inl e \<Rightarrow> Failed e
      | Inr rows \<Rightarrow>
          if rows = [] \<and> j + min (10 - j) (Suc (length (takeWhile
               (\<lambda>i. nonempty_page (provider (history_request_of emb date (100 * i))))
               [j..<10]))) = 1 then PreviousDay else Proceed)"
proof (induction "10 - j" arbitrary: j st)
  case 0
  then have j: "j = 10" by simp
  with 0 have "nonempty_page (provider (history_request_of emb date 900))" by simp
  then obtain rows where "provider (history_request_of emb date 900) = Inr rows" "rows \<noteq> []"
    by (auto simp: nonempty_page_def split: sum.splits)
  with j show ?case by (simp add: page_loop_end)
next
  case (Suc n)
  then have j: "j < 10" and start: "100 * j < 1000" by simp_all
  from j have upt: "[j..<10] = j # [Suc j..<10]" by (simp add: upt_conv_Cons)
  show ?case
  proof (cases "nonempty_page (provider (history_request_of emb date (100 * j)))")
    case False
    then have tw: "takeWhile (\<lambda>i. nonempty_page (provider (history_request_of emb date (100 * i))))
        [j..<10] = []"
      by (simp add: upt)
    from j have one: "j + min (10 - j) (Suc (length (takeWhile
        (\<lambda>i. nonempty_page (provider (history_request_of emb date (100 * i)))) [j..<10]))) = Suc j"
      by (simp add: tw)
    from False have "(\<exists>e. provider (history_request_of emb date (100 * j)) = Inl e) \<or>
        provider (history_request_of emb date (100 * j)) = Inr []"
      by (auto simp: nonempty_page_def split: sum.splits)
    then show ?thesis unfolding one
    proof (elim disjE exE)
      fix e
      assume "provider (history_request_of emb date (100 * j)) = Inl e"
      then show "fst (page_loop provider emb date (100 * j) st) =
        (case provider (history_request_of emb date (100 * (Suc j - 1))) of
           Inl e \<Rightarrow> Failed e
         | Inr rows \<Rightarrow> if rows = [] \<and> Suc j = 1 then PreviousDay else Proceed)"
        by (simp add: page_loop_unfold [OF start])
    next
      assume "provider (history_request_of emb date (100 * j)) = Inr []"
      then show "fst (page_loop provider emb date (100 * j) st) =
        (case provider (history_request_of emb date (100 * (Suc j - 1))) of
           Inl e \<Rightarrow> Failed e
         | Inr rows \<Rightarrow> if rows = [] \<and> Suc j = 1 then PreviousDay else Proceed)"
        by (simp add: page_loop_unfold [OF start])
    qed
  next
    case True
    then obtain rows where rows: "provider (history_request_of emb date (100 * j)) = Inr rows"
      "rows \<noteq> []"
      by (auto simp: nonempty_page_def split: sum.splits)
    from Suc.hyps(2) j have n: "n = 10 - Suc j" "Suc j \<le> 10" by simp_all
    have next_start: "100 * j + 100 = 100 * Suc j" by simp
    have pre: "0 < Suc j \<longrightarrow> nonempty_page (provider (history_request_of emb date (100 * (Suc j - 1))))"
      using True by simp
    have count: "j + min (10 - j) (Suc (length (takeWhile
        (\<lambda>i. nonempty_page (provider (history_request_of emb date (100 * i)))) [j..<10]))) =
      Suc j + min (10 - Suc j) (Suc (length (takeWhile
        (\<lambda>i. nonempty_page (provider (history_request_of emb date (100 * i)))) [Suc j..<10])))"
      using j True by (simp add: upt)
    have "fst (page_loop provider emb date (100 * j) st) =
        fst (page_loop provider emb date (100 * Suc j)
          (fold (set_history_quotes (if snd (snd emb) \<noteq> [] then snd (snd emb) else ''TQBR'') date)
             rows (fst st), history_request_of emb date (100 * j) # snd st))"
      using rows by (simp add: page_loop_unfold [OF start] next_start)
    also note Suc.hyps(1) [OF n pre]
    finally show ?thesis unfolding count .
  qed
qed

lemma page_loop_outcome:
  "fst (page_loop provider emb date 0 st) = class_outcome provider emb date"
  using page_loop_outcome_from [of 0 provider emb date st]
  by (simp add: class_outcome_def pages_requested_def cong: sum.case_cong)

lemma page_loop_class_requests:
  "snd (snd (page_loop provider emb date 0 st)) = rev (class_requests provider emb date) @ snd st"
  by (simp add: page_loop_requests class_requests_def)

lemma class_loop_day:
  "fst (class_loop provider date ts st) = day_outcome provider date ts \<and>
   snd (snd (class_loop provider date ts st)) = rev (day_requests provider date ts) @ snd st"
proof (induction ts arbitrary: st)
  case Nil
  show ?case by simp
next
  case (Cons t ts)
  show ?case
  proof (cases "getEngineAndMarket t")
    case (Inl e)
    then show ?thesis by simp
  next
    case (Inr emb)
    obtain r st' where page: "page_loop provider emb date 0 st = (r, st')"
      by (cases "page_loop provider emb date 0 st") auto
    from page page_loop_outcome [of provider emb date st]
    have r: "r = class_outcome provider emb date" by simp
    from page page_loop_class_requests [of provider emb date st]
    have log: "snd st' = rev (class_requests provider emb date) @ snd st" by simp
    show ?thesis
    proof (cases "r = Proceed")
      case True
      with Inr page r log Cons.IH [of st'] show ?thesis by simp
    next
      case False
      then have "day_outcome provider date (t # ts) = r"
        by (simp add: Inr r [symmetric])
      moreover from False have "class_loop provider date (t # ts) st = (r, st')"
        by (cases r) (simp_all add: Inr page)
      moreover from False have "day_requests provider date (t # ts) = class_requests provider emb date"
        by (simp add: Inr r [symmetric])
      ultimately show ?thesis by (simp add: log)
    qed
  qed
qed

lemma sTypes_class_loop:
  "sTypes (fst (snd (class_loop provider date ts st))) = sTypes (fst st)"
  by (simp add: sTypes_def sType_class_loop)

lemma AddDate_days_back:
  "AddDate_days (AddDate_days date (- 1)) (- int j) = AddDate_days date (- int (Suc j))"
  by (simp add: AddDate_days_def)

lemma outcome_of_day_Suc:
  "outcome_of_day provider iter ts (AddDate_days date (- 1)) j = outcome_of_day provider iter ts date (Suc j)"
  by (simp add: outcome_of_day_def classes_of_day_def AddDate_days_back)

lemma requests_of_days_Suc:
  "requests_of_days provider iter ts date (Suc k) =
     day_requests provider date (iter date ts) @
     requests_of_days provider iter ts (AddDate_days date (- 1)) k"
proof -
  have "[0..<Suc (Suc k)] = 0 # map Suc [0..<Suc k]"
    by (simp only: upt_conv_Cons [of 0 "Suc (Suc k)"] map_Suc_upt)
  then show ?thesis
    by (simp add: requests_of_days_def classes_of_day_def comp_def AddDate_days_def
        algebra_simps del: upt_Suc)
qed

lemma GetQuotesForDate_result:
  assumes "\<forall>j<k. outcome_of_day provider iter (sTypes (fst st)) date j = PreviousDay"
    and "outcome_of_day provider iter (sTypes (fst st)) date k \<noteq> PreviousDay"
  shows "\<exists>sec'. GetQuotesForDate provider iter st date =
           Some (case outcome_of_day provider iter (sTypes (fst st)) date k of
                   Failed e \<Rightarrow> Some e | _ \<Rightarrow> None,
                 sec',
                 rev (requests_of_days provider iter (sTypes (fst st)) date k) @ snd st)"
  using assms
proof (induction k arbitrary: st date)
  case 0
  from 0(2) have out: "fst (class_loop provider date (iter date (sTypes (fst st))) st) \<noteq> PreviousDay"
    by (simp add: class_loop_day outcome_of_day_def classes_of_day_def AddDate_days_def)
  have "GetQuotesForDate provider iter st date =
      Some (case day_outcome provider date (iter date (sTypes (fst st))) of
              Failed e \<Rightarrow> Some e | _ \<Rightarrow> None,
            fst (snd (class_loop provider date (iter date (sTypes (fst st))) st)),
            rev (day_requests provider date (iter date (sTypes (fst st)))) @ snd st)"
    using out by (subst GetQuotesForDate_step) (simp add: class_loop_day prod_eq_iff)
  then show ?case
    by (simp add: outcome_of_day_def classes_of_day_def requests_of_days_def AddDate_days_def)
next
  case (Suc k)
  define st' where "st' = snd (class_loop provider date (iter date (sTypes (fst st))) st)"
  have types: "sTypes (fst st') = sTypes (fst st)"
    unfolding st'_def by (rule sTypes_class_loop)
  have log: "snd st' = rev (day_requests provider date (iter date (sTypes (fst st)))) @ snd st"
    unfolding st'_def by (simp add: class_loop_day)
  from Suc.prems(1) have "outcome_of_day provider iter (sTypes (fst st)) date 0 = PreviousDay"
    by simp
  then have prev: "fst (class_loop provider date (iter date (sTypes (fst st))) st) = PreviousDay"
    by (simp add: class_loop_day outcome_of_day_def classes_of_day_def AddDate_days_def)
  have step: "GetQuotesForDate provider iter st date =
      GetQuotesForDate provider iter st' (AddDate_days date (- 1))"
    using prev by (subst GetQuotesForDate_step) (simp add: st'_def)
  from Suc.prems have
    "\<forall>j<k. outcome_of_day provider iter (sTypes (fst st')) (AddDate_days date (- 1)) j = PreviousDay"
    "outcome_of_day provider iter (sTypes (fst st')) (AddDate_days date (- 1)) k \<noteq> PreviousDay"
    by (simp_all add: types outcome_of_day_Suc)
  from Suc.IH [OF this] show ?case
    by (simp add: step types outcome_of_day_Suc requests_of_days_Suc log)
qed

lemma GetQuotesForDate_Some_day:
  "GetQuotesForDate provider iter st date = Some y \<Longrightarrow>
   \<exists>k. (\<forall>j<k. outcome_of_day provider iter (sTypes (fst st)) date j = PreviousDay) \<and>
       outcome_of_day provider iter (sTypes (fst st)) date k \<noteq> PreviousDay"
proof (induction rule: GetQuotesForDate.raw_induct [rotated 1, consumes 1])
  case (1 GetQuotesForDate' provider iter st date y)
  show ?case
  proof (cases "fst (class_loop provider date (iter date (sTypes (fst st))) st) = PreviousDay")
    case False
    then have "outcome_of_day provider iter (sTypes (fst st)) date 0 \<noteq> PreviousDay"
      by (simp add: class_loop_day outcome_of_day_def classes_of_day_def AddDate_days_def)
    then show ?thesis by blast
  next
    case True
    define st' where "st' = snd (class_loop provider date (iter date (sTypes (fst st))) st)"
    have types: "sTypes (fst st') = sTypes (fst st)"
      unfolding st'_def by (rule sTypes_class_loop)
    from True have loop: "class_loop provider date (iter date (sTypes (fst st))) st = (PreviousDay, st')"
      by (simp add: st'_def prod_eq_iff)
    from 1(2) have "GetQuotesForDate' provider iter st' (AddDate_days date (- 1)) = Some y"
      by (simp add: loop)
    from 1(1) [OF this] obtain k where
      k: "\<forall>j<k. outcome_of_day provider iter (sTypes (fst st)) date (Suc j) = PreviousDay"
        "outcome_of_day provider iter (sTypes (fst st)) date (Suc k) \<noteq> PreviousDay"
      by (auto simp: types outcome_of_day_Suc)
    from True have 0: "outcome_of_day provider iter (sTypes (fst st)) date 0 = PreviousDay"
      by (simp add: class_loop_day outcome_of_day_def classes_of_day_def AddDate_days_def)
    have "\<forall>j<Suc k. outcome_of_day provider iter (sTypes (fst st)) date j = PreviousDay"
    proof (intro allI impI)
      fix j assume "j < Suc k"
      then show "outcome_of_day provider iter (sTypes (fst st)) date j = PreviousDay"
        using 0 k(1) by (cases j) simp_all
    qed
    with k(2) show ?thesis by blast
  qed
qed

lemma day_outcome_PreviousDay:
  assumes "day_outcome provider date ts = PreviousDay"
  shows "\<exists>t\<in>set ts. first_page_empty provider date t"
proof -
  from assms have "fst (class_loop provider date ts ([], [])) = PreviousDay"
    by (simp add: class_loop_day)
  then show ?thesis by (rule class_loop_PreviousDay)
qed

lemma class_outcome_PreviousDay:
  "class_outcome provider emb date = PreviousDay \<longleftrightarrow>
   provider (history_request_of emb date 0) = Inr []"
  using page_loop_PreviousDay [of provider emb date "([], [])"]
  by (simp add: page_loop_outcome)

lemma pages_requested_nonempty:
  assumes "Suc i < pages_requested provider emb date"
  shows "nonempty_page (provider (history_request_of emb date (100 * i)))"
proof -
  define P where "P = (\<lambda>i. nonempty_page (provider (history_request_of emb date (100 * i))))"
  from assms have i: "i < length (takeWhile P [0..<10])"
    by (simp add: pages_requested_def P_def)
  then have "takeWhile P [0..<10] ! i \<in> set (takeWhile P [0..<10])"
    by (rule nth_mem)
  then have "P (takeWhile P [0..<10] ! i)"
    by (rule set_takeWhileD [THEN conjunct2])
  moreover from i have "takeWhile P [0..<10] ! i = [0..<10] ! i"
    by (rule takeWhile_nth)
  moreover from i have "i < 10"
    using length_takeWhile_le [of P "[0..<10]"] by simp
  ultimately show ?thesis by (simp add: P_def del: upt_Suc)
qed

lemma pages_requested_last:
  assumes "pages_requested provider emb date < 10"
  shows "\<not> nonempty_page (provider (history_request_of emb date
           (100 * (pages_requested provider emb date - 1))))"
proof -
  define P where "P = (\<lambda>i. nonempty_page (provider (history_request_of emb date (100 * i))))"
  from assms have n: "pages_requested provider emb date = Suc (length (takeWhile P [0..<10]))"
    and l: "length (takeWhile P [0..<10]) < length [0..<10]"
    by (simp_all add: pages_requested_def P_def del: upt_Suc)
  from l have "\<not> P ([0..<10] ! length (takeWhile P [0..<10]))"
    by (rule nth_length_takeWhile)
  with l show ?thesis by (simp add: n P_def del: upt_Suc)
qed

text \<open>
  Claim C7, as the code has it. When a call of \<open>GetQuotesForDate\<close> returns, it went
  back \<open>k\<close> days for some \<open>k\<close>: on each of the days before the last, a class had an empty
  page at 0; on the last day none had before the call ended, with the error of a
  failed request or with none; and the requests that the call sent are those of the
  days 0 to \<open>k\<close> back, day after day and class after class. The requests of a class
  are the pages at 0, 100, 200 and so on, ten (up to 900) at most, each after the
  page before came back non-empty: the paging of the class stops after the first page
  that is empty or fails. A class sends the call to the previous day exactly when
  its page at 0 is empty. The call returns exactly when there is such a last day; so
  it does when, on some day on or before the date, no class of the securities has
  an empty first page.
\<close>

theorem GetQuotesForDate_paging_and_termination:
  "(GetQuotesForDate provider iter st date = Some (err, st') \<longrightarrow>
      (\<exists>k. (\<forall>j<k. outcome_of_day provider iter (sTypes (fst st)) date j = PreviousDay) \<and>
           outcome_of_day provider iter (sTypes (fst st)) date k \<noteq> PreviousDay \<and>
           err = (case outcome_of_day provider iter (sTypes (fst st)) date k of
                    Failed e \<Rightarrow> Some e | _ \<Rightarrow> None) \<and>
           snd st' = rev (requests_of_days provider iter (sTypes (fst st)) date k) @ snd st)) \<and>
   ((\<exists>result. GetQuotesForDate provider iter st date = Some result) \<longleftrightarrow>
      (\<exists>k. outcome_of_day provider iter (sTypes (fst st)) date k \<noteq> PreviousDay)) \<and>
   1 \<le> pages_requested provider emb d \<and> pages_requested provider emb d \<le> 10 \<and>
   (\<forall>i. Suc i < pages_requested provider emb d \<longrightarrow>
      nonempty_page (provider (history_request_of emb d (100 * i)))) \<and>
   (pages_requested provider emb d < 10 \<longrightarrow>
      \<not> nonempty_page (provider (history_request_of emb d
           (100 * (pages_requested provider emb d - 1))))) \<and>
   (class_outcome provider emb d = PreviousDay \<longleftrightarrow>
      provider (history_request_of emb d 0) = Inr []) \<and>
   (outcome_of_day provider iter (sTypes (fst st)) date j = PreviousDay \<longrightarrow>
      (\<exists>t\<in>set (classes_of_day iter (sTypes (fst st)) date j).
         first_page_empty provider (AddDate_days date (- int j)) t)) \<and>
   ((\<forall>d ts. set (iter d ts) = set ts) \<and>
    (\<exists>k. \<forall>t\<in>set (map sType (fst st)).
       \<not> first_page_empty provider (AddDate_days date (- int k)) t) \<longrightarrow>
      (\<exists>result. GetQuotesForDate provider iter st date = Some result))"
proof -
  let ?out = "outcome_of_day provider iter (sTypes (fst st)) date"
  have 1: "\<exists>k. (\<forall>j<k. ?out j = PreviousDay) \<and> ?out k \<noteq> PreviousDay \<and>
           err = (case ?out k of Failed e \<Rightarrow> Some e | _ \<Rightarrow> None) \<and>
           snd st' = rev (requests_of_days provider iter (sTypes (fst st)) date k) @ snd st"
    if "GetQuotesForDate provider iter st date = Some (err, st')"
  proof -
    from GetQuotesForDate_Some_day [OF that] obtain k
      where k: "\<forall>j<k. ?out j = PreviousDay" "?out k \<noteq> PreviousDay"
      by blast
    from GetQuotesForDate_result [OF k] that
    have "err = (case ?out k of Failed e \<Rightarrow> Some e | _ \<Rightarrow> None) \<and>
        snd st' = rev (requests_of_days provider iter (sTypes (fst st)) date k) @ snd st"
      by auto
    with k show ?thesis by blast
  qed
  have returns: "\<exists>result. GetQuotesForDate provider iter st date = Some result"
    if "?out k \<noteq> PreviousDay" for k
  proof -
    define m where "m = (LEAST k. ?out k \<noteq> PreviousDay)"
    from that have "?out m \<noteq> PreviousDay"
      unfolding m_def by (rule LeastI)
    moreover have "\<forall>j<m. ?out j = PreviousDay"
      unfolding m_def using not_less_Least by blast
    ultimately show ?thesis
      using GetQuotesForDate_result [of m provider iter st date] by blast
  qed
  have 2: "(\<exists>result. GetQuotesForDate provider iter st date = Some result) \<longleftrightarrow>
      (\<exists>k. ?out k \<noteq> PreviousDay)"
    using returns GetQuotesForDate_Some_day [of provider iter st date] by blast
  have 3: "1 \<le> pages_requested provider emb d" "pages_requested provider emb d \<le> 10"
    by (simp_all add: pages_requested_def)
  have 4: "\<forall>i. Suc i < pages_requested provider emb d \<longrightarrow>
      nonempty_page (provider (history_request_of emb d (100 * i)))"
    using pages_requested_nonempty by blast
  have 5: "pages_requested provider emb d < 10 \<longrightarrow>
      \<not> nonempty_page (provider (history_request_of emb d
           (100 * (pages_requested provider emb d - 1))))"
    using pages_requested_last by blast
  note 6 = class_outcome_PreviousDay [of provider emb d]
  have 7: "\<exists>t\<in>set (classes_of_day iter (sTypes (fst st)) date j).
         first_page_empty provider (AddDate_days date (- int j)) t"
    if "?out j = PreviousDay" for j
    using that unfolding outcome_of_day_def by (rule day_outcome_PreviousDay)
  have 8: "\<exists>result. GetQuotesForDate provider iter st date = Some result"
    if iter: "\<forall>d ts. set (iter d ts) = set ts"
      and day: "\<exists>k. \<forall>t\<in>set (map sType (fst st)).
         \<not> first_page_empty provider (AddDate_days date (- int k)) t"
  proof -
    from day obtain k where k: "\<forall>t\<in>set (map sType (fst st)).
         \<not> first_page_empty provider (AddDate_days date (- int k)) t" ..
    have "?out k \<noteq> PreviousDay"
    proof
      assume "?out k = PreviousDay"
      from 7 [OF this] iter k show False
        by (auto simp: classes_of_day_def sTypes_def)
    qed
    then show ?thesis by (rule returns)
  qed
  from 1 2 3 4 5 6 7 8 show ?thesis by blast
qed

lemma history_day10_pages:
  "pages_requested history_day10 (''stock'', ''shares'', []) d = (if Format_day d = 10 then 2 else 1)"
  by (simp add: pages_requested_def nonempty_page_def history_day10_def history_request_of_def
      upt_conv_Cons)

lemma history_day10_outcome:
  "day_outcome history_day10 d [''share''] = (if Format_day d = 10 then Proceed else PreviousDay)"
  by (simp add: getEngineAndMarket_def Share_def class_outcome_def history_day10_pages
      history_day10_def history_request_of_def)

lemma history_day10_requests:
  "day_requests history_day10 d [''share''] =
     map (history_request_of (''stock'', ''shares'', []) d) (if Format_day d = 10 then [0, 100] else [0])"
  by (simp add: getEngineAndMarket_def Share_def class_requests_def history_day10_pages
      upt_conv_Cons)

theorem GetQuotesForDate_paging_and_termination_witness:
  "map_option (\<lambda>r. (fst r, map (\<lambda>q. (hr_date q, hr_start q)) (rev (snd (snd r)))))
     (GetQuotesForDate history_day10 (\<lambda>d ts. ts) ([gazp []], []) 1010400)
     = Some (None, [(11, 0), (10, 0), (10, 100)]) \<and>
   pages_requested history_day10 (''stock'', ''shares'', []) (10 * 86400) = 2 \<and>
   nonempty_page (history_day10 (history_request_of (''stock'', ''shares'', []) (10 * 86400) 0)) \<and>
   \<not> nonempty_page (history_day10 (history_request_of (''stock'', ''shares'', []) (10 * 86400) 100)) \<and>
   first_page_empty history_day10 1010400 ''share''"
proof -
  have types: "sTypes [gazp []] = [''share'']"
    by (simp add: sTypes_def gazp_def)
  note spec = GetQuotesForDate_paging_and_termination
    [of history_day10 "\<lambda>d ts. ts" "([gazp []], [])" 1010400 _ _ "(''stock'', ''shares'', [])"
      "10 * 86400", unfolded fst_conv snd_conv types]
  have out: "outcome_of_day history_day10 (\<lambda>d ts. ts) [''share''] 1010400 j =
      (if j = 1 then Proceed else PreviousDay)" for j
    unfolding outcome_of_day_def classes_of_day_def history_day10_outcome
    by (simp add: Format_day_def AddDate_days_def) presburger
  have "outcome_of_day history_day10 (\<lambda>d ts. ts) [''share''] 1010400 1 \<noteq> PreviousDay"
    by (simp add: out)
  with spec obtain result
    where result: "GetQuotesForDate history_day10 (\<lambda>d ts. ts) ([gazp []], []) 1010400 = Some result"
    by blast
  obtain err st' where r: "result = (err, st')" by (cases result) auto
  from spec [of err st'] result r obtain k
    where k: "\<forall>j<k. outcome_of_day history_day10 (\<lambda>d ts. ts) [''share''] 1010400 j = PreviousDay"
      "outcome_of_day history_day10 (\<lambda>d ts. ts) [''share''] 1010400 k \<noteq> PreviousDay"
      and err: "err = (case outcome_of_day history_day10 (\<lambda>d ts. ts) [''share''] 1010400 k of
                    Failed e \<Rightarrow> Some e | _ \<Rightarrow> None)"
      and log: "snd st' = rev (requests_of_days history_day10 (\<lambda>d ts. ts) [''share''] 1010400 k) @ []"
    by blast
  from k(2) have k1: "k = 1" by (simp add: out split: if_splits)
  have "requests_of_days history_day10 (\<lambda>d ts. ts) [''share''] 1010400 1 =
      [history_request_of (''stock'', ''shares'', []) 1010400 0,
       history_request_of (''stock'', ''shares'', []) (1010400 - 86400) 0,
       history_request_of (''stock'', ''shares'', []) (1010400 - 86400) 100]"
    unfolding requests_of_days_def classes_of_day_def history_day10_requests
    by (simp add: Format_day_def AddDate_days_def)
  with log k1 have "map (\<lambda>q. (hr_date q, hr_start q)) (rev (snd st')) = [(11, 0), (10, 0), (10, 100)]"
    by (simp add: history_request_of_def Format_day_def)
  moreover from err k1 have "err = None" by (simp add: out)
  ultimately have a: "map_option (\<lambda>r. (fst r, map (\<lambda>q. (hr_date q, hr_start q)) (rev (snd (snd r)))))
     (GetQuotesForDate history_day10 (\<lambda>d ts. ts) ([gazp []], []) 1010400)
     = Some (None, [(11, 0), (10, 0), (10, 100)])"
    by (simp add: result r)
  have b: "pages_requested history_day10 (''stock'', ''shares'', []) (10 * 86400) = 2"
    by (simp add: history_day10_pages Format_day_def)
  from spec b have c: "nonempty_page (history_day10
      (history_request_of (''stock'', ''shares'', []) (10 * 86400) (100 * 0)))"
    by simp
  from spec b have d: "\<not> nonempty_page (history_day10
      (history_request_of (''stock'', ''shares'', []) (10 * 86400) (100 * (2 - 1))))"
    by simp
  have e: "first_page_empty history_day10 1010400 ''share''"
    by (simp add: first_page_empty_def getEngineAndMarket_def Share_def history_day10_def
        history_request_of_def Format_day_def)
  from a b c d e show ?thesis by simp
qed

text \<open>
  The claim as stated fails when the securities are of two classes and only one of
  them has data: the first page of the shares is non-empty on the day of the call
  (and on every day), the first page of the bonds is empty on every day, and the
  call goes from each day to the day before and never returns.
\<close>

lemma history_shares_only_outcome:
  "day_outcome history_shares_only d [''share'', ''bond''] = PreviousDay"
proof -
  have "pages_requested history_shares_only (''stock'', ''shares'', []) d = 2"
    "pages_requested history_shares_only (''stock'', ''bonds'', []) d = 1"
    by (simp_all add: pages_requested_def nonempty_page_def history_shares_only_def
        history_request_of_def upt_conv_Cons)
  then show ?thesis
    by (simp add: getEngineAndMarket_def Share_def Bond_def ETF_def class_outcome_def
        history_shares_only_def history_request_of_def)
qed

theorem GetQuotesForDate_two_classes_never_returns:
  "nonempty_page (history_shares_only (history_request_of (''stock'', ''shares'', []) 1010400 0)) \<and>
   \<not> first_page_empty history_shares_only 1010400 ''share'' \<and>
   GetQuotesForDate history_shares_only (\<lambda>d ts. ts) ([gazp [], ofz []], []) 1010400 = None"
proof -
  have a: "nonempty_page (history_shares_only
      (history_request_of (''stock'', ''shares'', []) 1010400 0))"
    by (simp add: nonempty_page_def history_shares_only_def history_request_of_def)
  have b: "\<not> first_page_empty history_shares_only 1010400 ''share''"
    by (simp add: first_page_empty_def getEngineAndMarket_def Share_def history_shares_only_def
        history_request_of_def)
  have types: "sTypes [gazp [], ofz []] = [''share'', ''bond'']"
    by (simp add: sTypes_def gazp_def ofz_def)
  have c: "GetQuotesForDate history_shares_only (\<lambda>d ts. ts) ([gazp [], ofz []], []) 1010400 = None"
  proof (rule ccontr)
    assume "GetQuotesForDate history_shares_only (\<lambda>d ts. ts) ([gazp [], ofz []], []) 1010400 \<noteq> None"
    then obtain y where
      "GetQuotesForDate history_shares_only (\<lambda>d ts. ts) ([gazp [], ofz []], []) 1010400 = Some y"
      by blast
    from GetQuotesForDate_Some_day [OF this] show False
      by (simp add: types outcome_of_day_def classes_of_day_def history_shares_only_outcome
          del: day_outcome.simps)
  qed
  from a b c show ?thesis by simp
qed

end
